theory Spec2Isabelle
  imports Main "HOL-Library.AList"
begin

section \<open>Common notions\<close>

text \<open>
  Objects live in heaps and are named by their address. Objects are numbered in the
  order of their creation, and \<^verbatim>\<open>Object.create(o)\<close> takes an object that exists
  already, so a prototype has a smaller address than every object that delegates to it.
\<close>

type_synonym addr = nat

text \<open>
  Every \<^verbatim>\<open>throw\<close> of the sources is one constructor. A call that changes objects
  returns either \<open>Inl (e, w)\<close>, the error thrown and the heap as it is when the
  exception leaves the call, or \<open>Inr\<close> of the heap and the value returned.
\<close>

datatype error =
    ArgumentError
  | InvalidComponentName string
  | ComponentNameMissing
  | ComponentNotRegistered string
  | ExpectedClassReceivedInstance
  | ExpectedClassReceivedOther
  | ComponentAlreadyRegistered
  | ComponentNameTaken string
  | NameIsExistingProperty string
  | TypeMismatch string
  | JsTypeError
  | PropertyNotFound string
  | FieldNotFound string
  | NotAField string
  | NotAMethod string
  | CannotChangeFieldType string

text \<open>
  Reading a slot of an object through its prototype chain: the object's own slot if it
  has one, otherwise the slot of its prototype, and so on. \<open>link\<close> gives the prototype
  of an object, \<open>slot\<close> its own slot.
\<close>

function chain_read :: "('o \<Rightarrow> addr option) \<Rightarrow> ('o \<Rightarrow> 'a option) \<Rightarrow> 'o list \<Rightarrow> addr \<Rightarrow> 'a option" where
  "chain_read link slot heap a =
     (if a < length heap then
        (case slot (heap ! a) of
           Some v \<Rightarrow> Some v
         | None \<Rightarrow>
            (case link (heap ! a) of
               Some p \<Rightarrow> if p < a then chain_read link slot heap p else None
             | None \<Rightarrow> None))
      else None)"
  by pat_completeness auto
termination
  by (relation "measure (\<lambda>(link, slot, heap, a). a)") auto

declare chain_read.simps [simp del]

section \<open>Layers\<close>

subsection \<open>Components, as far as a layer uses them\<close>

text \<open>
  Modelled from the spec: the component class (package \<^verbatim>\<open>@liaison/component\<close>) is not
  among the sources. A component is a class or an instance; it has a name and a
  back-reference to the layer that owns it; a fork delegates every slot it has not set
  itself to the component it was forked from.
\<close>

datatype comp_kind = ComponentClass | ComponentInstance

record component =
  k_kind :: comp_kind
  k_proto :: "addr option"
  k_name :: "string option"
  k_layer :: "addr option"

text \<open>
  A layer object. \<open>l_proto\<close> is the layer it was created from by \<^verbatim>\<open>Object.create\<close>;
  \<open>l_name\<close> and \<open>l_ghost\<close> are the own properties \<^verbatim>\<open>_name\<close> and \<^verbatim>\<open>_ghost\<close> (\<open>None\<close>
  when the layer has no such own property; an own \<^verbatim>\<open>_name\<close> may hold
  \<^verbatim>\<open>undefined\<close>); \<open>l_components\<close> holds the own entries of the layer's
  \<^verbatim>\<open>_components\<close> object. The constructor and \<^verbatim>\<open>fork\<close> give every layer a
  \<^verbatim>\<open>_components\<close> object of its own, and \<^verbatim>\<open>fork\<close> makes it delegate to the
  \<^verbatim>\<open>_components\<close> object of the forked layer, so it delegates along \<open>l_proto\<close>.
  \<open>l_getters\<close> are the accessors that \<^verbatim>\<open>registerComponent\<close> defines on the layer.
\<close>

record layer =
  l_proto :: "addr option"
  l_name :: "string option option"
  l_components :: "(string \<times> addr) list"
  l_ghost :: "addr option"
  l_getters :: "string list"

record lworld =
  layers :: "layer list"
  components :: "component list"

definition isComponentInstance :: "lworld \<Rightarrow> addr \<Rightarrow> bool" where
  "isComponentInstance w c \<longleftrightarrow>
     c < length (components w) \<and> k_kind (components w ! c) = ComponentInstance"

definition isComponentClass :: "lworld \<Rightarrow> addr \<Rightarrow> bool" where
  "isComponentClass w c \<longleftrightarrow>
     c < length (components w) \<and> k_kind (components w ! c) = ComponentClass"

definition getLayerOf :: "lworld \<Rightarrow> addr \<Rightarrow> addr option" where
  "getLayerOf w c = chain_read k_proto k_layer (components w) c"

definition hasLayer :: "lworld \<Rightarrow> addr \<Rightarrow> bool" where
  "hasLayer w c \<longleftrightarrow> getLayerOf w c \<noteq> None"

definition setLayer :: "lworld \<Rightarrow> addr \<Rightarrow> addr \<Rightarrow> lworld" where
  "setLayer w c l =
     w\<lparr>components := (components w)[c := (components w ! c)\<lparr>k_layer := Some l\<rparr>]\<rparr>"

definition getComponentName :: "lworld \<Rightarrow> addr \<Rightarrow> error + string" where
  "getComponentName w c =
     (case chain_read k_proto k_name (components w) c of
        None \<Rightarrow> Inl ComponentNameMissing
      | Some n \<Rightarrow> Inr n)"

definition forkComponent :: "lworld \<Rightarrow> addr \<Rightarrow> lworld \<times> addr" where
  "forkComponent w c =
     (w\<lparr>components := components w @
          [\<lparr>k_kind = k_kind (components w ! c), k_proto = Some c,
            k_name = None, k_layer = None\<rparr>]\<rparr>,
      length (components w))"

subsection \<open>The class Layer\<close>

definition getName :: "lworld \<Rightarrow> addr \<Rightarrow> string option" where
  "getName w this =
     (case chain_read l_proto l_name (layers w) this of
        None \<Rightarrow> None
      | Some n \<Rightarrow> n)"

definition setName :: "lworld \<Rightarrow> addr \<Rightarrow> string option \<Rightarrow> error + lworld" where
  "setName w this name =
     (if name = Some [] then Inl ArgumentError
      else Inr (w\<lparr>layers := (layers w)[this := (layers w ! this)\<lparr>l_name := Some name\<rparr>]\<rparr>))"

definition unsetName :: "lworld \<Rightarrow> addr \<Rightarrow> lworld" where
  "unsetName w this =
     w\<lparr>layers := (layers w)[this := (layers w ! this)\<lparr>l_name := Some None\<rparr>]\<rparr>"

text \<open>\<^verbatim>\<open>this._components[name]\<close>, \<^verbatim>\<open>hasOwnProperty(this._components, name)\<close> and
  \<^verbatim>\<open>this._components[name] = Component\<close>.\<close>

definition components_get :: "lworld \<Rightarrow> addr \<Rightarrow> string \<Rightarrow> addr option" where
  "components_get w this name =
     chain_read l_proto (\<lambda>l. map_of (l_components l) name) (layers w) this"

definition components_hasOwn :: "lworld \<Rightarrow> addr \<Rightarrow> string \<Rightarrow> bool" where
  "components_hasOwn w this name \<longleftrightarrow>
     this < length (layers w) \<and> map_of (l_components (layers w ! this)) name \<noteq> None"

definition components_set :: "lworld \<Rightarrow> addr \<Rightarrow> string \<Rightarrow> addr \<Rightarrow> lworld" where
  "components_set w this name c =
     w\<lparr>layers := (layers w)[this := (layers w ! this)
          \<lparr>l_components := AList.update name c (l_components (layers w ! this))\<rparr>]\<rparr>"

text \<open>
  \<^verbatim>\<open>validateComponentName\<close> and \<^verbatim>\<open>getComponentClassNameFromComponentInstanceName\<close>
  are imported from the component package; \<open>getComponent\<close> takes them as parameters.
  The result names the component class, or its prototype when an instance name was
  asked for.
\<close>

datatype name_kind = ComponentClassName | ComponentInstanceName

datatype comp_ref = ClassOf addr | PrototypeOf addr

definition getComponent ::
  "(string \<Rightarrow> bool \<Rightarrow> error + name_kind) \<Rightarrow> (string \<Rightarrow> string) \<Rightarrow>
   lworld \<Rightarrow> addr \<Rightarrow> string \<Rightarrow> bool \<Rightarrow> bool \<Rightarrow>
   (error \<times> lworld) + (lworld \<times> comp_ref option)" where
  "getComponent validateComponentName classNameOfInstanceName w this name
       throwIfMissing includePrototypes =
     (if name = [] then Inl (ArgumentError, w)
      else case validateComponentName name includePrototypes of
        Inl e \<Rightarrow> Inl (e, w)
      | Inr kind \<Rightarrow>
          let isInstanceName = (kind = ComponentInstanceName);
              className = (if isInstanceName then classNameOfInstanceName name else name)
          in case components_get w this className of
               None \<Rightarrow>
                 if throwIfMissing then Inl (ComponentNotRegistered className, w)
                 else Inr (w, None)
             | Some c \<Rightarrow>
                 let (w', c') =
                       (if \<not> components_hasOwn w this className then
                          let (w1, c1) = forkComponent w c;
                              w2 = setLayer w1 c1 this
                          in (components_set w2 this className c1, c1)
                        else (w, c))
                 in Inr (w', Some (if isInstanceName then PrototypeOf c' else ClassOf c')))"

text \<open>
  \<^verbatim>\<open>componentName in this\<close>: the own properties of the layer and of the layers it
  delegates to, the members of the class and those of \<^verbatim>\<open>Object.prototype\<close>.
\<close>

definition layer_own_names :: "layer \<Rightarrow> string list" where
  "layer_own_names l =
     ''_components'' #
     (if l_name l \<noteq> None then [''_name''] else []) @
     (if l_ghost l \<noteq> None then [''_ghost''] else []) @
     l_getters l"

definition layer_class_names :: "string list" where
  "layer_class_names =
     [''constructor'', ''getName'', ''setName'', ''unsetName'', ''getComponent'',
      ''registerComponent'', ''getComponents'', ''fork'', ''isForkOf'', ''getGhost'',
      ''ghost'', ''describe'']"

definition object_prototype_names :: "string list" where
  "object_prototype_names =
     [''constructor'', ''hasOwnProperty'', ''isPrototypeOf'', ''propertyIsEnumerable'',
      ''toLocaleString'', ''toString'', ''valueOf'', ''__defineGetter__'',
      ''__defineSetter__'', ''__lookupGetter__'', ''__lookupSetter__'', ''__proto__'']"

definition has_property :: "lworld \<Rightarrow> addr \<Rightarrow> string \<Rightarrow> bool" where
  "has_property w this name \<longleftrightarrow>
     chain_read l_proto
       (\<lambda>l. if name \<in> set (layer_own_names l) then Some () else None) (layers w) this \<noteq> None
     \<or> name \<in> set layer_class_names \<or> name \<in> set object_prototype_names"

definition defineGetter :: "lworld \<Rightarrow> addr \<Rightarrow> string \<Rightarrow> lworld" where
  "defineGetter w this name =
     w\<lparr>layers := (layers w)[this := (layers w ! this)
          \<lparr>l_getters := l_getters (layers w ! this) @ [name]\<rparr>]\<rparr>"

text \<open>The argument of \<^verbatim>\<open>registerComponent\<close>: a component, or any other value.\<close>

datatype jsarg = AComponent addr | AOther

definition registerComponent :: "lworld \<Rightarrow> addr \<Rightarrow> jsarg \<Rightarrow> (error \<times> lworld) + lworld" where
  "registerComponent w this arg =
     (case arg of
        AOther \<Rightarrow> Inl (ExpectedClassReceivedOther, w)
      | AComponent c \<Rightarrow>
          if isComponentInstance w c then Inl (ExpectedClassReceivedInstance, w)
          else if \<not> isComponentClass w c then Inl (ExpectedClassReceivedOther, w)
          else if hasLayer w c then Inl (ComponentAlreadyRegistered, w)
          else case getComponentName w c of
            Inl e \<Rightarrow> Inl (e, w)
          | Inr componentName \<Rightarrow>
              if components_get w this componentName \<noteq> None
              then Inl (ComponentNameTaken componentName, w)
              else if has_property w this componentName
              then Inl (NameIsExistingProperty componentName, w)
              else Inr (defineGetter
                          (components_set (setLayer w c this) this componentName c)
                          this componentName))"

definition fork :: "lworld \<Rightarrow> addr \<Rightarrow> lworld \<times> addr" where
  "fork w this =
     (w\<lparr>layers := layers w @
          [\<lparr>l_proto = Some this, l_name = None, l_components = [],
            l_ghost = None, l_getters = []\<rparr>]\<rparr>,
      length (layers w))"

definition ghost_get :: "lworld \<Rightarrow> addr \<Rightarrow> addr option" where
  "ghost_get w this = chain_read l_proto l_ghost (layers w) this"

definition getGhost :: "lworld \<Rightarrow> addr \<Rightarrow> lworld \<times> addr" where
  "getGhost w this =
     (case ghost_get w this of
        Some g \<Rightarrow> (w, g)
      | None \<Rightarrow>
          let (w1, f) = fork w this
          in (w1\<lparr>layers := (layers w1)[this := (layers w1 ! this)\<lparr>l_ghost := Some f\<rparr>]\<rparr>, f))"

text \<open>
  A fork \<open>f\<close> of the layer \<open>l\<close>, direct or through further forks, such that neither
  \<open>f\<close> nor a layer between \<open>f\<close> and \<open>l\<close> has a ghost stored on itself: reading
  \<^verbatim>\<open>_ghost\<close> on \<open>f\<close> then arrives at \<open>l\<close>.
\<close>

function ghostless_fork :: "lworld \<Rightarrow> addr \<Rightarrow> addr \<Rightarrow> bool" where
  "ghostless_fork w f l =
     (if f < length (layers w) \<and> l_ghost (layers w ! f) = None then
        (case l_proto (layers w ! f) of
           Some p \<Rightarrow>
             if p < f then (if p = l then True else ghostless_fork w p l) else False
         | None \<Rightarrow> False)
      else False)"
  by pat_completeness auto
termination
  by (relation "measure (\<lambda>(w, f, l). f)") auto

declare ghostless_fork.simps [simp del]

section \<open>Models\<close>

subsection \<open>Values, field masks, fields\<close>

text \<open>
  The values that fields hold and that plain objects carry: \<^verbatim>\<open>undefined\<close>,
  \<^verbatim>\<open>null\<close>, booleans, numbers, strings, plain objects (a list of own entries in
  insertion order) and references to model instances.
\<close>

datatype val =
    VUndefined
  | VNull
  | VBool bool
  | VNum int
  | VStr string
  | VObj "(string \<times> val) list"
  | VModel addr

fun typeof :: "val \<Rightarrow> string" where
  "typeof VUndefined = ''undefined''"
| "typeof VNull = ''object''"
| "typeof (VBool b) = ''boolean''"
| "typeof (VNum n) = ''number''"
| "typeof (VStr s) = ''string''"
| "typeof (VObj kv) = ''object''"
| "typeof (VModel a) = ''object''"

text \<open>\<^verbatim>\<open>hasOwnProperty(object, name)\<close> and \<^verbatim>\<open>object[name]\<close> for a plain object.\<close>

definition hasOwnProperty :: "(string \<times> 'a) list \<Rightarrow> string \<Rightarrow> bool" where
  "hasOwnProperty object name \<longleftrightarrow> map_of object name \<noteq> None"

definition js_get :: "(string \<times> val) list \<Rightarrow> string \<Rightarrow> val" where
  "js_get object name = (case map_of object name of Some v \<Rightarrow> v | None \<Rightarrow> VUndefined)"

text \<open>\<^verbatim>\<open>{...a, ...b}\<close>: the entries of \<open>a\<close>, then those of \<open>b\<close> written over them.\<close>

definition spread :: "(string \<times> 'a) list \<Rightarrow> (string \<times> 'a) list \<Rightarrow> (string \<times> 'a) list" where
  "spread a b = fold (\<lambda>(k, v). AList.update k v) b a"

text \<open>
  A field selector, and a normalised field mask: \<^verbatim>\<open>true\<close>, \<^verbatim>\<open>false\<close>, or an object
  from field names to nested selectors. A name that an object does not carry reads as
  \<^verbatim>\<open>undefined\<close>, here \<open>None\<close>.
\<close>

datatype mask = MBool bool | MObj "(string \<times> mask) list"

fun truthy :: "mask option \<Rightarrow> bool" where
  "truthy None = False"
| "truthy (Some (MBool b)) = b"
| "truthy (Some (MObj kv)) = True"

text \<open>
  Modelled from the spec: the class FieldMask (\<^verbatim>\<open>./field-mask\<close>) is not among the
  sources. A FieldMask wraps a normalised mask; \<^verbatim>\<open>get(name)\<close> is the nested selector or
  \<^verbatim>\<open>false\<close>; \<^verbatim>\<open>set(name, mask)\<close> stores a nested selector; its serialized form is the
  plain mask itself.
\<close>

fun FieldMask_get :: "mask \<Rightarrow> string \<Rightarrow> mask" where
  "FieldMask_get (MBool b) name = MBool b"
| "FieldMask_get (MObj kv) name = (case map_of kv name of Some m \<Rightarrow> m | None \<Rightarrow> MBool False)"

fun FieldMask_set :: "mask \<Rightarrow> string \<Rightarrow> mask \<Rightarrow> mask" where
  "FieldMask_set (MBool b) name m = MObj [(name, m)]"
| "FieldMask_set (MObj kv) name m = MObj (AList.update name m kv)"

text \<open>
  Modelled from the spec: the classes Field and Method (\<^verbatim>\<open>./field\<close>, \<^verbatim>\<open>./method\<close>)
  are not among the sources. A field has a declared type, fixed at its first declaration,
  the scalar type tag that mask construction compares, a default value, an exposure and
  a value slot that is inactive (\<open>None\<close>) or active with a value.
  A property is held in the property table of the entity that owns it, under its name:
  the name and the owner of a property are the place where it is stored.
\<close>

record exposure =
  x_get :: bool
  x_set :: bool
  x_call :: bool

record field =
  f_type :: string
  f_scalar :: string
  f_default :: val
  f_exposure :: exposure
  f_content :: "val option"

record meth =
  m_exposure :: exposure

datatype property = PField field | PMethod meth

definition isField :: "property \<Rightarrow> bool" where
  "isField property = (case property of PField f \<Rightarrow> True | PMethod m \<Rightarrow> False)"

definition isActive :: "field \<Rightarrow> bool" where
  "isActive f \<longleftrightarrow> f_content f \<noteq> None"

definition isExposed :: "field \<Rightarrow> bool" where
  "isExposed f \<longleftrightarrow> x_get (f_exposure f)"

definition getType :: "field \<Rightarrow> string" where
  "getType f = f_type f"

definition getValue :: "field \<Rightarrow> val" where
  "getValue f = (case f_content f of Some v \<Rightarrow> v | None \<Rightarrow> VUndefined)"

definition getDefaultValue :: "field \<Rightarrow> val" where
  "getDefaultValue f = f_default f"

definition setValue :: "field \<Rightarrow> val \<Rightarrow> field" where
  "setValue f v = f\<lparr>f_content := Some v\<rparr>"

text \<open>
  \<^verbatim>\<open>createValue\<close> makes the value from the raw input according to the declared type
  (\<open>create\<close>, a parameter) and stores it.
\<close>

definition createValue :: "(string \<Rightarrow> val \<Rightarrow> val) \<Rightarrow> field \<Rightarrow> val \<Rightarrow> field" where
  "createValue create f v = f\<lparr>f_content := Some (create (f_type f) v)\<rparr>"

text \<open>The fork of a property shares the state of its origin.\<close>

definition fork_property :: "property \<Rightarrow> addr \<Rightarrow> property" where
  "fork_property property parent = property"

subsection \<open>Entities and their property tables\<close>

text \<open>
  An entity is a model instance or a prototype. \<open>e_proto\<close> is its prototype,
  \<open>e_props\<close> its own \<^verbatim>\<open>__properties\<close> object, if it has one, \<open>e_isNew\<close> the flag
  that \<^verbatim>\<open>$isNew()\<close> reads. A \<^verbatim>\<open>__properties\<close> object has own entries and delegates to
  the \<^verbatim>\<open>__properties\<close> object that the entity \<open>p_proto\<close> saw when it was created
  (\<^verbatim>\<open>Object.create(this.__properties)\<close>), or to nothing (\<^verbatim>\<open>Object.create(null)\<close>).
  \<open>models\<close> is the registry in which a field finds the model of its scalar type: it
  maps the name of a type to the prototype of the model.
\<close>

record props =
  p_proto :: "addr option"
  p_own :: "(string \<times> property) list"

record entity =
  e_proto :: "addr option"
  e_props :: "props option"
  e_isNew :: bool

record world =
  ents :: "addr \<Rightarrow> entity"
  models :: "(string \<times> addr) list"

type_synonym 'a outcome = "(error \<times> world) + (world \<times> 'a)"

text \<open>\<^verbatim>\<open>this.__properties\<close>: the entity whose own table is read, if there is one.\<close>

function find_props :: "world \<Rightarrow> addr \<Rightarrow> addr option" where
  "find_props w a =
     (case e_props (ents w a) of
        Some ps \<Rightarrow> Some a
      | None \<Rightarrow>
          (case e_proto (ents w a) of
             Some b \<Rightarrow> if b < a then find_props w b else None
           | None \<Rightarrow> None))"
  by pat_completeness auto
termination
  by (relation "measure (\<lambda>(w, a). a)") auto

text \<open>\<^verbatim>\<open>this.__properties[name]\<close>, read through the delegation of the tables.\<close>

function visible :: "world \<Rightarrow> addr \<Rightarrow> string \<Rightarrow> property option" where
  "visible w a name =
     (case e_props (ents w a) of
        None \<Rightarrow>
          (case e_proto (ents w a) of
             Some b \<Rightarrow> if b < a then visible w b name else None
           | None \<Rightarrow> None)
      | Some ps \<Rightarrow>
          (case map_of (p_own ps) name of
             Some property \<Rightarrow> Some property
           | None \<Rightarrow>
               (case p_proto ps of
                  Some b \<Rightarrow> if b < a then visible w b name else None
                | None \<Rightarrow> None)))"
  by pat_completeness auto
termination
  by (relation "measure (\<lambda>(w, a, name). a)") auto

text \<open>
  \<^verbatim>\<open>for (const name in this.__properties)\<close>: the own names first, then the names of
  the tables delegated to; a name is visited once.
\<close>

function prop_names :: "world \<Rightarrow> addr \<Rightarrow> string list" where
  "prop_names w a =
     (case e_props (ents w a) of
        None \<Rightarrow>
          (case e_proto (ents w a) of
             Some b \<Rightarrow> if b < a then prop_names w b else []
           | None \<Rightarrow> [])
      | Some ps \<Rightarrow>
          map fst (p_own ps) @
          (case p_proto ps of
             Some b \<Rightarrow> if b < a then prop_names w b else []
           | None \<Rightarrow> []))"
  by pat_completeness auto
termination
  by (relation "measure (\<lambda>(w, a). a)") auto

declare find_props.simps [simp del] visible.simps [simp del] prop_names.simps [simp del]

definition getPropertyNames :: "world \<Rightarrow> addr \<Rightarrow> string list" where
  "getPropertyNames w this = rev (remdups (rev (prop_names w this)))"

definition set_props :: "world \<Rightarrow> addr \<Rightarrow> props \<Rightarrow> world" where
  "set_props w a ps = w\<lparr>ents := (ents w)(a := (ents w a)\<lparr>e_props := Some ps\<rparr>)\<rparr>"

definition priv_getProperties :: "world \<Rightarrow> addr \<Rightarrow> world" where
  "priv_getProperties w this =
     (case find_props w this of
        None \<Rightarrow> set_props w this \<lparr>p_proto = None, p_own = []\<rparr>
      | Some b \<Rightarrow>
          if e_props (ents w this) = None
          then set_props w this \<lparr>p_proto = Some b, p_own = []\<rparr>
          else w)"

definition props_hasOwn :: "world \<Rightarrow> addr \<Rightarrow> string \<Rightarrow> bool" where
  "props_hasOwn w a name \<longleftrightarrow>
     (case e_props (ents w a) of Some ps \<Rightarrow> map_of (p_own ps) name \<noteq> None | None \<Rightarrow> False)"

text \<open>\<^verbatim>\<open>properties[name] = property\<close> on the own table of \<open>a\<close>; also a change made to a
  property that \<open>a\<close> owns.\<close>

definition props_set :: "world \<Rightarrow> addr \<Rightarrow> string \<Rightarrow> property \<Rightarrow> world" where
  "props_set w a name property =
     (case e_props (ents w a) of
        Some ps \<Rightarrow> set_props w a (ps\<lparr>p_own := AList.update name property (p_own ps)\<rparr>)
      | None \<Rightarrow> w)"

subsection \<open>The class Model: properties\<close>

definition getProperty :: "world \<Rightarrow> addr \<Rightarrow> string \<Rightarrow> bool \<Rightarrow> property option outcome" where
  "getProperty w this name throwIfNotFound =
     (let w1 = priv_getProperties w this in
      case visible w1 this name of
        None \<Rightarrow>
          if throwIfNotFound then Inl (PropertyNotFound name, w1) else Inr (w1, None)
      | Some property \<Rightarrow>
          if \<not> props_hasOwn w1 this name
          then Inr (props_set w1 this name (fork_property property this),
                    Some (fork_property property this))
          else Inr (w1, Some property))"

definition hasProperty :: "world \<Rightarrow> addr \<Rightarrow> string \<Rightarrow> bool outcome" where
  "hasProperty w this name =
     (case getProperty w this name False of
        Inl e \<Rightarrow> Inl e
      | Inr (w1, property) \<Rightarrow> Inr (w1, property \<noteq> None))"

text \<open>
  \<^verbatim>\<open>$setProperty(constructor, name, options)\<close>. Options are a plain object. The
  constructor of the property class and \<^verbatim>\<open>getOptions()\<close> are not among the sources:
  \<open>construct\<close> and \<open>getOptions\<close> are parameters.
\<close>

definition setProperty ::
  "(addr \<Rightarrow> string \<Rightarrow> (string \<times> val) list \<Rightarrow> error + property) \<Rightarrow>
   (property \<Rightarrow> (string \<times> val) list) \<Rightarrow>
   world \<Rightarrow> addr \<Rightarrow> string \<Rightarrow> (string \<times> val) list \<Rightarrow> property outcome" where
  "setProperty construct getOptions w this name options =
     (case hasProperty w this name of
        Inl e \<Rightarrow> Inl e
      | Inr (w1, has) \<Rightarrow>
          (case (if has then
                   (case getProperty w1 this name True of
                      Inl e \<Rightarrow> Inl e
                    | Inr (w2, None) \<Rightarrow> Inl (JsTypeError, w2)
                    | Inr (w2, Some existingProperty) \<Rightarrow>
                        Inr (w2, spread (getOptions existingProperty) options))
                 else Inr (w1, options)) of
             Inl e \<Rightarrow> Inl e
           | Inr (w2, options') \<Rightarrow>
               let w3 = priv_getProperties w2 this in
               (case construct this name options' of
                  Inl e \<Rightarrow> Inl (e, w3)
                | Inr property \<Rightarrow> Inr (props_set w3 this name property, property))))"

text \<open>
  The generator \<^verbatim>\<open>$getProperties({filter})\<close> with the body of the loop that consumes
  it: the names are those of \<^verbatim>\<open>$getPropertyNames()\<close> when the loop starts; each
  property is fetched by \<^verbatim>\<open>$getProperty(name)\<close> just before the body runs for it.
\<close>

fun forProperties ::
  "(property \<Rightarrow> bool) option \<Rightarrow> (world \<Rightarrow> string \<Rightarrow> property \<Rightarrow> 's \<Rightarrow> 's outcome) \<Rightarrow>
   addr \<Rightarrow> string list \<Rightarrow> world \<Rightarrow> 's \<Rightarrow> 's outcome" where
  "forProperties flt body this [] w s = Inr (w, s)"
| "forProperties flt body this (name # names) w s =
     (case getProperty w this name True of
        Inl e \<Rightarrow> Inl e
      | Inr (w1, None) \<Rightarrow> forProperties flt body this names w1 s
      | Inr (w1, Some property) \<Rightarrow>
          if (case flt of Some f \<Rightarrow> \<not> f property | None \<Rightarrow> False)
          then forProperties flt body this names w1 s
          else (case body w1 name property s of
                  Inl e \<Rightarrow> Inl e
                | Inr (w2, s2) \<Rightarrow> forProperties flt body this names w2 s2))"

definition getProperties ::
  "(property \<Rightarrow> bool) option \<Rightarrow> (world \<Rightarrow> string \<Rightarrow> property \<Rightarrow> 's \<Rightarrow> 's outcome) \<Rightarrow>
   world \<Rightarrow> addr \<Rightarrow> 's \<Rightarrow> 's outcome" where
  "getProperties flt body w this s = forProperties flt body this (getPropertyNames w this) w s"

subsection \<open>The class Model: fields\<close>

definition getField :: "world \<Rightarrow> addr \<Rightarrow> string \<Rightarrow> bool \<Rightarrow> field option outcome" where
  "getField w this name throwIfNotFound =
     (case getProperty w this name False of
        Inl e \<Rightarrow> Inl e
      | Inr (w1, None) \<Rightarrow>
          if throwIfNotFound then Inl (FieldNotFound name, w1) else Inr (w1, None)
      | Inr (w1, Some (PMethod m)) \<Rightarrow> Inl (NotAField name, w1)
      | Inr (w1, Some (PField f)) \<Rightarrow> Inr (w1, Some f))"

definition hasField :: "world \<Rightarrow> addr \<Rightarrow> string \<Rightarrow> bool outcome" where
  "hasField w this name =
     (case getField w this name False of
        Inl e \<Rightarrow> Inl e
      | Inr (w1, f) \<Rightarrow> Inr (w1, f \<noteq> None))"

definition setField ::
  "(addr \<Rightarrow> string \<Rightarrow> (string \<times> val) list \<Rightarrow> error + property) \<Rightarrow>
   (property \<Rightarrow> (string \<times> val) list) \<Rightarrow>
   world \<Rightarrow> addr \<Rightarrow> string \<Rightarrow> (string \<times> val) list \<Rightarrow> property outcome" where
  "setField constructField getOptions w this name options =
     (case hasProperty w this name of
        Inl e \<Rightarrow> Inl e
      | Inr (w1, has) \<Rightarrow>
          (case (if has then
                   (case getField w1 this name True of
                      Inl e \<Rightarrow> Inl e
                    | Inr (w2, None) \<Rightarrow> Inl (JsTypeError, w2)
                    | Inr (w2, Some existingField) \<Rightarrow>
                        let type = js_get options ''type'' in
                        if type \<noteq> VUndefined \<and> type \<noteq> VStr (getType existingField)
                        then Inl (CannotChangeFieldType name, w2)
                        else Inr (w2, ()))
                 else Inr (w1, ())) of
             Inl e \<Rightarrow> Inl e
           | Inr (w2, u) \<Rightarrow> setProperty constructField getOptions w2 this name options))"

definition fields_filter :: "(field \<Rightarrow> bool) option \<Rightarrow> property \<Rightarrow> bool" where
  "fields_filter otherFilter property =
     (case property of
        PMethod m \<Rightarrow> False
      | PField f \<Rightarrow> (case otherFilter of Some g \<Rightarrow> g f | None \<Rightarrow> True))"

definition getFields ::
  "(field \<Rightarrow> bool) option \<Rightarrow> (world \<Rightarrow> string \<Rightarrow> field \<Rightarrow> 's \<Rightarrow> 's outcome) \<Rightarrow>
   world \<Rightarrow> addr \<Rightarrow> 's \<Rightarrow> 's outcome" where
  "getFields otherFilter body w this s =
     getProperties (Some (fields_filter otherFilter))
       (\<lambda>w name property s.
          case property of PField f \<Rightarrow> body w name f s | PMethod m \<Rightarrow> Inr (w, s))
       w this s"

definition getFieldNames ::
  "(world \<Rightarrow> string \<Rightarrow> 's \<Rightarrow> 's outcome) \<Rightarrow> world \<Rightarrow> addr \<Rightarrow> 's \<Rightarrow> 's outcome" where
  "getFieldNames body w this s = getFields None (\<lambda>w name f s. body w name s) w this s"

definition active_filter :: "(field \<Rightarrow> bool) option \<Rightarrow> field \<Rightarrow> bool" where
  "active_filter otherFilter f \<longleftrightarrow>
     (if \<not> isActive f then False
      else (case otherFilter of Some g \<Rightarrow> g f | None \<Rightarrow> True))"

definition getActiveFields ::
  "(field \<Rightarrow> bool) option \<Rightarrow> (world \<Rightarrow> string \<Rightarrow> field \<Rightarrow> 's \<Rightarrow> 's outcome) \<Rightarrow>
   world \<Rightarrow> addr \<Rightarrow> 's \<Rightarrow> 's outcome" where
  "getActiveFields otherFilter body w this s =
     getFields (Some (active_filter otherFilter)) body w this s"

subsection \<open>The class Model: construction and assignment\<close>

text \<open>
  The constructor, after \<^verbatim>\<open>super(object, {isDeserializing})\<close> has returned: \<open>w\<close> is
  the heap at that point and \<open>this\<close> the instance under construction.
\<close>

definition Model_constructor ::
  "(string \<Rightarrow> val \<Rightarrow> val) \<Rightarrow> world \<Rightarrow> addr \<Rightarrow> (string \<times> val) list \<Rightarrow> bool \<Rightarrow> unit outcome" where
  "Model_constructor create w this object isDeserializing =
     (if isDeserializing then Inr (w, ())
      else getFields None
             (\<lambda>w name field u.
                if hasOwnProperty object name
                then Inr (props_set w this name
                            (PField (createValue create field (js_get object name))), ())
                else Inr (props_set w this name
                            (PField (setValue field (getDefaultValue field))), ()))
             w this ())"

definition isModel :: "val \<Rightarrow> bool" where
  "isModel object = (case object of VModel a \<Rightarrow> True | _ \<Rightarrow> False)"

definition digit_char :: "nat \<Rightarrow> char" where
  "digit_char d = ''0123456789'' ! (d mod 10)"

function string_of_nat :: "nat \<Rightarrow> string" where
  "string_of_nat n =
     (if n div 10 = 0 then [digit_char n]
      else string_of_nat (n div 10) @ [digit_char n])"
  by pat_completeness auto
termination
  by (relation "measure (\<lambda>n. n)") auto

declare string_of_nat.simps [simp del]

text \<open>
  \<^verbatim>\<open>Object.entries(object)\<close>: it throws for \<^verbatim>\<open>null\<close> and \<^verbatim>\<open>undefined\<close>, gives the
  own entries of a plain object, the indexed characters of a string and nothing for a
  number or a boolean. (The own enumerable properties of a model instance are not
  modelled; \<^verbatim>\<open>$assign\<close> never passes one.)
\<close>

fun Object_entries :: "val \<Rightarrow> error + (string \<times> val) list" where
  "Object_entries VUndefined = Inl JsTypeError"
| "Object_entries VNull = Inl JsTypeError"
| "Object_entries (VBool b) = Inr []"
| "Object_entries (VNum n) = Inr []"
| "Object_entries (VStr s) =
     Inr (map (\<lambda>(i, c). (string_of_nat i, VStr [c])) (enumerate 0 s))"
| "Object_entries (VObj kv) = Inr kv"
| "Object_entries (VModel a) = Inr []"

fun assignObject_loop ::
  "(string \<Rightarrow> val \<Rightarrow> val) \<Rightarrow> addr \<Rightarrow> (string \<times> val) list \<Rightarrow> world \<Rightarrow> unit outcome" where
  "assignObject_loop create this [] w = Inr (w, ())"
| "assignObject_loop create this ((name, v) # entries) w =
     (case hasField w this name of
        Inl e \<Rightarrow> Inl e
      | Inr (w1, has) \<Rightarrow>
          if has then
            (case getField w1 this name True of
               Inl e \<Rightarrow> Inl e
             | Inr (w2, None) \<Rightarrow> Inl (JsTypeError, w2)
             | Inr (w2, Some field) \<Rightarrow>
                 assignObject_loop create this entries
                   (props_set w2 this name (PField (createValue create field v))))
          else assignObject_loop create this entries w1)"

definition priv_assignObject ::
  "(string \<Rightarrow> val \<Rightarrow> val) \<Rightarrow> world \<Rightarrow> addr \<Rightarrow> val \<Rightarrow> unit outcome" where
  "priv_assignObject create w this object =
     (case Object_entries object of
        Inl e \<Rightarrow> Inl (e, w)
      | Inr entries \<Rightarrow> assignObject_loop create this entries w)"

definition priv_assignOther :: "world \<Rightarrow> addr \<Rightarrow> val \<Rightarrow> unit outcome" where
  "priv_assignOther w this other =
     (case other of
        VModel otherModel \<Rightarrow>
          getActiveFields None
            (\<lambda>w name otherField u.
               case hasField w this name of
                 Inl e \<Rightarrow> Inl e
               | Inr (w1, has) \<Rightarrow>
                   if has then
                     (case getField w1 this name True of
                        Inl e \<Rightarrow> Inl e
                      | Inr (w2, None) \<Rightarrow> Inl (JsTypeError, w2)
                      | Inr (w2, Some field) \<Rightarrow>
                          Inr (props_set w2 this name
                                 (PField (setValue field (getValue otherField))), ()))
                   else Inr (w1, ()))
            w otherModel ()
      | _ \<Rightarrow> Inl (JsTypeError, w))"

definition assign :: "(string \<Rightarrow> val \<Rightarrow> val) \<Rightarrow> world \<Rightarrow> addr \<Rightarrow> val \<Rightarrow> unit outcome" where
  "assign create w this object =
     (if object = VUndefined then Inr (w, ())
      else if isModel object then priv_assignOther w this object
      else if typeof object = ''object'' then priv_assignObject create w this object
      else Inl (TypeMismatch (typeof object), w))"

subsection \<open>The class Model: field masks\<close>

text \<open>
  \<^verbatim>\<open>__createFieldMask\<close> and \<^verbatim>\<open>Field._createFieldMask\<close> call each other. The
  recursion is given a budget of nested calls: the result is \<open>None\<close> when the budget is
  used up, so that a call that returns is a call with a result \<open>Some\<close>.
  \<open>forPropertiesB\<close> and \<open>getFieldsB\<close> are \<open>forProperties\<close> and \<open>getFields\<close> for
  a body that runs on a budget.
\<close>

fun forPropertiesB ::
  "(property \<Rightarrow> bool) option \<Rightarrow>
   (world \<Rightarrow> string \<Rightarrow> property \<Rightarrow> 's \<Rightarrow> 's outcome option) \<Rightarrow>
   addr \<Rightarrow> string list \<Rightarrow> world \<Rightarrow> 's \<Rightarrow> 's outcome option" where
  "forPropertiesB flt body this [] w s = Some (Inr (w, s))"
| "forPropertiesB flt body this (name # names) w s =
     (case getProperty w this name True of
        Inl e \<Rightarrow> Some (Inl e)
      | Inr (w1, None) \<Rightarrow> forPropertiesB flt body this names w1 s
      | Inr (w1, Some property) \<Rightarrow>
          if (case flt of Some f \<Rightarrow> \<not> f property | None \<Rightarrow> False)
          then forPropertiesB flt body this names w1 s
          else (case body w1 name property s of
                  None \<Rightarrow> None
                | Some (Inl e) \<Rightarrow> Some (Inl e)
                | Some (Inr (w2, s2)) \<Rightarrow> forPropertiesB flt body this names w2 s2))"

definition getFieldsB ::
  "(field \<Rightarrow> bool) option \<Rightarrow> (world \<Rightarrow> string \<Rightarrow> field \<Rightarrow> 's \<Rightarrow> 's outcome option) \<Rightarrow>
   world \<Rightarrow> addr \<Rightarrow> 's \<Rightarrow> 's outcome option" where
  "getFieldsB otherFilter body w this s =
     forPropertiesB (Some (fields_filter otherFilter))
       (\<lambda>w name property s.
          case property of PField f \<Rightarrow> body w name f s | PMethod m \<Rightarrow> Some (Inr (w, s)))
       this (getPropertyNames w this) w s"

text \<open>
  Modelled from the spec: \<^verbatim>\<open>Field._createFieldMask\<close> is not among the sources. It
  computes the nested mask for the value type of the field: the mask of the model that
  the registry has for the scalar type, by that model's \<^verbatim>\<open>__createFieldMask\<close> (here
  \<open>nested\<close>), and \<^verbatim>\<open>true\<close> for a type that is not a model.
\<close>

definition field_createFieldMask ::
  "(world \<Rightarrow> addr \<Rightarrow> mask \<Rightarrow> string set \<Rightarrow> ((string \<times> mask) list \<times> string set) outcome option) \<Rightarrow>
   world \<Rightarrow> field \<Rightarrow> mask \<Rightarrow> string set \<Rightarrow> (mask \<times> string set) outcome option" where
  "field_createFieldMask nested w field fieldMask typeStack =
     (case map_of (models w) (f_scalar field) of
        None \<Rightarrow> Some (Inr (w, MBool True, typeStack))
      | Some prototype \<Rightarrow>
          (case nested w prototype fieldMask typeStack of
             None \<Rightarrow> None
           | Some (Inl e) \<Rightarrow> Some (Inl e)
           | Some (Inr (w', m, typeStack')) \<Rightarrow> Some (Inr (w', MObj m, typeStack'))))"

text \<open>
  The body of the loop of \<^verbatim>\<open>__createFieldMask\<close> for one field: \<open>nested\<close> is the
  \<^verbatim>\<open>__createFieldMask\<close> that \<^verbatim>\<open>Field._createFieldMask\<close> calls; the state of the
  loop is the mask built so far and the set of types being expanded.
\<close>

definition createFieldMask_field ::
  "(world \<Rightarrow> addr \<Rightarrow> mask \<Rightarrow> string set \<Rightarrow> ((string \<times> mask) list \<times> string set) outcome option) \<Rightarrow>
   mask \<Rightarrow> world \<Rightarrow> string \<Rightarrow> field \<Rightarrow> (string \<times> mask) list \<times> string set \<Rightarrow>
   ((string \<times> mask) list \<times> string set) outcome option" where
  "createFieldMask_field nested rootFieldMask w name field state =
     (case state of
        (normalizedFieldMask, typeStack) \<Rightarrow>
          let type = f_scalar field in
          if type \<in> typeStack then Some (Inr (w, normalizedFieldMask, typeStack))
          else
            (case (case rootFieldMask of
                     MObj kv \<Rightarrow> map_of kv name
                   | MBool b \<Rightarrow> Some (MBool b)) of
               None \<Rightarrow> Some (Inr (w, normalizedFieldMask, typeStack))
             | Some fieldMask \<Rightarrow>
                 if \<not> truthy (Some fieldMask)
                 then Some (Inr (w, normalizedFieldMask, typeStack))
                 else
                   (case field_createFieldMask nested w field fieldMask
                           (insert type typeStack) of
                      None \<Rightarrow> None
                    | Some (Inl e) \<Rightarrow> Some (Inl e)
                    | Some (Inr (w', m, typeStack')) \<Rightarrow>
                        Some (Inr (w', AList.update name m normalizedFieldMask,
                                   typeStack' - {type})))))"

fun priv_createFieldMask ::
  "nat \<Rightarrow> (field \<Rightarrow> bool) option \<Rightarrow> bool \<Rightarrow> world \<Rightarrow> addr \<Rightarrow> mask \<Rightarrow> string set \<Rightarrow>
   ((string \<times> mask) list \<times> string set) outcome option" where
  "priv_createFieldMask 0 flt includeReferencedEntities w this rootFieldMask typeStack = None"
| "priv_createFieldMask (Suc budget) flt includeReferencedEntities w this rootFieldMask typeStack =
     getFieldsB flt
       (createFieldMask_field
          (\<lambda>w prototype fieldMask typeStack.
             priv_createFieldMask budget flt includeReferencedEntities
               w prototype fieldMask typeStack)
          rootFieldMask)
       w this ([], typeStack)"

text \<open>
  \<^verbatim>\<open>$createFieldMask(fields = true, {filter, includeReferencedEntities})\<close>; a FieldMask
  given as \<open>fields\<close> is its plain form. The set of types is new for every call.
\<close>

definition createFieldMask ::
  "nat \<Rightarrow> world \<Rightarrow> addr \<Rightarrow> mask option \<Rightarrow> (field \<Rightarrow> bool) option \<Rightarrow> bool \<Rightarrow> mask outcome option" where
  "createFieldMask budget w this fieldsArg flt includeReferencedEntities =
     (case priv_createFieldMask budget flt includeReferencedEntities w this
             (case fieldsArg of None \<Rightarrow> MBool True | Some m \<Rightarrow> m) {} of
        None \<Rightarrow> None
      | Some (Inl e) \<Rightarrow> Some (Inl e)
      | Some (Inr (w', m, typeStack)) \<Rightarrow> Some (Inr (w', MObj m)))"

definition createFieldMaskForActiveFields :: "nat \<Rightarrow> world \<Rightarrow> addr \<Rightarrow> mask outcome option" where
  "createFieldMaskForActiveFields budget w this =
     createFieldMask budget w this (Some (MBool True)) (Some isActive) False"

definition createFieldMaskForExposedFields ::
  "nat \<Rightarrow> world \<Rightarrow> addr \<Rightarrow> mask option \<Rightarrow> mask outcome option" where
  "createFieldMaskForExposedFields budget w this fieldsArg =
     createFieldMask budget w this fieldsArg (Some isExposed) False"

subsection \<open>The class Model: serialization\<close>

text \<open>
  \<open>target\<close> is \<open>None\<close> when it is \<^verbatim>\<open>undefined\<close>; \<open>layerId\<close> and \<open>parentLayerId\<close> are
  the values of \<^verbatim>\<open>layer?.getId()\<close> and \<^verbatim>\<open>parentLayer?.getId()\<close>, \<open>None\<close> when
  \<^verbatim>\<open>undefined\<close> (\<^verbatim>\<open>$getLayer\<close>, \<^verbatim>\<open>getParent\<close> and \<^verbatim>\<open>getId\<close> are not among the
  sources).
\<close>

definition targetIsLower :: "string option \<Rightarrow> string option \<Rightarrow> string option \<Rightarrow> bool" where
  "targetIsLower target layerId parentLayerId =
     (if target = None then False
      else \<not> (target = layerId \<or> target = parentLayerId))"

text \<open>
  \<^verbatim>\<open>Field.serializeValue\<close> and \<^verbatim>\<open>super.$serialize()\<close> are not among the sources:
  \<open>serializeValue\<close> and \<open>superSerialize\<close> are parameters.
\<close>

definition serialize ::
  "(string \<Rightarrow> field \<Rightarrow> string option \<Rightarrow> mask \<Rightarrow> val) \<Rightarrow>
   (world \<Rightarrow> addr \<Rightarrow> (string \<times> val) list) \<Rightarrow> string option \<Rightarrow> string option \<Rightarrow>
   nat \<Rightarrow> world \<Rightarrow> addr \<Rightarrow> string option \<Rightarrow> mask option \<Rightarrow> (string \<times> val) list outcome option" where
  "serialize serializeValue superSerialize layerId parentLayerId budget w this target fieldsArg =
     (case (if targetIsLower target layerId parentLayerId
            then createFieldMaskForExposedFields budget w this fieldsArg
            else createFieldMask budget w this fieldsArg None False) of
        None \<Rightarrow> None
      | Some (Inl e) \<Rightarrow> Some (Inl e)
      | Some (Inr (w1, rootFieldMask)) \<Rightarrow>
          (case getActiveFields None
                  (\<lambda>w name field serializedFields.
                     let fieldMask = FieldMask_get rootFieldMask name in
                     if \<not> truthy (Some fieldMask) then Inr (w, serializedFields)
                     else
                       let v = serializeValue name field target fieldMask in
                       if v \<noteq> VUndefined
                       then Inr (w, AList.update name v serializedFields)
                       else Inr (w, serializedFields))
                  w1 this [] of
             Inl e \<Rightarrow> Some (Inl e)
           | Inr (w2, serializedFields) \<Rightarrow>
               Some (Inr (w2, spread (superSerialize w2 this) serializedFields))))"

text \<open>
  \<^verbatim>\<open>super.$deserialize(object)\<close> and \<^verbatim>\<open>Field.deserializeValue\<close> are not among the
  sources: \<open>superDeserialize\<close> and \<open>deserializeValue\<close> are parameters; the latter
  gives the value that the field holds afterwards and the missing fields it reports.
  The result is the FieldMask of the missing fields, \<open>None\<close> for \<^verbatim>\<open>undefined\<close>.
\<close>

definition deserialize ::
  "(world \<Rightarrow> addr \<Rightarrow> (string \<times> val) list \<Rightarrow> unit outcome) \<Rightarrow>
   (string \<Rightarrow> field \<Rightarrow> val \<Rightarrow> 'src \<Rightarrow> mask \<Rightarrow> val \<times> mask option) \<Rightarrow>
   nat \<Rightarrow> world \<Rightarrow> addr \<Rightarrow> (string \<times> val) list \<Rightarrow> 'src \<Rightarrow> mask option \<Rightarrow> mask option outcome option" where
  "deserialize superDeserialize deserializeValue budget w this object source fieldsArg =
     (case superDeserialize w this object of
        Inl e \<Rightarrow> Some (Inl e)
      | Inr (w0, u) \<Rightarrow>
          (case createFieldMask budget w0 this fieldsArg None False of
             None \<Rightarrow> None
           | Some (Inl e) \<Rightarrow> Some (Inl e)
           | Some (Inr (w1, rootFieldMask)) \<Rightarrow>
               let isNew = e_isNew (ents w1 this) in
               Some (getFieldNames
                  (\<lambda>w name rootMissingFields.
                     let fieldMask = FieldMask_get rootFieldMask name in
                     if \<not> truthy (Some fieldMask) then Inr (w, rootMissingFields)
                     else if hasOwnProperty object name then
                       (case getField w this name True of
                          Inl e \<Rightarrow> Inl e
                        | Inr (w', None) \<Rightarrow> Inl (JsTypeError, w')
                        | Inr (w', Some field) \<Rightarrow>
                            let (v, missingFields) =
                                  deserializeValue name field (js_get object name) source fieldMask;
                                w'' = props_set w' this name (PField (setValue field v))
                            in (case missingFields of
                                  None \<Rightarrow> Inr (w'', rootMissingFields)
                                | Some missing \<Rightarrow>
                                    if truthy (Some missing)
                                    then Inr (w'', Some (FieldMask_set
                                               (case rootMissingFields of
                                                  None \<Rightarrow> MObj [] | Some m \<Rightarrow> m)
                                               name missing))
                                    else Inr (w'', rootMissingFields)))
                     else if isNew then
                       (case getField w this name True of
                          Inl e \<Rightarrow> Inl e
                        | Inr (w', None) \<Rightarrow> Inl (JsTypeError, w')
                        | Inr (w', Some field) \<Rightarrow>
                            Inr (props_set w' this name
                                   (PField (setValue field (getDefaultValue field))),
                                 rootMissingFields))
                     else
                       Inr (w, Some (FieldMask_set
                                  (case rootMissingFields of None \<Rightarrow> MObj [] | Some m \<Rightarrow> m)
                                  name fieldMask)))
                  w1 this None)))"

subsection \<open>Notions used in the statements\<close>

text \<open>
  Two heaps show the same properties to every entity, and have the same flags,
  prototypes and registry. (Materialising a fork changes where a property is stored,
  not what any entity sees.)
\<close>

definition same_view :: "world \<Rightarrow> world \<Rightarrow> bool" where
  "same_view w w' \<longleftrightarrow>
     (\<forall>b name. visible w' b name = visible w b name)
     \<and> (\<forall>b. e_isNew (ents w' b) = e_isNew (ents w b))
     \<and> (\<forall>b. e_proto (ents w' b) = e_proto (ents w b))
     \<and> (\<forall>b. e_props (ents w b) \<noteq> None \<longrightarrow> e_props (ents w' b) \<noteq> None)
     \<and> models w' = models w"

subsection \<open>Example layers\<close>

text \<open>A layer with no component, and the same layer after its first \<^verbatim>\<open>getGhost()\<close>.\<close>

definition empty_layer :: layer where
  "empty_layer =
     \<lparr>l_proto = None, l_name = None, l_components = [], l_ghost = None, l_getters = []\<rparr>"

definition lw0 :: lworld where
  "lw0 = \<lparr>layers = [empty_layer], components = []\<rparr>"

definition lw0_ghost :: lworld where
  "lw0_ghost =
     \<lparr>layers = [empty_layer\<lparr>l_ghost := Some 1\<rparr>, empty_layer\<lparr>l_proto := Some 0\<rparr>],
      components = []\<rparr>"

text \<open>
  The layer 0 with a fork (layer 1); then the fork after its \<^verbatim>\<open>getGhost()\<close>, which
  made layer 2; then layer 0 after its own first \<^verbatim>\<open>getGhost()\<close>, which made layer 3.
  And the layer 0 with a fork, after the first \<^verbatim>\<open>getGhost()\<close> of layer 0 only.
\<close>

definition lw0_forked :: lworld where
  "lw0_forked = \<lparr>layers = [empty_layer, empty_layer\<lparr>l_proto := Some 0\<rparr>], components = []\<rparr>"

definition lw0_fork_ghost :: lworld where
  "lw0_fork_ghost =
     \<lparr>layers = [empty_layer, empty_layer\<lparr>l_proto := Some 0, l_ghost := Some 2\<rparr>,
                empty_layer\<lparr>l_proto := Some 1\<rparr>],
      components = []\<rparr>"

definition lw0_both_ghosts :: lworld where
  "lw0_both_ghosts =
     \<lparr>layers = [empty_layer\<lparr>l_ghost := Some 3\<rparr>,
                empty_layer\<lparr>l_proto := Some 0, l_ghost := Some 2\<rparr>,
                empty_layer\<lparr>l_proto := Some 1\<rparr>, empty_layer\<lparr>l_proto := Some 0\<rparr>],
      components = []\<rparr>"

definition lw0_forked_ghost :: lworld where
  "lw0_forked_ghost =
     \<lparr>layers = [empty_layer\<lparr>l_ghost := Some 2\<rparr>, empty_layer\<lparr>l_proto := Some 0\<rparr>,
                empty_layer\<lparr>l_proto := Some 0\<rparr>],
      components = []\<rparr>"

text \<open>
  A layer and four components that belong to no layer: the class \<^verbatim>\<open>Movie\<close>, an
  instance, a second class named \<^verbatim>\<open>Movie\<close> and a class named \<^verbatim>\<open>fork\<close>.
\<close>

definition lw1 :: lworld where
  "lw1 =
     \<lparr>layers = [empty_layer],
      components =
        [\<lparr>k_kind = ComponentClass, k_proto = None, k_name = Some ''Movie'', k_layer = None\<rparr>,
         \<lparr>k_kind = ComponentInstance, k_proto = None, k_name = Some ''movie'', k_layer = None\<rparr>,
         \<lparr>k_kind = ComponentClass, k_proto = None, k_name = Some ''Movie'', k_layer = None\<rparr>,
         \<lparr>k_kind = ComponentClass, k_proto = None, k_name = Some ''fork'', k_layer = None\<rparr>]\<rparr>"

definition lw1_registered :: lworld where
  "lw1_registered =
     \<lparr>layers = [empty_layer\<lparr>l_components := [(''Movie'', 0)], l_getters := [''Movie'']\<rparr>],
      components =
        [\<lparr>k_kind = ComponentClass, k_proto = None, k_name = Some ''Movie'', k_layer = Some 0\<rparr>,
         \<lparr>k_kind = ComponentInstance, k_proto = None, k_name = Some ''movie'', k_layer = None\<rparr>,
         \<lparr>k_kind = ComponentClass, k_proto = None, k_name = Some ''Movie'', k_layer = None\<rparr>,
         \<lparr>k_kind = ComponentClass, k_proto = None, k_name = Some ''fork'', k_layer = None\<rparr>]\<rparr>"



subsection \<open>Example models\<close>

text \<open>
  The prototype of a model \<^verbatim>\<open>Movie\<close> (entity 0) with the fields \<^verbatim>\<open>title\<close> (a
  string, exposed for reading) and \<^verbatim>\<open>sequel\<close> (a \<^verbatim>\<open>Movie\<close>: the type refers to
  itself) and the method \<^verbatim>\<open>load\<close>; a new instance (entity 2) that has no property
  table of its own yet; and an instance that is not new (entity 3), whose \<^verbatim>\<open>title\<close>
  and \<^verbatim>\<open>sequel\<close> are active.
\<close>

definition blank_entity :: entity where
  "blank_entity = \<lparr>e_proto = None, e_props = None, e_isNew = False\<rparr>"

definition title_field :: field where
  "title_field =
     \<lparr>f_type = ''string'', f_scalar = ''string'', f_default = VStr [],
      f_exposure = \<lparr>x_get = True, x_set = False, x_call = False\<rparr>, f_content = None\<rparr>"

definition sequel_field :: field where
  "sequel_field =
     \<lparr>f_type = ''Movie'', f_scalar = ''Movie'', f_default = VUndefined,
      f_exposure = \<lparr>x_get = False, x_set = False, x_call = False\<rparr>, f_content = None\<rparr>"

definition load_method :: meth where
  "load_method = \<lparr>m_exposure = \<lparr>x_get = False, x_set = False, x_call = True\<rparr>\<rparr>"

definition movie_props :: props where
  "movie_props =
     \<lparr>p_proto = None,
      p_own = [(''title'', PField title_field), (''sequel'', PField sequel_field),
               (''load'', PMethod load_method)]\<rparr>"

definition mw0 :: world where
  "mw0 =
     \<lparr>ents = (\<lambda>a. blank_entity)
        (0 := blank_entity\<lparr>e_props := Some movie_props\<rparr>,
         2 := blank_entity\<lparr>e_proto := Some 0, e_isNew := True\<rparr>,
         3 := blank_entity
                \<lparr>e_proto := Some 0,
                 e_props := Some \<lparr>p_proto = Some 0,
                   p_own = [(''title'', PField (title_field\<lparr>f_content := Some (VStr ''Inception'')\<rparr>)),
                            (''sequel'', PField (sequel_field\<lparr>f_content := Some VNull\<rparr>))]\<rparr>\<rparr>),
      models = [(''Movie'', 0)]\<rparr>"

text \<open>Sample parameters: values are created as they are given, fields are made from
  the \<^verbatim>\<open>type\<close> and \<^verbatim>\<open>default\<close> options, and serialized as their value.\<close>

definition plain_create :: "string \<Rightarrow> val \<Rightarrow> val" where
  "plain_create t v = v"

definition sample_construct :: "addr \<Rightarrow> string \<Rightarrow> (string \<times> val) list \<Rightarrow> error + property" where
  "sample_construct parent name options =
     (case js_get options ''type'' of
        VStr t \<Rightarrow>
          Inr (PField \<lparr>f_type = t, f_scalar = t, f_default = js_get options ''default'',
                       f_exposure = \<lparr>x_get = False, x_set = False, x_call = False\<rparr>,
                       f_content = None\<rparr>)
      | _ \<Rightarrow> Inl ArgumentError)"

definition sample_getOptions :: "property \<Rightarrow> (string \<times> val) list" where
  "sample_getOptions property =
     (case property of
        PField f \<Rightarrow> [(''type'', VStr (f_type f)), (''default'', f_default f)]
      | PMethod m \<Rightarrow> [])"

definition sample_serializeValue :: "string \<Rightarrow> field \<Rightarrow> string option \<Rightarrow> mask \<Rightarrow> val" where
  "sample_serializeValue name f target m = getValue f"

definition sample_superSerialize :: "world \<Rightarrow> addr \<Rightarrow> (string \<times> val) list" where
  "sample_superSerialize w this = [(''_type'', VStr ''Movie'')]"

definition sample_superDeserialize :: "world \<Rightarrow> addr \<Rightarrow> (string \<times> val) list \<Rightarrow> unit outcome" where
  "sample_superDeserialize w this object = Inr (w, ())"

definition sample_deserializeValue ::
  "string \<Rightarrow> field \<Rightarrow> val \<Rightarrow> unit \<Rightarrow> mask \<Rightarrow> val \<times> mask option" where
  "sample_deserializeValue name f v source m = (v, None)"

text \<open>The outcome of a call, taken apart.\<close>

definition thrown :: "'a outcome \<Rightarrow> error option" where
  "thrown r = (case r of Inl (e, w) \<Rightarrow> Some e | Inr x \<Rightarrow> None)"

definition final_world :: "'a outcome \<Rightarrow> world" where
  "final_world r = (case r of Inl (e, w) \<Rightarrow> w | Inr (w, x) \<Rightarrow> w)"

definition returned :: "'a outcome \<Rightarrow> 'a option" where
  "returned r = (case r of Inl (e, w) \<Rightarrow> None | Inr (w, x) \<Rightarrow> Some x)"

text \<open>The entries of the FieldMask of missing fields that \<^verbatim>\<open>$deserialize\<close> returns.\<close>

definition missing_entries :: "mask option \<Rightarrow> (string \<times> mask) list" where
  "missing_entries missing =
     (case missing of Some (MObj kv) \<Rightarrow> kv | _ \<Rightarrow> [])"

section \<open>Properties of layers\<close>

lemma chain_read_append:
  "a < length heap \<Longrightarrow> chain_read link slot (heap @ xs) a = chain_read link slot heap a"
proof (induction a rule: less_induct)
  case (less a)
  show ?case
    using less.prems less.IH
    by (subst chain_read.simps, subst (2) chain_read.simps)
       (auto simp: nth_append split: option.splits)
qed

lemma chain_read_own:
  "a < length heap \<Longrightarrow> slot (heap ! a) = Some v \<Longrightarrow> chain_read link slot heap a = Some v"
  by (subst chain_read.simps) simp

lemma chain_read_proto:
  "a < length heap \<Longrightarrow> slot (heap ! a) = None \<Longrightarrow> link (heap ! a) = Some p \<Longrightarrow> p < a \<Longrightarrow>
   chain_read link slot heap a = chain_read link slot heap p"
  by (subst chain_read.simps) simp

lemma getGhost_cached:
  assumes "this < length (layers w)" and "getGhost w this = (w1, g)"
  shows "ghost_get w1 this = Some g" and "this < length (layers w1)"
proof -
  show "ghost_get w1 this = Some g"
  proof (cases "ghost_get w this")
    case (Some g')
    with assms show ?thesis by (simp add: getGhost_def)
  next
    case None
    with assms have w1: "w1 = w\<lparr>layers := (layers w @
          [\<lparr>l_proto = Some this, l_name = None, l_components = [],
            l_ghost = None, l_getters = []\<rparr>])[this := (layers w ! this)\<lparr>l_ghost := Some g\<rparr>]\<rparr>"
      and g: "g = length (layers w)"
      by (auto simp: getGhost_def fork_def nth_append)
    show ?thesis
      unfolding ghost_get_def w1 using assms(1)
      by (simp add: chain_read_own)
  qed
  show "this < length (layers w1)"
    using assms by (auto simp: getGhost_def fork_def split: option.splits)
qed

lemma ghostless_fork_above: "ghostless_fork w f l \<Longrightarrow> l < f"
proof (induction f rule: less_induct)
  case (less f)
  from less.prems obtain p where
    p: "l_proto (layers w ! f) = Some p" "p < f" "p = l \<or> ghostless_fork w p l"
    by (subst (asm) ghostless_fork.simps) (auto split: if_splits option.splits)
  from p(3) show ?case
  proof
    assume "p = l"
    with p(2) show ?thesis by simp
  next
    assume "ghostless_fork w p l"
    from less.IH [OF p(2) this] p(2) show ?thesis by simp
  qed
qed

lemma ghostless_fork_ghost_get:
  "ghostless_fork w f l \<Longrightarrow> ghost_get w f = ghost_get w l"
proof (induction f rule: less_induct)
  case (less f)
  from less.prems obtain p where
    f: "f < length (layers w)" "l_ghost (layers w ! f) = None"
    and p: "l_proto (layers w ! f) = Some p" "p < f" "p = l \<or> ghostless_fork w p l"
    by (subst (asm) ghostless_fork.simps) (auto split: if_splits option.splits)
  have "ghost_get w f = ghost_get w p"
    unfolding ghost_get_def using f p(1,2) by (rule chain_read_proto)
  also have "\<dots> = ghost_get w l"
    using p(3) less.IH [OF p(2)] by auto
  finally show ?case .
qed

lemma ghostless_fork_preserved:
  assumes same: "\<And>x. x < length (layers w) \<Longrightarrow> x \<noteq> l \<Longrightarrow> layers w' ! x = layers w ! x"
    and len: "length (layers w) \<le> length (layers w')"
  shows "ghostless_fork w f l \<Longrightarrow> ghostless_fork w' f l"
proof (induction f rule: less_induct)
  case (less f)
  from less.prems obtain p where
    f: "f < length (layers w)" "l_ghost (layers w ! f) = None"
    and p: "l_proto (layers w ! f) = Some p" "p < f" "p = l \<or> ghostless_fork w p l"
    by (subst (asm) ghostless_fork.simps) (auto split: if_splits option.splits)
  from ghostless_fork_above [OF less.prems] have "f \<noteq> l" by simp
  from same [OF f(1) this] have eq: "layers w' ! f = layers w ! f" .
  have rest: "p = l \<or> ghostless_fork w' p l"
    using p(3) less.IH [OF p(2)] by auto
  show ?case
    using f len p(1,2) rest by (subst ghostless_fork.simps) (auto simp: eq)
qed

lemma getGhost_own:
  "f < length (layers w) \<Longrightarrow> l_ghost (layers w ! f) = Some g' \<Longrightarrow> getGhost w f = (w, g')"
  by (simp add: getGhost_def ghost_get_def chain_read_own)

lemma ghostless_fork_new:
  assumes "this < length (layers w1)" and "fork w1 this = (w2, f)"
  shows "ghostless_fork w2 f this"
proof -
  from assms(2) have w2: "layers w2 = layers w1 @
          [\<lparr>l_proto = Some this, l_name = None, l_components = [],
            l_ghost = None, l_getters = []\<rparr>]" and f: "f = length (layers w1)"
    by (auto simp: fork_def)
  show ?thesis
    using assms(1) by (subst ghostless_fork.simps) (simp add: w2 f)
qed

lemma getGhost_frame:
  assumes "this < length (layers w)" and "getGhost w this = (w1, g)"
  shows "length (layers w) \<le> length (layers w1)"
    and "\<And>x. x < length (layers w) \<Longrightarrow> x \<noteq> this \<Longrightarrow> layers w1 ! x = layers w ! x"
  using assms
  by (auto simp: getGhost_def fork_def nth_append split: option.splits)

text \<open>
  C10. \<^verbatim>\<open>getGhost()\<close> is idempotent: after a first call that returned \<open>g\<close>, the second
  and every later call on the same layer returns \<open>g\<close> and changes nothing. The cache is
  shared down the forks that have no ghost stored on themselves or on a layer between
  them and this layer: such a fork made before the first call, the fork made after it,
  and such a fork in any later heap where this layer still holds \<open>g\<close>, all return \<open>g\<close>
  from \<^verbatim>\<open>getGhost()\<close> and create no layer. A layer that has a ghost stored on itself
  returns that one, whatever the layers it was forked from hold.
\<close>

theorem getGhost_idempotent_and_shared_by_ghostless_forks:
  assumes "this < length (layers w)" and "getGhost w this = (w1, g)"
  shows "getGhost w1 this = (w1, g)
       \<and> (\<forall>n. getGhost (((\<lambda>s. fst (getGhost s this)) ^^ n) w1) this = (w1, g))
       \<and> (\<forall>f. ghostless_fork w f this \<longrightarrow> getGhost w1 f = (w1, g))
       \<and> (\<forall>w2 f. fork w1 this = (w2, f) \<longrightarrow> getGhost w2 f = (w2, g))
       \<and> (\<forall>w2 f. ghost_get w2 this = Some g \<and> ghostless_fork w2 f this \<longrightarrow>
             getGhost w2 f = (w2, g))
       \<and> (\<forall>w2 f g'. f < length (layers w2) \<and> l_ghost (layers w2 ! f) = Some g' \<longrightarrow>
             getGhost w2 f = (w2, g'))"
proof -
  note c = getGhost_cached [OF assms]
  have again: "getGhost w1 this = (w1, g)"
    using c(1) by (simp add: getGhost_def)
  have iter: "((\<lambda>s. fst (getGhost s this)) ^^ n) w1 = w1" for n
    by (induction n) (simp_all add: again)
  have shared: "getGhost w2 f = (w2, g)"
    if "ghost_get w2 this = Some g" "ghostless_fork w2 f this" for w2 f
    using that ghostless_fork_ghost_get [OF that(2)] by (simp add: getGhost_def)
  have before: "getGhost w1 f = (w1, g)" if "ghostless_fork w f this" for f
  proof -
    have "ghostless_fork w1 f this"
      using getGhost_frame(2) [OF assms] getGhost_frame(1) [OF assms] that
      by (rule ghostless_fork_preserved)
    with c(1) show ?thesis by (rule shared)
  qed
  have forked: "getGhost w2 f = (w2, g)" if "fork w1 this = (w2, f)" for w2 f
  proof -
    from that have w2: "layers w2 = layers w1 @
          [\<lparr>l_proto = Some this, l_name = None, l_components = [],
            l_ghost = None, l_getters = []\<rparr>]"
      by (auto simp: fork_def)
    have "ghost_get w2 this = Some g"
      using c unfolding ghost_get_def w2 by (simp add: chain_read_append)
    moreover have "ghostless_fork w2 f this"
      using c(2) that by (rule ghostless_fork_new)
    ultimately show ?thesis by (rule shared)
  qed
  have own: "getGhost w2 f = (w2, g')"
    if "f < length (layers w2)" "l_ghost (layers w2 ! f) = Some g'" for w2 f g'
    using that by (rule getGhost_own)
  show ?thesis using again iter before forked shared own by simp
qed

theorem getGhost_claim_counterexample:
  "fork lw0 0 = (lw0_forked, 1)
   \<and> getGhost lw0_forked 1 = (lw0_fork_ghost, 2)
   \<and> getGhost lw0_fork_ghost 0 = (lw0_both_ghosts, 3)
   \<and> l_proto (layers lw0_both_ghosts ! 1) = Some 0
   \<and> ghost_get lw0_both_ghosts 0 = Some 3
   \<and> getGhost lw0_both_ghosts 1 = (lw0_both_ghosts, 2)"
  by (simp add: getGhost_def ghost_get_def fork_def chain_read.simps lw0_def lw0_forked_def
        lw0_fork_ghost_def lw0_both_ghosts_def empty_layer_def)

theorem getGhost_idempotent_and_shared_by_ghostless_forks_witness:
  "1 < length (layers lw0_forked)
   \<and> getGhost lw0_forked 0 = (lw0_forked_ghost, 2)
   \<and> ghostless_fork lw0_forked 1 0
   \<and> getGhost lw0_forked_ghost 0 = (lw0_forked_ghost, 2)
   \<and> getGhost lw0_forked_ghost 1 = (lw0_forked_ghost, 2)
   \<and> getGhost (fst (fork lw0_forked_ghost 0)) (snd (fork lw0_forked_ghost 0))
        = (fst (fork lw0_forked_ghost 0), 2)
   \<and> l_ghost (layers lw0_both_ghosts ! 1) = Some 2
   \<and> getGhost lw0_both_ghosts 1 = (lw0_both_ghosts, 2)"
proof -
  have h0: "1 < length (layers lw0_forked)" and h1: "0 < length (layers lw0_forked)"
    by (simp_all add: lw0_forked_def)
  have h2: "getGhost lw0_forked 0 = (lw0_forked_ghost, 2)"
    by (simp add: getGhost_def ghost_get_def fork_def chain_read.simps lw0_forked_def
        lw0_forked_ghost_def empty_layer_def)
  have h3: "ghostless_fork lw0_forked 1 0"
    by (simp add: ghostless_fork.simps lw0_forked_def empty_layer_def)
  have h4: "1 < length (layers lw0_both_ghosts)"
    and h5: "l_ghost (layers lw0_both_ghosts ! 1) = Some 2"
    by (simp_all add: lw0_both_ghosts_def empty_layer_def)
  have h6: "fork lw0_forked_ghost 0 = (fst (fork lw0_forked_ghost 0), snd (fork lw0_forked_ghost 0))"
    by simp
  note main = getGhost_idempotent_and_shared_by_ghostless_forks [OF h1 h2]
  have a: "getGhost lw0_forked_ghost 0 = (lw0_forked_ghost, 2)"
    using main by blast
  have b: "getGhost lw0_forked_ghost 1 = (lw0_forked_ghost, 2)"
    using main h3 by blast
  have c: "getGhost (fst (fork lw0_forked_ghost 0)) (snd (fork lw0_forked_ghost 0))
        = (fst (fork lw0_forked_ghost 0), 2)"
    using main h6 by blast
  have d: "getGhost lw0_both_ghosts 1 = (lw0_both_ghosts, 2)"
    using main h4 h5 by blast
  show ?thesis
    by (intro conjI) (rule h0 h2 h3 a b c h5 d)+
qed

lemma registerComponent_effect:
  assumes "this < length (layers w)" and "registerComponent w this arg = Inr w'"
  shows "\<exists>c n. arg = AComponent c \<and> isComponentClass w c \<and> getComponentName w c = Inr n
           \<and> getLayerOf w' c = Some this \<and> components_get w' this n = Some c
           \<and> components_hasOwn w' this n
           \<and> n \<in> set (l_getters (layers w' ! this))"
proof -
  from assms(2) obtain c n where arg: "arg = AComponent c" and cls: "isComponentClass w c"
    and n: "getComponentName w c = Inr n"
    and w': "w' = defineGetter (components_set (setLayer w c this) this n c) this n"
    by (auto simp: registerComponent_def split: jsarg.splits if_splits sum.splits)
  from cls have c: "c < length (components w)" by (simp add: isComponentClass_def)
  have 1: "getLayerOf w' c = Some this"
    unfolding w' getLayerOf_def using c
    by (simp add: defineGetter_def components_set_def setLayer_def chain_read_own)
  have 2: "components_get w' this n = Some c"
    unfolding w' components_get_def using assms(1)
    by (simp add: defineGetter_def components_set_def setLayer_def chain_read_own update_conv')
  have 3: "components_hasOwn w' this n"
    unfolding w' components_hasOwn_def using assms(1)
    by (simp add: defineGetter_def components_set_def setLayer_def update_conv')
  have 4: "n \<in> set (l_getters (layers w' ! this))"
    unfolding w' using assms(1)
    by (simp add: defineGetter_def components_set_def setLayer_def)
  show ?thesis using arg cls n 1 2 3 4 by blast
qed

text \<open>
  C8. \<^verbatim>\<open>registerComponent\<close> throws for a component instance, for a component
  that belongs to a layer already, for a name that a registered component has, and for a
  name that is a property of the layer; a call that throws leaves the heap (so the
  component map) as it was; a call that returns has set the component's back-reference to
  this layer and stored the component under its name, where \<^verbatim>\<open>getComponent\<close> and the
  accessor defined on the layer find it.
\<close>

theorem registerComponent_guards_and_effect:
  "(isComponentInstance w c \<longrightarrow>
      registerComponent w this (AComponent c) = Inl (ExpectedClassReceivedInstance, w))
   \<and> (isComponentClass w c \<and> hasLayer w c \<longrightarrow>
      registerComponent w this (AComponent c) = Inl (ComponentAlreadyRegistered, w))
   \<and> (isComponentClass w c \<and> \<not> hasLayer w c \<and> getComponentName w c = Inr n
        \<and> components_get w this n \<noteq> None \<longrightarrow>
      registerComponent w this (AComponent c) = Inl (ComponentNameTaken n, w))
   \<and> (isComponentClass w c \<and> \<not> hasLayer w c \<and> getComponentName w c = Inr n
        \<and> components_get w this n = None \<and> has_property w this n \<longrightarrow>
      registerComponent w this (AComponent c) = Inl (NameIsExistingProperty n, w))
   \<and> (\<forall>e w'. registerComponent w this arg = Inl (e, w') \<longrightarrow> w' = w)
   \<and> (\<forall>w'. this < length (layers w) \<and> registerComponent w this arg = Inr w' \<longrightarrow>
        (\<exists>c n. arg = AComponent c \<and> getComponentName w c = Inr n
           \<and> getLayerOf w' c = Some this \<and> components_get w' this n = Some c
           \<and> n \<in> set (l_getters (layers w' ! this))
           \<and> (\<forall>validate classNameOf throwIfMissing.
                 n \<noteq> [] \<and> validate n False = Inr ComponentClassName \<longrightarrow>
                 getComponent validate classNameOf w' this n throwIfMissing False
                   = Inr (w', Some (ClassOf c)))))"
proof -
  have a: "isComponentInstance w c \<longrightarrow>
      registerComponent w this (AComponent c) = Inl (ExpectedClassReceivedInstance, w)"
    by (simp add: registerComponent_def)
  have cls: "\<not> isComponentInstance w c" if "isComponentClass w c"
    using that by (auto simp: isComponentClass_def isComponentInstance_def)
  have b: "isComponentClass w c \<and> hasLayer w c \<longrightarrow>
      registerComponent w this (AComponent c) = Inl (ComponentAlreadyRegistered, w)"
    using cls by (simp add: registerComponent_def)
  have c: "isComponentClass w c \<and> \<not> hasLayer w c \<and> getComponentName w c = Inr n
        \<and> components_get w this n \<noteq> None \<longrightarrow>
      registerComponent w this (AComponent c) = Inl (ComponentNameTaken n, w)"
    using cls by (auto simp: registerComponent_def)
  have d: "isComponentClass w c \<and> \<not> hasLayer w c \<and> getComponentName w c = Inr n
        \<and> components_get w this n = None \<and> has_property w this n \<longrightarrow>
      registerComponent w this (AComponent c) = Inl (NameIsExistingProperty n, w)"
    using cls by (auto simp: registerComponent_def)
  have e: "\<forall>e w'. registerComponent w this arg = Inl (e, w') \<longrightarrow> w' = w"
    by (auto simp: registerComponent_def split: jsarg.splits if_splits sum.splits)
  have f: "\<exists>c n. arg = AComponent c \<and> getComponentName w c = Inr n
           \<and> getLayerOf w' c = Some this \<and> components_get w' this n = Some c
           \<and> n \<in> set (l_getters (layers w' ! this))
           \<and> (\<forall>validate classNameOf throwIfMissing.
                 n \<noteq> [] \<and> validate n False = Inr ComponentClassName \<longrightarrow>
                 getComponent validate classNameOf w' this n throwIfMissing False
                   = Inr (w', Some (ClassOf c)))"
    if "this < length (layers w)" and "registerComponent w this arg = Inr w'" for w'
  proof -
    from registerComponent_effect [OF that] obtain c n where
      h: "arg = AComponent c" "getComponentName w c = Inr n" "getLayerOf w' c = Some this"
         "components_get w' this n = Some c" "components_hasOwn w' this n"
         "n \<in> set (l_getters (layers w' ! this))"
      by blast
    have "getComponent validate classNameOf w' this n throwIfMissing False
            = Inr (w', Some (ClassOf c))"
      if "n \<noteq> []" and "validate n False = Inr ComponentClassName"
      for validate classNameOf throwIfMissing
      using that h(4,5) by (simp add: getComponent_def)
    with h show ?thesis by blast
  qed
  show ?thesis using a b c d e f by blast
qed

theorem registerComponent_guards_and_effect_witness:
  "registerComponent lw1 0 (AComponent 0) = Inr lw1_registered
   \<and> getLayerOf lw1_registered 0 = Some 0
   \<and> components_get lw1_registered 0 ''Movie'' = Some 0
   \<and> registerComponent lw1 0 (AComponent 1) = Inl (ExpectedClassReceivedInstance, lw1)
   \<and> registerComponent lw1_registered 0 (AComponent 0)
        = Inl (ComponentAlreadyRegistered, lw1_registered)
   \<and> registerComponent lw1_registered 0 (AComponent 2)
        = Inl (ComponentNameTaken ''Movie'', lw1_registered)
   \<and> registerComponent lw1 0 (AComponent 3) = Inl (NameIsExistingProperty ''fork'', lw1)"
proof -
  note defs = lw1_def lw1_registered_def empty_layer_def registerComponent_def
    isComponentInstance_def isComponentClass_def hasLayer_def getLayerOf_def
    getComponentName_def components_get_def has_property_def layer_own_names_def
    layer_class_names_def object_prototype_names_def defineGetter_def components_set_def
    setLayer_def chain_read.simps
  have ok: "registerComponent lw1 0 (AComponent 0) = Inr lw1_registered"
    by (simp add: defs)
  have "0 < length (layers lw1) \<and> registerComponent lw1 0 (AComponent 0) = Inr lw1_registered"
    using ok by (simp add: lw1_def)
  moreover have nm: "getComponentName lw1 0 = Inr ''Movie''"
    by (simp add: getComponentName_def chain_read.simps lw1_def)
  ultimately obtain c n where "AComponent 0 = AComponent c" "getComponentName lw1 c = Inr n"
    "getLayerOf lw1_registered c = Some 0" "components_get lw1_registered 0 n = Some c"
    using registerComponent_guards_and_effect [of lw1 0 0 "''Movie''" "AComponent 0"]
    by blast
  with nm have 1: "getLayerOf lw1_registered 0 = Some 0
           \<and> components_get lw1_registered 0 ''Movie'' = Some 0"
    by simp
  have 2: "registerComponent lw1 0 (AComponent 1) = Inl (ExpectedClassReceivedInstance, lw1)"
    using registerComponent_guards_and_effect [of lw1 1 0 "''movie''" "AComponent 1"]
    by (simp add: isComponentInstance_def lw1_def)
  have 3: "registerComponent lw1_registered 0 (AComponent 0)
        = Inl (ComponentAlreadyRegistered, lw1_registered)"
    using registerComponent_guards_and_effect
      [of lw1_registered 0 0 "''Movie''" "AComponent 0"]
    by (simp add: isComponentClass_def hasLayer_def getLayerOf_def chain_read.simps
        lw1_registered_def)
  have 4: "registerComponent lw1_registered 0 (AComponent 2)
        = Inl (ComponentNameTaken ''Movie'', lw1_registered)"
    using registerComponent_guards_and_effect
      [of lw1_registered 2 0 "''Movie''" "AComponent 2"]
    by (simp add: isComponentClass_def hasLayer_def getLayerOf_def chain_read.simps
        getComponentName_def components_get_def lw1_registered_def empty_layer_def)
  have 5: "registerComponent lw1 0 (AComponent 3) = Inl (NameIsExistingProperty ''fork'', lw1)"
    using registerComponent_guards_and_effect [of lw1 3 0 "''fork''" "AComponent 3"]
    by (simp add: isComponentClass_def hasLayer_def getLayerOf_def chain_read.simps
        getComponentName_def components_get_def has_property_def layer_class_names_def
        lw1_def empty_layer_def)
  show ?thesis using ok 1 2 3 4 5 by simp
qed

section \<open>Properties of models\<close>

subsection \<open>Property tables\<close>

lemma visible_below:
  "(\<And>x. x < k \<Longrightarrow> ents w' x = ents w x) \<Longrightarrow> b < k \<Longrightarrow> visible w' b name = visible w b name"
proof (induction b rule: less_induct)
  case (less b)
  have e: "ents w' b = ents w b" using less.prems by simp
  have r: "visible w' c name = visible w c name" if "c < b" for c
    using less.IH [OF that] less.prems that by simp
  show ?case
    by (subst visible.simps, subst (2) visible.simps)
       (simp add: e r split: option.splits)
qed

lemma find_props_below:
  "(\<And>x. x < k \<Longrightarrow> ents w' x = ents w x) \<Longrightarrow> b < k \<Longrightarrow> find_props w' b = find_props w b"
proof (induction b rule: less_induct)
  case (less b)
  have e: "ents w' b = ents w b" using less.prems by simp
  have r: "find_props w' c = find_props w c" if "c < b" for c
    using less.IH [OF that] less.prems that by simp
  show ?case
    by (subst find_props.simps, subst (2) find_props.simps)
       (simp add: e r split: option.splits)
qed

lemma find_props_own: "e_props (ents w a) = Some ps \<Longrightarrow> find_props w a = Some a"
  by (subst find_props.simps) simp

lemma find_props_step:
  assumes "e_props (ents w a) = None" and "find_props w a = Some b"
  obtains c where "e_proto (ents w a) = Some c" and "c < a" and "find_props w c = Some b"
  using assms by (subst (asm) find_props.simps) (auto split: option.splits if_splits)

lemma find_props_le: "find_props w a = Some b \<Longrightarrow> b \<le> a"
proof (induction a rule: less_induct)
  case (less a)
  show ?case
  proof (cases "e_props (ents w a)")
    case (Some ps)
    with less.prems show ?thesis by (simp add: find_props_own)
  next
    case None
    from find_props_step [OF None less.prems] obtain c where
      "c < a" "find_props w c = Some b" by blast
    with less.IH [of c] show ?thesis by simp
  qed
qed

lemma find_props_owner: "find_props w a = Some b \<Longrightarrow> e_props (ents w b) \<noteq> None"
proof (induction a rule: less_induct)
  case (less a)
  show ?case
  proof (cases "e_props (ents w a)")
    case (Some ps)
    with less.prems show ?thesis by (simp add: find_props_own)
  next
    case None
    from find_props_step [OF None less.prems] obtain c where
      "c < a" "find_props w c = Some b" by blast
    with less.IH [of c] show ?thesis by simp
  qed
qed

lemma visible_find_props:
  "visible w a name = (case find_props w a of None \<Rightarrow> None | Some b \<Rightarrow> visible w b name)"
proof (induction a rule: less_induct)
  case (less a)
  show ?case
  proof (cases "e_props (ents w a)")
    case (Some ps)
    then show ?thesis by (simp add: find_props_own)
  next
    case None
    then show ?thesis
      by (subst visible.simps, subst find_props.simps)
         (auto split: option.splits simp: less.IH)
  qed
qed

text \<open>What changing the own table of one entity does to what the entities see.\<close>

lemma visible_update_entity:
  assumes others: "\<And>x. x \<noteq> a \<Longrightarrow> ents w' x = ents w x"
    and self: "visible w' a name = visible w a name"
  shows "visible w' b name = visible w b name"
proof (induction b rule: less_induct)
  case (less b)
  show ?case
  proof (cases "b = a")
    case True
    then show ?thesis using self by simp
  next
    case False
    then have e: "ents w' b = ents w b" using others by simp
    show ?thesis
      by (subst visible.simps, subst (2) visible.simps)
         (simp add: e less.IH split: option.splits)
  qed
qed

lemma visible_priv_getProperties [simp]:
  "visible (priv_getProperties w a) b name = visible w b name"
proof (cases "e_props (ents w a)")
  case (Some ps)
  then show ?thesis
    by (simp add: priv_getProperties_def find_props_own)
next
  case None
  define w' where "w' = set_props w a \<lparr>p_proto = find_props w a, p_own = []\<rparr>"
  have w': "priv_getProperties w a = w'"
    using None by (auto simp: priv_getProperties_def w'_def split: option.splits)
  have others: "ents w' x = ents w x" if "x \<noteq> a" for x
    using that by (simp add: w'_def set_props_def)
  have below: "visible w' c name = visible w c name" if "c < a" for c
    by (rule visible_below [where k = a]) (use that others in auto)
  have self: "visible w' a name = visible w a name"
  proof (cases "find_props w a")
    case N: None
    then show ?thesis
      by (subst visible.simps, subst (2) visible_find_props)
         (simp add: w'_def set_props_def)
  next
    case (Some b)
    with None have "b \<noteq> a" by (auto dest: find_props_owner)
    with Some have "b < a" using find_props_le [OF Some] by simp
    then show ?thesis using Some below
      by (subst visible.simps, subst (2) visible_find_props)
         (simp add: w'_def set_props_def)
  qed
  show ?thesis unfolding w' by (rule visible_update_entity [OF others self])
qed

lemma visible_own:
  "e_props (ents w a) = Some ps \<Longrightarrow> map_of (p_own ps) name = Some p \<Longrightarrow> visible w a name = Some p"
  by (subst visible.simps) simp

lemma visible_props_set_self:
  assumes "e_props (ents w a) \<noteq> None"
  shows "visible (props_set w a name p) a m = (if m = name then Some p else visible w a m)"
proof -
  from assms obtain ps where ps: "e_props (ents w a) = Some ps" by auto
  define w' where "w' = props_set w a name p"
  have others: "ents w' x = ents w x" if "x \<noteq> a" for x
    using that ps by (simp add: w'_def props_set_def set_props_def)
  have below: "visible w' c m = visible w c m" if "c < a" for c
    by (rule visible_below [where k = a]) (use that others in auto)
  show ?thesis
    unfolding w'_def [symmetric]
    by (subst visible.simps, subst (2) visible.simps)
       (auto simp: w'_def props_set_def set_props_def ps update_conv' below [unfolded w'_def props_set_def set_props_def ps, simplified]
             split: option.splits)
qed


lemma same_view_refl [simp]: "same_view w w"
  by (simp add: same_view_def)

lemma same_view_trans: "same_view w w1 \<Longrightarrow> same_view w1 w2 \<Longrightarrow> same_view w w2"
  by (simp add: same_view_def)

lemma same_view_visible: "same_view w w' \<Longrightarrow> visible w' b name = visible w b name"
  by (simp add: same_view_def)

lemma ents_set_props [simp]:
  "ents (set_props w a ps) = (ents w)(a := (ents w a)\<lparr>e_props := Some ps\<rparr>)"
  "models (set_props w a ps) = models w"
  by (simp_all add: set_props_def)

lemma models_priv_getProperties [simp]: "models (priv_getProperties w a) = models w"
  by (simp add: priv_getProperties_def split: option.splits)

lemma models_props_set [simp]: "models (props_set w a name p) = models w"
  by (simp add: props_set_def split: option.splits)

lemma ents_priv_getProperties_other:
  "b \<noteq> a \<Longrightarrow> ents (priv_getProperties w a) b = ents w b"
  by (simp add: priv_getProperties_def split: option.splits)

lemma ents_props_set_other:
  "b \<noteq> a \<Longrightarrow> ents (props_set w a name p) b = ents w b"
  by (simp add: props_set_def split: option.splits)

lemma flags_priv_getProperties [simp]:
  "e_isNew (ents (priv_getProperties w a) b) = e_isNew (ents w b)"
  "e_proto (ents (priv_getProperties w a) b) = e_proto (ents w b)"
  by (simp_all add: priv_getProperties_def split: option.splits)

lemma flags_props_set [simp]:
  "e_isNew (ents (props_set w a name p) b) = e_isNew (ents w b)"
  "e_proto (ents (props_set w a name p) b) = e_proto (ents w b)"
  by (simp_all add: props_set_def split: option.splits)

lemma owner_priv_getProperties_self [simp]:
  "e_props (ents (priv_getProperties w a) a) \<noteq> None"
  by (auto simp: priv_getProperties_def split: option.splits)

lemma owner_priv_getProperties:
  "e_props (ents w b) \<noteq> None \<Longrightarrow> e_props (ents (priv_getProperties w a) b) \<noteq> None"
  by (auto simp: priv_getProperties_def split: option.splits)

lemma owner_props_set [simp]:
  "e_props (ents (props_set w a name p) b) = None \<longleftrightarrow> e_props (ents w b) = None"
  by (auto simp: props_set_def split: option.splits)

lemma priv_getProperties_owner:
  "e_props (ents w a) \<noteq> None \<Longrightarrow> priv_getProperties w a = w"
  by (auto simp: priv_getProperties_def find_props_own split: option.splits)

lemma same_view_priv_getProperties: "same_view w (priv_getProperties w a)"
  by (simp add: same_view_def owner_priv_getProperties del: not_None_eq)

lemma visible_props_set_same:
  assumes "e_props (ents w a) \<noteq> None" and "visible w a name = Some p"
  shows "visible (props_set w a name p) b m = visible w b m"
proof (rule visible_update_entity [where a = a])
  show "ents (props_set w a name p) x = ents w x" if "x \<noteq> a" for x
    using that by (rule ents_props_set_other)
  show "visible (props_set w a name p) a m = visible w a m"
    using assms by (simp add: visible_props_set_self)
qed

lemma same_view_props_set_same:
  "e_props (ents w a) \<noteq> None \<Longrightarrow> visible w a name = Some p \<Longrightarrow>
   same_view w (props_set w a name p)"
  by (simp add: same_view_def visible_props_set_same del: not_None_eq)

lemma props_hasOwn_visible:
  "props_hasOwn w a name \<Longrightarrow>
   \<exists>ps p. e_props (ents w a) = Some ps \<and> map_of (p_own ps) name = Some p
          \<and> visible w a name = Some p"
  by (auto simp: props_hasOwn_def visible_own split: option.splits)

lemma props_hasOwn_props_set:
  "e_props (ents w a) \<noteq> None \<Longrightarrow> props_hasOwn (props_set w a name p) a name"
  by (auto simp: props_hasOwn_def props_set_def update_conv' split: option.splits)

text \<open>What \<open>getProperty\<close> does, by cases on what the entity sees under the name.\<close>

lemma getProperty_miss:
  assumes "visible w a name = None"
  shows "getProperty w a name thr =
           (if thr then Inl (PropertyNotFound name, priv_getProperties w a)
            else Inr (priv_getProperties w a, None))"
  using assms by (simp add: getProperty_def)

lemma getProperty_hit:
  assumes "visible w a name = Some p"
  obtains w1 where "getProperty w a name thr = Inr (w1, Some p)" and "same_view w w1"
    and "props_hasOwn w1 a name" and "visible w1 a name = Some p"
    and "\<And>b. b \<noteq> a \<Longrightarrow> ents w1 b = ents w b"
    and "props_hasOwn w a name \<Longrightarrow> w1 = w"
proof -
  define w0 where "w0 = priv_getProperties w a"
  have v0: "visible w0 a name = Some p" using assms by (simp add: w0_def)
  have o0: "e_props (ents w0 a) \<noteq> None" by (simp add: w0_def)
  have sv0: "same_view w w0" unfolding w0_def by (rule same_view_priv_getProperties)
  show thesis
  proof (cases "props_hasOwn w0 a name")
    case True
    have "getProperty w a name thr = Inr (w0, Some p)"
      using v0 True by (simp add: getProperty_def w0_def)
    moreover have "w0 = w" if "props_hasOwn w a name"
      using that unfolding w0_def
      by (intro priv_getProperties_owner) (auto simp: props_hasOwn_def split: option.splits)
    moreover have "ents w0 b = ents w b" if "b \<noteq> a" for b
      unfolding w0_def using that by (rule ents_priv_getProperties_other)
    ultimately show ?thesis using that [of w0] sv0 True v0 by blast
  next
    case False
    define w1 where "w1 = props_set w0 a name p"
    have "getProperty w a name thr = Inr (w1, Some p)"
      using v0 False by (simp add: getProperty_def w0_def w1_def fork_property_def)
    moreover have "same_view w w1"
      using sv0 same_view_props_set_same [OF o0 v0] unfolding w1_def
      by (rule same_view_trans)
    moreover have "props_hasOwn w1 a name"
      unfolding w1_def using o0 by (rule props_hasOwn_props_set)
    moreover have "visible w1 a name = Some p"
      unfolding w1_def using o0 by (simp add: visible_props_set_self)
    moreover have "ents w1 b = ents w b" if "b \<noteq> a" for b
      unfolding w1_def w0_def using that
      by (simp add: ents_props_set_other ents_priv_getProperties_other)
    moreover have "w1 = w" if "props_hasOwn w a name"
    proof -
      from that have "e_props (ents w a) \<noteq> None"
        by (auto simp: props_hasOwn_def split: option.splits)
      then have "w0 = w" unfolding w0_def by (rule priv_getProperties_owner)
      with that False show ?thesis by simp
    qed
    ultimately show ?thesis using that [of w1] by blast
  qed
qed

lemma getProperty_error:
  "getProperty w a name thr = Inl (e, w') \<Longrightarrow>
   e = PropertyNotFound name \<and> thr \<and> visible w a name = None \<and> w' = priv_getProperties w a"
  by (auto simp: getProperty_def Let_def split: option.splits if_splits)

lemma getProperty_same_view:
  "getProperty w a name thr = Inr (w', r) \<Longrightarrow> same_view w w' \<and> r = visible w a name"
proof (cases "visible w a name")
  case None
  assume "getProperty w a name thr = Inr (w', r)"
  with None show ?thesis
    by (auto simp: getProperty_miss same_view_priv_getProperties split: if_splits)
next
  case (Some p)
  assume g: "getProperty w a name thr = Inr (w', r)"
  from getProperty_hit [OF Some, of thr] obtain w1 where
    "getProperty w a name thr = Inr (w1, Some p)" "same_view w w1" by blast
  with g Some show ?thesis by simp
qed

subsection \<open>Fields, redeclaration and assignment\<close>

lemma getField_miss:
  assumes "visible w a name = None"
  shows "getField w a name thr =
           (if thr then Inl (FieldNotFound name, priv_getProperties w a)
            else Inr (priv_getProperties w a, None))"
  using assms by (simp add: getField_def getProperty_miss)

lemma getField_field:
  assumes "visible w a name = Some (PField f)"
  obtains w1 where "getField w a name thr = Inr (w1, Some f)" and "same_view w w1"
    and "props_hasOwn w1 a name" and "visible w1 a name = Some (PField f)"
    and "\<And>b. b \<noteq> a \<Longrightarrow> ents w1 b = ents w b"
    and "props_hasOwn w a name \<Longrightarrow> w1 = w"
proof -
  from getProperty_hit [OF assms, of False] obtain w1 where
    h: "getProperty w a name False = Inr (w1, Some (PField f))" "same_view w w1"
       "props_hasOwn w1 a name" "visible w1 a name = Some (PField f)"
       "\<And>b. b \<noteq> a \<Longrightarrow> ents w1 b = ents w b"
       "props_hasOwn w a name \<Longrightarrow> w1 = w"
    by blast
  from h(1) have "getField w a name thr = Inr (w1, Some f)"
    by (simp add: getField_def)
  with h that [of w1] show thesis by blast
qed

lemma getField_method:
  assumes "visible w a name = Some (PMethod m)"
  obtains w1 where "getField w a name thr = Inl (NotAField name, w1)" and "same_view w w1"
proof -
  from getProperty_hit [OF assms, of False] obtain w1 where
    h: "getProperty w a name False = Inr (w1, Some (PMethod m))" "same_view w w1"
    by blast
  from h(1) have "getField w a name thr = Inl (NotAField name, w1)"
    by (simp add: getField_def)
  with h that [of w1] show thesis by blast
qed

lemma getField_error:
  "getField w a name thr = Inl (e, w') \<Longrightarrow> e = FieldNotFound name \<or> e = NotAField name"
  by (auto simp: getField_def split: sum.splits option.splits property.splits if_splits
           dest: getProperty_error)

lemma hasField_error:
  "hasField w a name = Inl (e, w') \<Longrightarrow> e = FieldNotFound name \<or> e = NotAField name"
  by (auto simp: hasField_def split: sum.splits dest: getField_error)

lemma hasProperty_hit:
  assumes "visible w a name = Some p"
  obtains w1 where "hasProperty w a name = Inr (w1, True)" and "same_view w w1"
    and "props_hasOwn w1 a name" and "visible w1 a name = Some p"
    and "\<And>b. b \<noteq> a \<Longrightarrow> ents w1 b = ents w b"
    and "props_hasOwn w a name \<Longrightarrow> w1 = w"
proof -
  from getProperty_hit [OF assms, of False] obtain w1 where
    h: "getProperty w a name False = Inr (w1, Some p)" "same_view w w1"
       "props_hasOwn w1 a name" "visible w1 a name = Some p"
       "\<And>b. b \<noteq> a \<Longrightarrow> ents w1 b = ents w b"
       "props_hasOwn w a name \<Longrightarrow> w1 = w"
    by blast
  from h(1) have "hasProperty w a name = Inr (w1, True)"
    by (simp add: hasProperty_def)
  with h that [of w1] show thesis by blast
qed

text \<open>
  C7. For a field that is declared already, \<^verbatim>\<open>$setField\<close> with a type other than the
  type of the field throws the type-redeclaration error. The failed call leaves the
  descriptor as it was: the entity sees the same field under the name, every entity sees
  what it saw before, and no other entity is written to (the only write is the fork that
  \<^verbatim>\<open>$hasProperty\<close> materialises on \<open>this\<close> when the field was inherited).
\<close>

theorem setField_type_redeclaration:
  assumes "visible w this name = Some (PField f)"
    and "js_get options ''type'' \<noteq> VUndefined"
    and "js_get options ''type'' \<noteq> VStr (getType f)"
  shows "\<exists>w'. setField constructField getOptions w this name options
                 = Inl (CannotChangeFieldType name, w')
              \<and> visible w' this name = Some (PField f)
              \<and> same_view w w'
              \<and> (\<forall>b. b \<noteq> this \<longrightarrow> ents w' b = ents w b)
              \<and> (props_hasOwn w this name \<longrightarrow> w' = w)"
proof -
  from hasProperty_hit [OF assms(1)] obtain w1 where
    h: "hasProperty w this name = Inr (w1, True)" "same_view w w1"
       "props_hasOwn w1 this name" "visible w1 this name = Some (PField f)"
       "\<And>b. b \<noteq> this \<Longrightarrow> ents w1 b = ents w b"
       "props_hasOwn w this name \<Longrightarrow> w1 = w"
    by blast
  from getField_field [OF h(4), where thr = True] h(3) have
    g: "getField w1 this name True = Inr (w1, Some f)"
    by metis
  have "setField constructField getOptions w this name options
          = Inl (CannotChangeFieldType name, w1)"
    using h(1) g assms(2,3) by (simp add: setField_def)
  with h show ?thesis by blast
qed

lemma forProperties_error:
  assumes "\<And>n. Q (PropertyNotFound n)"
    and "\<And>w0 n p s0 e w1. body w0 n p s0 = Inl (e, w1) \<Longrightarrow> Q e"
  shows "forProperties flt body this ns w s = Inl (e, w') \<Longrightarrow> Q e"
proof (induction ns arbitrary: w s)
  case Nil
  then show ?case by simp
next
  case (Cons n ns)
  show ?case
  proof (cases "getProperty w this n True")
    case (Inl x)
    with Cons.prems assms(1) show ?thesis
      by (cases x) (auto dest: getProperty_error)
  next
    case (Inr y)
    obtain w1 r where y: "y = (w1, r)" by (cases y)
    show ?thesis
    proof (cases r)
      case None
      with Cons.prems Inr y show ?thesis by (auto dest: Cons.IH)
    next
      case (Some p)
      show ?thesis
      proof (cases "case flt of Some f \<Rightarrow> \<not> f p | None \<Rightarrow> False")
        case True
        with Cons.prems Inr y Some show ?thesis by (auto dest: Cons.IH)
      next
        case False
        show ?thesis
        proof (cases "body w1 n p s")
          case bl: (Inl x)
          with Cons.prems Inr y Some False assms(2) [of w1 n p s "fst x" "snd x"]
          show ?thesis by auto
        next
          case br: (Inr z)
          with Cons.prems Inr y Some False show ?thesis
            by (cases z) (auto dest: Cons.IH)
        qed
      qed
    qed
  qed
qed

lemma assignObject_loop_error:
  "assignObject_loop create this entries w = Inl (e, w') \<Longrightarrow>
   (\<exists>n. e = FieldNotFound n) \<or> (\<exists>n. e = NotAField n) \<or> e = JsTypeError"
proof (induction entries arbitrary: w)
  case Nil
  then show ?case by simp
next
  case (Cons entry entries)
  obtain n v where entry: "entry = (n, v)" by (cases entry)
  from Cons.prems show ?case unfolding entry
    by (auto split: sum.splits option.splits if_splits prod.splits
             dest: hasField_error getField_error Cons.IH)
qed

lemma priv_assignObject_error:
  "priv_assignObject create w this object = Inl (e, w') \<Longrightarrow>
   (\<exists>n. e = FieldNotFound n) \<or> (\<exists>n. e = NotAField n) \<or> e = JsTypeError"
  by (cases object)
     (auto simp: priv_assignObject_def dest: assignObject_loop_error split: sum.splits)

lemma priv_assignOther_error:
  assumes "priv_assignOther w this other = Inl (e, w')"
  shows "(\<exists>n. e = PropertyNotFound n) \<or> (\<exists>n. e = FieldNotFound n)
         \<or> (\<exists>n. e = NotAField n) \<or> e = JsTypeError"
proof (cases other)
  case (VModel a)
  show ?thesis
  proof (rule forProperties_error
      [where Q = "\<lambda>e. (\<exists>n. e = PropertyNotFound n) \<or> (\<exists>n. e = FieldNotFound n)
         \<or> (\<exists>n. e = NotAField n) \<or> e = JsTypeError"])
    show "forProperties (Some (fields_filter (Some (active_filter None))))
       (\<lambda>w name property s.
          case property of
            PField f \<Rightarrow>
              (case hasField w this name of
                 Inl e \<Rightarrow> Inl e
               | Inr (w1, has) \<Rightarrow>
                   if has then
                     (case getField w1 this name True of
                        Inl e \<Rightarrow> Inl e
                      | Inr (w2, None) \<Rightarrow> Inl (JsTypeError, w2)
                      | Inr (w2, Some field) \<Rightarrow>
                          Inr (props_set w2 this name
                                 (PField (setValue field (getValue f))), ()))
                   else Inr (w1, ()))
          | PMethod m \<Rightarrow> Inr (w, s))
       a (getPropertyNames w a) w () = Inl (e, w')"
      using assms VModel
      by (simp add: priv_assignOther_def getActiveFields_def getFields_def getProperties_def)
  next
    fix w0 n p s0 e w1
    assume "(case p of
            PField f \<Rightarrow>
              (case hasField w0 this n of
                 Inl e \<Rightarrow> Inl e
               | Inr (w1, has) \<Rightarrow>
                   if has then
                     (case getField w1 this n True of
                        Inl e \<Rightarrow> Inl e
                      | Inr (w2, None) \<Rightarrow> Inl (JsTypeError, w2)
                      | Inr (w2, Some field) \<Rightarrow>
                          Inr (props_set w2 this n
                                 (PField (setValue field (getValue f))), ()))
                   else Inr (w1, ()))
          | PMethod m \<Rightarrow> Inr (w0, s0)) = Inl (e, w1)"
    then show "(\<exists>n. e = PropertyNotFound n) \<or> (\<exists>n. e = FieldNotFound n)
         \<or> (\<exists>n. e = NotAField n) \<or> e = JsTypeError"
      by (cases p)
         (auto split: sum.splits prod.splits if_splits option.splits
               dest: hasField_error getField_error)
  qed simp
qed (use assms in \<open>auto simp: priv_assignOther_def\<close>)

text \<open>
  C9. \<^verbatim>\<open>$assign\<close> throws its type-mismatch error exactly for an input that is not
  \<^verbatim>\<open>undefined\<close>, not a model and not of typeof \<^verbatim>\<open>'object'\<close>; then nothing has been
  written. \<^verbatim>\<open>$assign(undefined)\<close> returns and leaves the heap as it is;
  \<^verbatim>\<open>$assign(null)\<close> takes the object branch, where \<^verbatim>\<open>Object.entries(null)\<close> throws
  a TypeError of the language, not the type-mismatch error.
\<close>

theorem assign_type_mismatch_exactly:
  "((\<exists>s w'. assign create w this object = Inl (TypeMismatch s, w'))
      \<longleftrightarrow> object \<noteq> VUndefined \<and> \<not> isModel object \<and> typeof object \<noteq> ''object'')
   \<and> (assign create w this object = Inl (TypeMismatch (typeof object), w)
      \<longleftrightarrow> object \<noteq> VUndefined \<and> \<not> isModel object \<and> typeof object \<noteq> ''object'')
   \<and> assign create w this VUndefined = Inr (w, ())
   \<and> assign create w this VNull = Inl (JsTypeError, w)"
proof -
  have other: "assign create w this object \<noteq> Inl (TypeMismatch s, w')"
    if "object = VUndefined \<or> isModel object \<or> typeof object = ''object''" for s w'
  proof
    assume a: "assign create w this object = Inl (TypeMismatch s, w')"
    show False
    proof (cases "object = VUndefined")
      case True
      with a show False by (simp add: assign_def)
    next
      case False
      show False
      proof (cases "isModel object")
        case True
        with a False have "priv_assignOther w this object = Inl (TypeMismatch s, w')"
          by (simp add: assign_def)
        from priv_assignOther_error [OF this] show False by simp
      next
        case nm: False
        with a False that have "priv_assignObject create w this object = Inl (TypeMismatch s, w')"
          by (simp add: assign_def)
        from priv_assignObject_error [OF this] show False by simp
      qed
    qed
  qed
  have mism: "assign create w this object = Inl (TypeMismatch (typeof object), w)"
    if "object \<noteq> VUndefined" "\<not> isModel object" "typeof object \<noteq> ''object''"
    using that by (simp add: assign_def)
  have 1: "(\<exists>s w'. assign create w this object = Inl (TypeMismatch s, w'))
      \<longleftrightarrow> object \<noteq> VUndefined \<and> \<not> isModel object \<and> typeof object \<noteq> ''object''"
    using other mism by blast
  have 2: "assign create w this object = Inl (TypeMismatch (typeof object), w)
      \<longleftrightarrow> object \<noteq> VUndefined \<and> \<not> isModel object \<and> typeof object \<noteq> ''object''"
    using other mism by blast
  have 3: "assign create w this VUndefined = Inr (w, ())"
    by (simp add: assign_def)
  have 4: "assign create w this VNull = Inl (JsTypeError, w)"
    by (simp add: assign_def isModel_def priv_assignObject_def)
  show ?thesis using 1 2 3 4 by blast
qed

subsection \<open>Loops over the properties; construction\<close>

lemma prop_names_visible: "name \<in> set (prop_names w a) \<longleftrightarrow> visible w a name \<noteq> None"
proof (induction a rule: less_induct)
  case (less a)
  show ?case
  proof (cases "e_props (ents w a)")
    case None
    then show ?thesis
      by (subst prop_names.simps, subst visible.simps)
         (simp add: less.IH split: option.splits)
  next
    case (Some ps)
    show ?thesis
    proof (cases "map_of (p_own ps) name")
      case N: None
      then have "name \<notin> set (map fst (p_own ps))" by (simp add: map_of_eq_None_iff)
      with N Some show ?thesis
        by (subst prop_names.simps, subst visible.simps)
           (simp add: less.IH split: option.splits)
    next
      case S: (Some p)
      then have "name \<in> set (map fst (p_own ps))"
        using map_of_eq_None_iff [of "p_own ps" name] by simp
      with S Some show ?thesis
        by (subst prop_names.simps, subst visible.simps) simp
    qed
  qed
qed

lemma getPropertyNames_visible:
  "name \<in> set (getPropertyNames w a) \<longleftrightarrow> visible w a name \<noteq> None"
  by (simp add: getPropertyNames_def prop_names_visible)

lemma distinct_getPropertyNames [simp]: "distinct (getPropertyNames w a)"
  by (simp add: getPropertyNames_def)

lemma props_set_triv:
  assumes "props_hasOwn w a name" and "visible w a name = Some p"
  shows "props_set w a name p = w"
proof -
  from props_hasOwn_visible [OF assms(1)] assms(2) obtain ps where
    ps: "e_props (ents w a) = Some ps" "map_of (p_own ps) name = Some p"
    by auto
  have "ps\<lparr>p_own := AList.update name p (p_own ps)\<rparr> = ps"
    using ps(2) by (simp add: update_triv)
  moreover have "(ents w)(a := (ents w a)\<lparr>e_props := Some ps\<rparr>) = ents w"
    using ps(1) by (simp add: fun_eq_iff)
  ultimately show ?thesis
    by (simp add: props_set_def ps(1) set_props_def)
qed

text \<open>
  A loop over the properties whose body stores a property under the current name
  (possibly the one that is there) and updates the state of the loop.
\<close>

lemma forProperties_local:
  fixes G :: "string \<Rightarrow> property \<Rightarrow> property" and H :: "string \<Rightarrow> property \<Rightarrow> 's \<Rightarrow> 's"
  assumes body: "\<And>w n p s. props_hasOwn w this n \<Longrightarrow> visible w this n = Some p \<Longrightarrow> pass p \<Longrightarrow>
            body w n p s = Inr (props_set w this n (G n p), H n p s)"
    and pass: "\<And>p. pass p \<longleftrightarrow> (case flt of Some f \<Rightarrow> f p | None \<Rightarrow> True)"
  shows "distinct ns \<Longrightarrow> (\<And>n. n \<in> set ns \<Longrightarrow> visible w this n \<noteq> None) \<Longrightarrow>
     \<exists>w'. forProperties flt body this ns w s =
            Inr (w', fold (\<lambda>n s. case visible w this n of
                                   Some p \<Rightarrow> if pass p then H n p s else s
                                 | None \<Rightarrow> s) ns s)
        \<and> (\<forall>m. visible w' this m =
              (if m \<in> set ns
               then (case visible w this m of
                       Some p \<Rightarrow> Some (if pass p then G m p else p)
                     | None \<Rightarrow> None)
               else visible w this m))
        \<and> (\<forall>b. b \<noteq> this \<longrightarrow> ents w' b = ents w b)
        \<and> (\<forall>b. e_isNew (ents w' b) = e_isNew (ents w b))
        \<and> models w' = models w"
proof (induction ns arbitrary: w s)
  case Nil
  show ?case by simp
next
  case (Cons n ns)
  from Cons.prems(2) [of n] obtain p where p: "visible w this n = Some p" by auto
  from getProperty_hit [OF p, of True] obtain w1 where
    h: "getProperty w this n True = Inr (w1, Some p)" "same_view w w1"
       "props_hasOwn w1 this n" "visible w1 this n = Some p"
       "\<And>b. b \<noteq> this \<Longrightarrow> ents w1 b = ents w b"
    by blast
  have sv1: "visible w1 b m = visible w b m" for b m
    using h(2) by (simp add: same_view_def)
  have fl1: "e_isNew (ents w1 b) = e_isNew (ents w b)" "models w1 = models w" for b
    using h(2) by (simp_all add: same_view_def)
  have n: "n \<notin> set ns" and d: "distinct ns" using Cons.prems(1) by simp_all
  define w2 where "w2 = (if pass p then props_set w1 this n (G n p) else w1)"
  define s2 where "s2 = (if pass p then H n p s else s)"
  have o1: "e_props (ents w1 this) \<noteq> None"
    using h(3) by (auto simp: props_hasOwn_def split: option.splits)
  have v2: "visible w2 this m = (if m = n then Some (if pass p then G n p else p)
                                 else visible w this m)" for m
    using o1 h(4) by (simp add: w2_def visible_props_set_self sv1)
  have step: "forProperties flt body this (n # ns) w s = forProperties flt body this ns w2 s2"
  proof (cases "pass p")
    case True
    with body [OF h(3) h(4) True, of s] h(1) pass [of p] show ?thesis
      by (simp add: w2_def s2_def split: option.splits)
  next
    case False
    with h(1) pass [of p] show ?thesis
      by (simp add: w2_def s2_def split: option.splits)
  qed
  have pre: "visible w2 this m \<noteq> None" if "m \<in> set ns" for m
    using that n Cons.prems(2) [of m] by (auto simp: v2)
  from Cons.IH [OF d pre, of s2] obtain w' where
    ih: "forProperties flt body this ns w2 s2 =
            Inr (w', fold (\<lambda>n s. case visible w2 this n of
                                   Some p \<Rightarrow> if pass p then H n p s else s
                                 | None \<Rightarrow> s) ns s2)"
        "\<forall>m. visible w' this m =
              (if m \<in> set ns
               then (case visible w2 this m of
                       Some p \<Rightarrow> Some (if pass p then G m p else p)
                     | None \<Rightarrow> None)
               else visible w2 this m)"
        "\<forall>b. b \<noteq> this \<longrightarrow> ents w' b = ents w2 b"
        "\<forall>b. e_isNew (ents w' b) = e_isNew (ents w2 b)"
        "models w' = models w2"
    by blast
  have foldeq: "fold (\<lambda>n s. case visible w2 this n of
                                   Some p \<Rightarrow> if pass p then H n p s else s
                                 | None \<Rightarrow> s) ns s2
        = fold (\<lambda>n s. case visible w this n of
                                   Some p \<Rightarrow> if pass p then H n p s else s
                                 | None \<Rightarrow> s) ns s2"
    using n by (intro fold_cong) (auto simp: v2)
  have e2: "ents w2 b = ents w b" if "b \<noteq> this" for b
    using that h(5) by (simp add: w2_def ents_props_set_other)
  have f2: "e_isNew (ents w2 b) = e_isNew (ents w b)" "models w2 = models w" for b
    by (simp_all add: w2_def fl1)
  have "forProperties flt body this (n # ns) w s =
            Inr (w', fold (\<lambda>n s. case visible w this n of
                                   Some p \<Rightarrow> if pass p then H n p s else s
                                 | None \<Rightarrow> s) (n # ns) s)"
    using step ih(1) foldeq by (simp add: p s2_def)
  moreover have "\<forall>m. visible w' this m =
              (if m \<in> set (n # ns)
               then (case visible w this m of
                       Some p \<Rightarrow> Some (if pass p then G m p else p)
                     | None \<Rightarrow> None)
               else visible w this m)"
    using ih(2) n p by (auto simp: v2)
  moreover have "\<forall>b. b \<noteq> this \<longrightarrow> ents w' b = ents w b"
    using ih(3) e2 by simp
  moreover have "\<forall>b. e_isNew (ents w' b) = e_isNew (ents w b)"
    using ih(4) f2 by simp
  moreover have "models w' = models w"
    using ih(5) f2 by simp
  ultimately show ?case by blast
qed

lemma getProperties_local:
  fixes G :: "string \<Rightarrow> property \<Rightarrow> property" and H :: "string \<Rightarrow> property \<Rightarrow> 's \<Rightarrow> 's"
  assumes body: "\<And>w n p s. props_hasOwn w this n \<Longrightarrow> visible w this n = Some p \<Longrightarrow> pass p \<Longrightarrow>
            body w n p s = Inr (props_set w this n (G n p), H n p s)"
    and pass: "\<And>p. pass p \<longleftrightarrow> (case flt of Some f \<Rightarrow> f p | None \<Rightarrow> True)"
  obtains w' where
    "getProperties flt body w this s =
            Inr (w', fold (\<lambda>n s. case visible w this n of
                                   Some p \<Rightarrow> if pass p then H n p s else s
                                 | None \<Rightarrow> s) (getPropertyNames w this) s)"
    and "\<And>m. visible w' this m =
              (case visible w this m of
                 Some p \<Rightarrow> Some (if pass p then G m p else p)
               | None \<Rightarrow> None)"
    and "\<And>b. b \<noteq> this \<Longrightarrow> ents w' b = ents w b"
    and "\<And>b. e_isNew (ents w' b) = e_isNew (ents w b)"
    and "models w' = models w"
proof -
  have "\<exists>w'. forProperties flt body this (getPropertyNames w this) w s =
            Inr (w', fold (\<lambda>n s. case visible w this n of
                                   Some p \<Rightarrow> if pass p then H n p s else s
                                 | None \<Rightarrow> s) (getPropertyNames w this) s)
        \<and> (\<forall>m. visible w' this m =
              (if m \<in> set (getPropertyNames w this)
               then (case visible w this m of
                       Some p \<Rightarrow> Some (if pass p then G m p else p)
                     | None \<Rightarrow> None)
               else visible w this m))
        \<and> (\<forall>b. b \<noteq> this \<longrightarrow> ents w' b = ents w b)
        \<and> (\<forall>b. e_isNew (ents w' b) = e_isNew (ents w b))
        \<and> models w' = models w"
  proof (rule forProperties_local [where G = G and H = H and pass = pass])
    show "body w n p s = Inr (props_set w this n (G n p), H n p s)"
      if "props_hasOwn w this n" "visible w this n = Some p" "pass p" for w n p s
      using that by (rule body)
    show "pass p \<longleftrightarrow> (case flt of Some f \<Rightarrow> f p | None \<Rightarrow> True)" for p
      by (rule pass)
    show "distinct (getPropertyNames w this)" by simp
    show "visible w this n \<noteq> None" if "n \<in> set (getPropertyNames w this)" for n
      using that by (simp add: getPropertyNames_visible)
  qed
  then obtain w' where
    r: "forProperties flt body this (getPropertyNames w this) w s =
            Inr (w', fold (\<lambda>n s. case visible w this n of
                                   Some p \<Rightarrow> if pass p then H n p s else s
                                 | None \<Rightarrow> s) (getPropertyNames w this) s)
        \<and> (\<forall>m. visible w' this m =
              (if m \<in> set (getPropertyNames w this)
               then (case visible w this m of
                       Some p \<Rightarrow> Some (if pass p then G m p else p)
                     | None \<Rightarrow> None)
               else visible w this m))
        \<and> (\<forall>b. b \<noteq> this \<longrightarrow> ents w' b = ents w b)
        \<and> (\<forall>b. e_isNew (ents w' b) = e_isNew (ents w b))
        \<and> models w' = models w" ..
  note r1 = r [THEN conjunct1]
  note r2 = r [THEN conjunct2, THEN conjunct1, rule_format]
  note r3 = r [THEN conjunct2, THEN conjunct2, THEN conjunct1, rule_format]
  note r4 = r [THEN conjunct2, THEN conjunct2, THEN conjunct2, THEN conjunct1, rule_format]
  note r5 = r [THEN conjunct2, THEN conjunct2, THEN conjunct2, THEN conjunct2]
  have v: "visible w' this m =
              (case visible w this m of
                 Some p \<Rightarrow> Some (if pass p then G m p else p)
               | None \<Rightarrow> None)" for m
  proof (cases "visible w this m")
    case None
    then have "m \<notin> set (getPropertyNames w this)" by (simp add: getPropertyNames_visible)
    with r2 [of m] None show ?thesis by simp
  next
    case (Some p)
    then have "m \<in> set (getPropertyNames w this)" by (simp add: getPropertyNames_visible)
    with r2 [of m] Some show ?thesis by simp
  qed
  show thesis
  proof (rule that [of w'])
    show "getProperties flt body w this s =
            Inr (w', fold (\<lambda>n s. case visible w this n of
                                   Some p \<Rightarrow> if pass p then H n p s else s
                                 | None \<Rightarrow> s) (getPropertyNames w this) s)"
      unfolding getProperties_def by (rule r1)
  qed (simp_all add: v r3 r4 r5)
qed

text \<open>
  C5. With \<^verbatim>\<open>isDeserializing\<close> the constructor fills no field: it returns at once.
  Otherwise it returns, and every declared field is active afterwards: it holds the
  value created from the input's own entry of its name, or else its default value.
  Methods and other entities are left as they were.
\<close>

theorem Model_constructor_fills_every_field:
  "Model_constructor create w this object True = Inr (w, ())
   \<and> (\<exists>w'. Model_constructor create w this object False = Inr (w', ())
        \<and> (\<forall>name f. visible w this name = Some (PField f) \<longrightarrow>
              visible w' this name =
                Some (PField (if hasOwnProperty object name
                              then createValue create f (js_get object name)
                              else setValue f (getDefaultValue f)))
              \<and> (\<exists>f'. visible w' this name = Some (PField f') \<and> isActive f'))
        \<and> (\<forall>name m. visible w this name = Some (PMethod m) \<longrightarrow>
              visible w' this name = Some (PMethod m))
        \<and> (\<forall>name. visible w this name = None \<longrightarrow> visible w' this name = None)
        \<and> (\<forall>b. b \<noteq> this \<longrightarrow> ents w' b = ents w b))"
proof -
  define G where "G = (\<lambda>n p. case p of
      PField f \<Rightarrow> PField (if hasOwnProperty object n
                           then createValue create f (js_get object n)
                           else setValue f (getDefaultValue f))
    | PMethod m \<Rightarrow> PMethod m)"
  define body where "body = (\<lambda>w name property (s::unit).
          case property of
            PField field \<Rightarrow>
              (if hasOwnProperty object name
               then Inr (props_set w this name
                           (PField (createValue create field (js_get object name))), ())
               else Inr (props_set w this name
                           (PField (setValue field (getDefaultValue field))), ()))
          | PMethod m \<Rightarrow> (Inr (w, s) :: unit outcome))"
  have b: "body w n p s = Inr (props_set w this n (G n p), (\<lambda>n p s. s) n p s)"
    if "props_hasOwn w this n" "visible w this n = Some p" "fields_filter None p" for w n p s
    using that by (cases p) (simp_all add: body_def G_def fields_filter_def)
  have p: "fields_filter None p \<longleftrightarrow>
      (case Some (fields_filter None) of Some f \<Rightarrow> f p | None \<Rightarrow> True)" for p
    by simp
  have 1: "Model_constructor create w this object True = Inr (w, ())"
    by (simp add: Model_constructor_def)
  have "\<exists>w'. Model_constructor create w this object False = Inr (w', ())
        \<and> (\<forall>name f. visible w this name = Some (PField f) \<longrightarrow>
              visible w' this name =
                Some (PField (if hasOwnProperty object name
                              then createValue create f (js_get object name)
                              else setValue f (getDefaultValue f)))
              \<and> (\<exists>f'. visible w' this name = Some (PField f') \<and> isActive f'))
        \<and> (\<forall>name m. visible w this name = Some (PMethod m) \<longrightarrow>
              visible w' this name = Some (PMethod m))
        \<and> (\<forall>name. visible w this name = None \<longrightarrow> visible w' this name = None)
        \<and> (\<forall>b. b \<noteq> this \<longrightarrow> ents w' b = ents w b)"
  proof (rule getProperties_local [where body = body and G = G and H = "\<lambda>n p s. s"
      and pass = "fields_filter None" and flt = "Some (fields_filter None)" and this = this
      and w = w and s = "()"], goal_cases)
    case (1 w n p s)
    then show ?case by (simp add: b)
  next
    case (2 p)
    show ?case by simp
  next
    case (3 w')
    note 1 = 3
    have c: "Model_constructor create w this object False = Inr (w', ())"
      using 1(1) unfolding Model_constructor_def getFields_def body_def by simp
    have 2: "visible w' this name =
                Some (PField (if hasOwnProperty object name
                              then createValue create f (js_get object name)
                              else setValue f (getDefaultValue f)))
              \<and> (\<exists>f'. visible w' this name = Some (PField f') \<and> isActive f')"
      if "visible w this name = Some (PField f)" for name f
      using 1(2) [of name] that
      by (simp add: G_def fields_filter_def isActive_def createValue_def setValue_def)
    have 3: "visible w' this name = Some (PMethod m)"
      if "visible w this name = Some (PMethod m)" for name m
      using 1(2) [of name] that by (simp add: G_def fields_filter_def)
    have 4: "visible w' this name = None" if "visible w this name = None" for name
      using 1(2) [of name] that by simp
    show ?case
      by (rule exI [of _ w'], intro conjI allI impI)
         (use c 2 3 4 1(3) in \<open>simp_all add: isActive_def createValue_def setValue_def\<close>)
  qed
  with 1 show ?thesis by (rule conjI)
qed

subsection \<open>Assignment of a plain object\<close>

lemma hasField_miss:
  "visible w a name = None \<Longrightarrow> hasField w a name = Inr (priv_getProperties w a, False)"
  by (simp add: hasField_def getField_miss)

lemma assignObject_loop_fields:
  "distinct (map fst entries) \<Longrightarrow>
   (\<And>n v m. (n, v) \<in> set entries \<Longrightarrow> visible w this n \<noteq> Some (PMethod m)) \<Longrightarrow>
   \<exists>w'. assignObject_loop create this entries w = Inr (w', ())
      \<and> (\<forall>name. visible w' this name =
            (case visible w this name of
               Some (PField f) \<Rightarrow>
                 (case map_of entries name of
                    Some v \<Rightarrow> Some (PField (createValue create f v))
                  | None \<Rightarrow> Some (PField f))
             | other \<Rightarrow> other))
      \<and> (\<forall>b. b \<noteq> this \<longrightarrow> ents w' b = ents w b)"
proof (induction entries arbitrary: w)
  case Nil
  show ?case
    by (rule exI [of _ w]) (auto split: option.splits property.splits)
next
  case (Cons entry entries)
  obtain n v where entry: "entry = (n, v)" by (cases entry)
  have d: "distinct (map fst entries)" and n: "map_of entries n = None"
    using Cons.prems(1) by (auto simp: entry map_of_eq_None_iff)
  have nm: "visible w this n \<noteq> Some (PMethod m)" for m
    using Cons.prems(2) [of n v m] by (simp add: entry)
  have "\<exists>w2. assignObject_loop create this (entry # entries) w
                = assignObject_loop create this entries w2
          \<and> (\<forall>name. visible w2 this name =
                (if name = n then (case visible w this n of
                                     Some (PField f) \<Rightarrow> Some (PField (createValue create f v))
                                   | other \<Rightarrow> other)
                 else visible w this name))
          \<and> (\<forall>b. b \<noteq> this \<longrightarrow> ents w2 b = ents w b)"
  proof (cases "visible w this n")
    case None
    show ?thesis
      by (rule exI [of _ "priv_getProperties w this"])
         (simp add: entry hasField_miss None ents_priv_getProperties_other)
  next
    case (Some p)
    with nm obtain f where p: "visible w this n = Some (PField f)"
      by (cases p) auto
    from getField_field [OF p, where thr = False] obtain w1 where
      h: "getField w this n False = Inr (w1, Some f)" "same_view w w1"
         "props_hasOwn w1 this n" "visible w1 this n = Some (PField f)"
         "\<And>b. b \<noteq> this \<Longrightarrow> ents w1 b = ents w b"
      by blast
    from getField_field [OF h(4), where thr = True] h(3) have
      g: "getField w1 this n True = Inr (w1, Some f)"
      by metis
    have o1: "e_props (ents w1 this) \<noteq> None"
      using h(3) by (auto simp: props_hasOwn_def split: option.splits)
    define w2 where "w2 = props_set w1 this n (PField (createValue create f v))"
    have "assignObject_loop create this (entry # entries) w
            = assignObject_loop create this entries w2"
      using h(1) g by (simp add: entry hasField_def w2_def)
    moreover have "visible w2 this name =
                (if name = n then (case visible w this n of
                                     Some (PField f) \<Rightarrow> Some (PField (createValue create f v))
                                   | other \<Rightarrow> other)
                 else visible w this name)" for name
      using o1 h(2) by (simp add: w2_def visible_props_set_self p same_view_visible)
    moreover have "ents w2 b = ents w b" if "b \<noteq> this" for b
      using that h(5) by (simp add: w2_def ents_props_set_other)
    ultimately show ?thesis by blast
  qed
  then obtain w2 where
    s: "assignObject_loop create this (entry # entries) w
                = assignObject_loop create this entries w2"
       "\<And>name. visible w2 this name =
                (if name = n then (case visible w this n of
                                     Some (PField f) \<Rightarrow> Some (PField (createValue create f v))
                                   | other \<Rightarrow> other)
                 else visible w this name)"
       "\<And>b. b \<noteq> this \<Longrightarrow> ents w2 b = ents w b"
    by blast
  have pre: "visible w2 this k \<noteq> Some (PMethod m)" if "(k, x) \<in> set entries" for k x m
  proof -
    from that n have "k \<noteq> n" by (force simp: map_of_eq_None_iff)
    with s(2) [of k] Cons.prems(2) [of k x m] that show ?thesis by simp
  qed
  have "\<exists>w'. assignObject_loop create this entries w2 = Inr (w', ())
      \<and> (\<forall>name. visible w' this name =
            (case visible w2 this name of
               Some (PField f) \<Rightarrow>
                 (case map_of entries name of
                    Some v \<Rightarrow> Some (PField (createValue create f v))
                  | None \<Rightarrow> Some (PField f))
             | other \<Rightarrow> other))
      \<and> (\<forall>b. b \<noteq> this \<longrightarrow> ents w' b = ents w2 b)"
  proof (rule Cons.IH [OF d])
    show "visible w2 this k \<noteq> Some (PMethod m)" if "(k, x) \<in> set entries" for k x m
      using that by (rule pre)
  qed
  then obtain w' where
    ih0: "assignObject_loop create this entries w2 = Inr (w', ())
      \<and> (\<forall>name. visible w' this name =
            (case visible w2 this name of
               Some (PField f) \<Rightarrow>
                 (case map_of entries name of
                    Some v \<Rightarrow> Some (PField (createValue create f v))
                  | None \<Rightarrow> Some (PField f))
             | other \<Rightarrow> other))
      \<and> (\<forall>b. b \<noteq> this \<longrightarrow> ents w' b = ents w2 b)" ..
  note ih = ih0 [THEN conjunct1] ih0 [THEN conjunct2, THEN conjunct1, rule_format]
    ih0 [THEN conjunct2, THEN conjunct2, rule_format]
  have "visible w' this name =
            (case visible w this name of
               Some (PField f) \<Rightarrow>
                 (case map_of (entry # entries) name of
                    Some v \<Rightarrow> Some (PField (createValue create f v))
                  | None \<Rightarrow> Some (PField f))
             | other \<Rightarrow> other)" for name
    using ih(2) [of name] s(2) [of name] n
    by (auto simp: entry createValue_def split: option.splits property.splits)
  moreover have "ents w' b = ents w b" if "b \<noteq> this" for b
    using that ih(3) s(3) by simp
  ultimately show ?case using s(1) ih(1) by auto
qed


lemma assignObject_loop_append:
  "assignObject_loop create this (xs @ ys) w =
     (case assignObject_loop create this xs w of
        Inl e \<Rightarrow> Inl e
      | Inr (w1, u) \<Rightarrow> assignObject_loop create this ys w1)"
proof (induction xs arbitrary: w)
  case Nil
  show ?case by simp
next
  case (Cons x xs)
  obtain n v where x: "x = (n, v)" by (cases x)
  show ?case
    by (simp add: x Cons.IH split: sum.splits prod.splits option.splits)
qed

lemma assignObject_loop_method:
  assumes "visible w this n = Some (PMethod m)"
  shows "\<exists>w'. assignObject_loop create this ((n, v) # entries) w = Inl (NotAField n, w')
              \<and> same_view w w'"
proof -
  from getField_method [OF assms, where thr = False] obtain w1 where
    "getField w this n False = Inl (NotAField n, w1)" "same_view w w1"
    by blast
  then show ?thesis by (auto simp: hasField_def)
qed

text \<open>
  C6, as amended. \<^verbatim>\<open>$assign\<close> given a plain object none of whose keys names a
  declared method returns; every declared field whose name is a key holds the value
  created from the entry, and nothing else changes: keys that name no declared property
  are ignored. When a key names a declared method, \<^verbatim>\<open>$assign\<close> throws the not-a-field
  error at that key. \<^verbatim>\<open>$assign\<close> given an input that is not \<^verbatim>\<open>undefined\<close>, not a
  model and not of typeof \<^verbatim>\<open>'object'\<close>, such as the number 42, throws the type-mismatch
  error.
\<close>

theorem assign_plain_object_and_mismatch:
  "(distinct (map fst kv)
      \<and> (\<forall>n m. hasOwnProperty kv n \<longrightarrow> visible w this n \<noteq> Some (PMethod m)) \<longrightarrow>
      (\<exists>w'. assign create w this (VObj kv) = Inr (w', ())
         \<and> (\<forall>name. visible w' this name =
               (case visible w this name of
                  Some (PField f) \<Rightarrow>
                    if hasOwnProperty kv name
                    then Some (PField (createValue create f (js_get kv name)))
                    else Some (PField f)
                | other \<Rightarrow> other))
         \<and> (\<forall>b. b \<noteq> this \<longrightarrow> ents w' b = ents w b)))
   \<and> (distinct (map fst (before @ (n, v) # after))
      \<and> (\<forall>k m. hasOwnProperty before k \<longrightarrow> visible w this k \<noteq> Some (PMethod m))
      \<and> visible w this n = Some (PMethod m) \<longrightarrow>
      (\<exists>w'. assign create w this (VObj (before @ (n, v) # after)) = Inl (NotAField n, w')))
   \<and> (object \<noteq> VUndefined \<and> \<not> isModel object \<and> typeof object \<noteq> ''object'' \<longrightarrow>
      assign create w this object = Inl (TypeMismatch (typeof object), w))
   \<and> assign create w this (VNum 42) = Inl (TypeMismatch ''number'', w)"
proof -
  have a: "\<exists>w'. assign create w this (VObj kv) = Inr (w', ())
         \<and> (\<forall>name. visible w' this name =
               (case visible w this name of
                  Some (PField f) \<Rightarrow>
                    if hasOwnProperty kv name
                    then Some (PField (createValue create f (js_get kv name)))
                    else Some (PField f)
                | other \<Rightarrow> other))
         \<and> (\<forall>b. b \<noteq> this \<longrightarrow> ents w' b = ents w b)"
    if d: "distinct (map fst kv)"
      and nm: "\<forall>n m. hasOwnProperty kv n \<longrightarrow> visible w this n \<noteq> Some (PMethod m)"
  proof -
    have "\<exists>w'. assignObject_loop create this kv w = Inr (w', ())
      \<and> (\<forall>name. visible w' this name =
            (case visible w this name of
               Some (PField f) \<Rightarrow>
                 (case map_of kv name of
                    Some v \<Rightarrow> Some (PField (createValue create f v))
                  | None \<Rightarrow> Some (PField f))
             | other \<Rightarrow> other))
      \<and> (\<forall>b. b \<noteq> this \<longrightarrow> ents w' b = ents w b)"
    proof (rule assignObject_loop_fields [OF d])
      show "visible w this n \<noteq> Some (PMethod m)" if "(n, v) \<in> set kv" for n v m
      proof -
        from that have "map_of kv n \<noteq> None"
          by (auto dest: weak_map_of_SomeI)
        with nm show ?thesis by (simp add: hasOwnProperty_def)
      qed
    qed
    then obtain w' where
      r: "assignObject_loop create this kv w = Inr (w', ())
      \<and> (\<forall>name. visible w' this name =
            (case visible w this name of
               Some (PField f) \<Rightarrow>
                 (case map_of kv name of
                    Some v \<Rightarrow> Some (PField (createValue create f v))
                  | None \<Rightarrow> Some (PField f))
             | other \<Rightarrow> other))
      \<and> (\<forall>b. b \<noteq> this \<longrightarrow> ents w' b = ents w b)" ..
    note r1 = r [THEN conjunct1]
    note r2 = r [THEN conjunct2, THEN conjunct1, rule_format]
    note r3 = r [THEN conjunct2, THEN conjunct2]
    have 1: "assign create w this (VObj kv) = Inr (w', ())"
      using r1 by (simp add: assign_def isModel_def priv_assignObject_def)
    have 2: "visible w' this name =
               (case visible w this name of
                  Some (PField f) \<Rightarrow>
                    if hasOwnProperty kv name
                    then Some (PField (createValue create f (js_get kv name)))
                    else Some (PField f)
                | other \<Rightarrow> other)" for name
      using r2 [of name]
      by (auto simp: hasOwnProperty_def js_get_def split: option.splits property.splits)
    show ?thesis
      by (rule exI [of _ w'], intro conjI allI) (use 1 2 r3 in simp_all)
  qed
  have b: "\<exists>w'. assign create w this (VObj (before @ (n, v) # after)) = Inl (NotAField n, w')"
    if d: "distinct (map fst (before @ (n, v) # after))"
      and nm: "\<forall>k m. hasOwnProperty before k \<longrightarrow> visible w this k \<noteq> Some (PMethod m)"
      and me: "visible w this n = Some (PMethod m)"
  proof -
    have d': "distinct (map fst before)" and nb: "map_of before n = None"
      using d by (auto simp: map_of_eq_None_iff)
    have "\<exists>w'. assignObject_loop create this before w = Inr (w', ())
      \<and> (\<forall>name. visible w' this name =
            (case visible w this name of
               Some (PField f) \<Rightarrow>
                 (case map_of before name of
                    Some v \<Rightarrow> Some (PField (createValue create f v))
                  | None \<Rightarrow> Some (PField f))
             | other \<Rightarrow> other))
      \<and> (\<forall>b. b \<noteq> this \<longrightarrow> ents w' b = ents w b)"
    proof (rule assignObject_loop_fields [OF d'])
      show "visible w this k \<noteq> Some (PMethod m)" if "(k, x) \<in> set before" for k x m
      proof -
        from that have "map_of before k \<noteq> None"
          by (auto dest: weak_map_of_SomeI)
        with nm show ?thesis by (simp add: hasOwnProperty_def)
      qed
    qed
    then obtain w1 where
      r: "assignObject_loop create this before w = Inr (w1, ())
      \<and> (\<forall>name. visible w1 this name =
            (case visible w this name of
               Some (PField f) \<Rightarrow>
                 (case map_of before name of
                    Some v \<Rightarrow> Some (PField (createValue create f v))
                  | None \<Rightarrow> Some (PField f))
             | other \<Rightarrow> other))
      \<and> (\<forall>b. b \<noteq> this \<longrightarrow> ents w1 b = ents w b)" ..
    note r1 = r [THEN conjunct1]
    note r2 = r [THEN conjunct2, THEN conjunct1, rule_format]
    have "visible w1 this n = Some (PMethod m)"
      using r2 [of n] me by simp
    from assignObject_loop_method [OF this, of create v after] obtain w' where
      "assignObject_loop create this ((n, v) # after) w1 = Inl (NotAField n, w')"
      by blast
    with r1 have "assign create w this (VObj (before @ (n, v) # after)) = Inl (NotAField n, w')"
      by (simp add: assign_def isModel_def priv_assignObject_def assignObject_loop_append)
    then show ?thesis ..
  qed
  have c: "assign create w this object = Inl (TypeMismatch (typeof object), w)"
    if "object \<noteq> VUndefined" "\<not> isModel object" "typeof object \<noteq> ''object''"
    using that by (simp add: assign_def)
  have e: "assign create w this (VNum 42) = Inl (TypeMismatch ''number'', w)"
    by (simp add: assign_def isModel_def)
  show ?thesis using a b c e by blast
qed

subsection \<open>Forks\<close>






subsection \<open>Field masks\<close>

lemma forPropertiesB_inv:
  assumes gp: "\<And>w n w1 r s. J w s \<Longrightarrow> getProperty w this n True = Inr (w1, r) \<Longrightarrow> J w1 s"
    and body: "\<And>w n p s w2 s2. J w s \<Longrightarrow> visible w this n = Some p \<Longrightarrow>
                 body w n p s = Some (Inr (w2, s2)) \<Longrightarrow> J w2 s2"
  shows "J w s \<Longrightarrow> forPropertiesB flt body this ns w s = Some (Inr (w', s')) \<Longrightarrow> J w' s'"
proof (induction ns arbitrary: w s)
  case Nil
  then show ?case by simp
next
  case (Cons n ns)
  show ?case
  proof (cases "getProperty w this n True")
    case (Inl x)
    with Cons.prems show ?thesis by simp
  next
    case (Inr y)
    obtain w1 r where y: "y = (w1, r)" by (cases y)
    have g: "getProperty w this n True = Inr (w1, r)" using Inr y by simp
    have J1: "J w1 s" using gp [OF Cons.prems(1) g] .
    from getProperty_same_view [OF g] have sv: "same_view w w1" and r: "r = visible w this n"
      by simp_all
    show ?thesis
    proof (cases r)
      case None
      with Cons.prems(2) g have "forPropertiesB flt body this ns w1 s = Some (Inr (w', s'))"
        by simp
      from Cons.IH [OF J1 this] show ?thesis .
    next
      case (Some p)
      have vp: "visible w1 this n = Some p"
        using Some r sv by (simp add: same_view_visible)
      show ?thesis
      proof (cases "case flt of Some f \<Rightarrow> \<not> f p | None \<Rightarrow> False")
        case True
        with Cons.prems(2) g Some
        have "forPropertiesB flt body this ns w1 s = Some (Inr (w', s'))"
          by simp
        from Cons.IH [OF J1 this] show ?thesis .
      next
        case False
        show ?thesis
        proof (cases "body w1 n p s")
          case None
          with Cons.prems(2) g Some False show ?thesis by simp
        next
          case bs: (Some z)
          show ?thesis
          proof (cases z)
            case (Inl e)
            with Cons.prems(2) g Some False bs show ?thesis by simp
          next
            case (Inr q)
            obtain w2 s2 where q: "q = (w2, s2)" by (cases q)
            have b2: "body w1 n p s = Some (Inr (w2, s2))" using bs Inr q by simp
            have J2: "J w2 s2" using body [OF J1 vp b2] .
            from Cons.prems(2) g Some False b2
            have "forPropertiesB flt body this ns w2 s2 = Some (Inr (w', s'))"
              by simp
            from Cons.IH [OF J2 this] show ?thesis .
          qed
        qed
      qed
    qed
  qed
qed

lemma forPropertiesB_total:
  assumes gp: "\<And>w n w1 r s. J w s \<Longrightarrow> getProperty w this n True = Inr (w1, r) \<Longrightarrow> J w1 s"
    and body: "\<And>w n p s w2 s2. J w s \<Longrightarrow> visible w this n = Some p \<Longrightarrow>
                 body w n p s = Some (Inr (w2, s2)) \<Longrightarrow> J w2 s2"
    and nn: "\<And>w n p s. J w s \<Longrightarrow> visible w this n = Some p \<Longrightarrow> body w n p s \<noteq> None"
  shows "J w s \<Longrightarrow> forPropertiesB flt body this ns w s \<noteq> None"
proof (induction ns arbitrary: w s)
  case Nil
  then show ?case by simp
next
  case (Cons n ns)
  show ?case
  proof (cases "getProperty w this n True")
    case (Inl x)
    then show ?thesis by simp
  next
    case (Inr y)
    obtain w1 r where y: "y = (w1, r)" by (cases y)
    have g: "getProperty w this n True = Inr (w1, r)" using Inr y by simp
    have J1: "J w1 s" using gp [OF Cons.prems(1) g] .
    from getProperty_same_view [OF g] have sv: "same_view w w1" and r: "r = visible w this n"
      by simp_all
    show ?thesis
    proof (cases r)
      case None
      with g Cons.IH [OF J1] show ?thesis by simp
    next
      case (Some p)
      have vp: "visible w1 this n = Some p"
        using Some r sv by (simp add: same_view_visible)
      show ?thesis
      proof (cases "case flt of Some f \<Rightarrow> \<not> f p | None \<Rightarrow> False")
        case True
        with g Some Cons.IH [OF J1] show ?thesis by simp
      next
        case False
        show ?thesis
        proof (cases "body w1 n p s")
          case None
          with nn [OF J1 vp] show ?thesis by simp
        next
          case bs: (Some z)
          show ?thesis
          proof (cases z)
            case (Inl e)
            with g Some False bs show ?thesis by simp
          next
            case (Inr q)
            obtain w2 s2 where q: "q = (w2, s2)" by (cases q)
            have b2: "body w1 n p s = Some (Inr (w2, s2))" using bs Inr q by simp
            have J2: "J w2 s2" using body [OF J1 vp b2] .
            with g Some False b2 Cons.IH [OF J2] show ?thesis by simp
          qed
        qed
      qed
    qed
  qed
qed

lemma keys_update: "fst ` set (AList.update k v al) = insert k (fst ` set al)"
  using dom_update [of k v al] by auto

text \<open>One step of the loop of \<open>priv_createFieldMask\<close>.\<close>

lemma createFieldMask_field_step:
  assumes nested: "\<And>w p m st w' r st'. nested w p m st = Some (Inr (w', r, st')) \<Longrightarrow>
                     same_view w w' \<and> st' = st"
    and step: "createFieldMask_field nested root w name f (acc, S) = Some (Inr (w2, acc2, S2))"
  shows "same_view w w2 \<and> S2 = S
         \<and> (acc2 = acc \<or> (f_scalar f \<notin> S \<and> fst ` set acc2 = insert name (fst ` set acc)))"
proof (cases "f_scalar f \<in> S")
  case True
  with step show ?thesis by (simp add: createFieldMask_field_def Let_def)
next
  case notin: False
  show ?thesis
  proof (cases "case root of MObj kv \<Rightarrow> map_of kv name | MBool b \<Rightarrow> Some (MBool b)")
    case None
    with step notin show ?thesis by (simp add: createFieldMask_field_def Let_def)
  next
    case (Some fm)
    show ?thesis
    proof (cases "truthy (Some fm)")
      case False
      with step notin Some show ?thesis by (simp add: createFieldMask_field_def Let_def)
    next
      case True
      show ?thesis
      proof (cases "map_of (models w) (f_scalar f)")
        case None
        with step notin Some True show ?thesis
          by (clarsimp simp: createFieldMask_field_def field_createFieldMask_def Let_def keys_update)
      next
        case mp: (Some proto)
        from step notin Some True mp obtain w' m st' where
          n: "nested w proto fm (insert (f_scalar f) S) = Some (Inr (w', m, st'))"
          and r: "w2 = w'" "acc2 = AList.update name (MObj m) acc" "S2 = st' - {f_scalar f}"
          by (auto simp: createFieldMask_field_def field_createFieldMask_def Let_def
                   split: option.splits sum.splits prod.splits)
        from nested [OF n] have "same_view w w'" "st' = insert (f_scalar f) S" by simp_all
        with r notin show ?thesis by (simp add: keys_update)
      qed
    qed
  qed
qed

lemma createFieldMask_field_total:
  assumes "\<And>proto fm. map_of (models w) (f_scalar f) = Some proto \<Longrightarrow> f_scalar f \<notin> S \<Longrightarrow>
             nested w proto fm (insert (f_scalar f) S) \<noteq> None"
  shows "createFieldMask_field nested root w name f (acc, S) \<noteq> None"
proof (cases "f_scalar f \<in> S")
  case True
  then show ?thesis by (simp add: createFieldMask_field_def Let_def)
next
  case notin: False
  show ?thesis
  proof (cases "case root of MObj kv \<Rightarrow> map_of kv name | MBool b \<Rightarrow> Some (MBool b)")
    case None
    with notin show ?thesis by (simp add: createFieldMask_field_def Let_def)
  next
    case (Some fm)
    show ?thesis
    proof (cases "map_of (models w) (f_scalar f)")
      case None
      with notin Some show ?thesis
        by (simp add: createFieldMask_field_def field_createFieldMask_def Let_def)
    next
      case mp: (Some proto)
      from assms [OF mp notin, of fm] obtain y where
        "nested w proto fm (insert (f_scalar f) S) = Some y" by auto
      with notin Some mp show ?thesis
        by (simp add: createFieldMask_field_def field_createFieldMask_def Let_def
                 split: sum.splits prod.splits)
    qed
  qed
qed

lemma same_view_models: "same_view w w' \<Longrightarrow> models w' = models w"
  by (simp add: same_view_def)

lemma priv_createFieldMask_partial:
  "priv_createFieldMask budget flt incl w this root S = Some (Inr (w', m, S')) \<Longrightarrow>
   same_view w w' \<and> S' = S
   \<and> (\<forall>n \<in> fst ` set m. \<exists>f. visible w this n = Some (PField f) \<and> f_scalar f \<notin> S)"
proof (induction budget arbitrary: w this root S w' m S')
  case 0
  then show ?case by simp
next
  case (Suc budget)
  define J where "J = (\<lambda>(v :: world) (st :: (string \<times> mask) list \<times> string set).
      same_view w v \<and> snd st = S
      \<and> (\<forall>n \<in> fst ` set (fst st). \<exists>f. visible w this n = Some (PField f) \<and> f_scalar f \<notin> S))"
  have nested: "same_view v v' \<and> st' = st"
    if "priv_createFieldMask budget flt incl v p r st = Some (Inr (v', x, st'))"
    for v p r st v' x st'
    using Suc.IH [OF that] by simp
  have "J w' (m, S')"
  proof (rule forPropertiesB_inv [where J = J and this = this])
    show "J w ([], S)" by (simp add: J_def)
    show "forPropertiesB (Some (fields_filter flt))
            (\<lambda>w name property s.
               case property of
                 PField f \<Rightarrow>
                   createFieldMask_field
                     (\<lambda>w prototype fieldMask typeStack.
                        priv_createFieldMask budget flt incl w prototype fieldMask typeStack)
                     root w name f s
               | PMethod m \<Rightarrow> Some (Inr (w, s)))
            this (getPropertyNames w this) w ([], S) = Some (Inr (w', m, S'))"
      using Suc.prems by (simp add: getFieldsB_def)
  next
    fix v n v1 r s
    assume "J v s" "getProperty v this n True = Inr (v1, r)"
    then show "J v1 s"
      using getProperty_same_view [of v this n True v1 r]
      by (auto simp: J_def intro: same_view_trans)
  next
    fix v n p s v2 s2
    assume j: "J v s" and vp: "visible v this n = Some p"
      and b: "(case p of
                 PField f \<Rightarrow>
                   createFieldMask_field
                     (\<lambda>w prototype fieldMask typeStack.
                        priv_createFieldMask budget flt incl w prototype fieldMask typeStack)
                     root v n f s
               | PMethod m \<Rightarrow> Some (Inr (v, s))) = Some (Inr (v2, s2))"
    show "J v2 s2"
    proof (cases p)
      case (PMethod x)
      with b j show ?thesis by simp
    next
      case (PField f)
      obtain acc T where s: "s = (acc, T)" by (cases s)
      obtain acc2 T2 where s2: "s2 = (acc2, T2)" by (cases s2)
      from b PField s s2 have
        "createFieldMask_field
           (\<lambda>w prototype fieldMask typeStack.
              priv_createFieldMask budget flt incl w prototype fieldMask typeStack)
           root v n f (acc, T) = Some (Inr (v2, acc2, T2))"
        by simp
      from createFieldMask_field_step [OF _ this] nested
      have st: "same_view v v2" "T2 = T"
        "acc2 = acc \<or> (f_scalar f \<notin> T \<and> fst ` set acc2 = insert n (fst ` set acc))"
        by blast+
      have vw: "visible w this n = Some (PField f)"
        using j vp PField same_view_visible [of w v this n] by (simp add: J_def)
      from j s have T: "T = S" by (simp add: J_def)
      from j have jv: "same_view w v"
        and jk: "\<And>k. k \<in> fst ` set acc \<Longrightarrow>
                   \<exists>f. visible w this k = Some (PField f) \<and> f_scalar f \<notin> S"
        unfolding J_def s by auto
      have keys: "\<exists>g. visible w this k = Some (PField g) \<and> f_scalar g \<notin> S"
        if "k \<in> fst ` set acc2" for k
      proof (cases "k \<in> fst ` set acc")
        case True
        then show ?thesis by (rule jk)
      next
        case False
        with that st(3) have "k = n" "f_scalar f \<notin> T" by auto
        with vw T show ?thesis by simp
      qed
      have "same_view w v2" using jv st(1) by (rule same_view_trans)
      with keys st(2) T show ?thesis
        unfolding J_def s2 by simp
    qed
  qed
  then show ?case by (simp add: J_def)
qed

lemma priv_createFieldMask_total:
  "card (fst ` set (models w) - S) < budget \<Longrightarrow>
   priv_createFieldMask budget flt incl w this root S \<noteq> None"
proof (induction budget arbitrary: w this root S)
  case 0
  then show ?case by simp
next
  case (Suc budget)
  define J where "J = (\<lambda>(v :: world) (st :: (string \<times> mask) list \<times> string set).
      models v = models w \<and> snd st = S)"
  have nested: "same_view v v' \<and> st' = st"
    if "priv_createFieldMask budget flt incl v p r st = Some (Inr (v', x, st'))"
    for v p r st v' x st'
    using priv_createFieldMask_partial [OF that] by simp
  have "forPropertiesB (Some (fields_filter flt))
            (\<lambda>w name property s.
               case property of
                 PField f \<Rightarrow>
                   createFieldMask_field
                     (\<lambda>w prototype fieldMask typeStack.
                        priv_createFieldMask budget flt incl w prototype fieldMask typeStack)
                     root w name f s
               | PMethod m \<Rightarrow> Some (Inr (w, s)))
            this (getPropertyNames w this) w ([], S) \<noteq> None"
  proof (rule forPropertiesB_total [where J = J and this = this])
    show "J w ([], S)" by (simp add: J_def)
  next
    fix v n v1 r s
    assume "J v s" "getProperty v this n True = Inr (v1, r)"
    then show "J v1 s"
      using getProperty_same_view [of v this n True v1 r]
      by (auto simp: J_def same_view_models)
  next
    fix v n p s v2 s2
    assume j: "J v s" and vp: "visible v this n = Some p"
      and b: "(case p of
                 PField f \<Rightarrow>
                   createFieldMask_field
                     (\<lambda>w prototype fieldMask typeStack.
                        priv_createFieldMask budget flt incl w prototype fieldMask typeStack)
                     root v n f s
               | PMethod m \<Rightarrow> Some (Inr (v, s))) = Some (Inr (v2, s2))"
    show "J v2 s2"
    proof (cases p)
      case (PMethod x)
      with b j show ?thesis by simp
    next
      case (PField f)
      obtain acc T where s: "s = (acc, T)" by (cases s)
      obtain acc2 T2 where s2: "s2 = (acc2, T2)" by (cases s2)
      from b PField s s2 have
        "createFieldMask_field
           (\<lambda>w prototype fieldMask typeStack.
              priv_createFieldMask budget flt incl w prototype fieldMask typeStack)
           root v n f (acc, T) = Some (Inr (v2, acc2, T2))"
        by simp
      from createFieldMask_field_step [OF _ this] nested
      have st: "same_view v v2" "T2 = T"
        by blast+
      then show ?thesis using j s s2 by (simp add: J_def same_view_models)
    qed
  next
    fix v n p s
    assume j: "J v s" and vp: "visible v this n = Some p"
    show "(case p of
                 PField f \<Rightarrow>
                   createFieldMask_field
                     (\<lambda>w prototype fieldMask typeStack.
                        priv_createFieldMask budget flt incl w prototype fieldMask typeStack)
                     root v n f s
               | PMethod m \<Rightarrow> Some (Inr (v, s))) \<noteq> None"
    proof (cases p)
      case (PMethod x)
      then show ?thesis by simp
    next
      case (PField f)
      obtain acc T where s: "s = (acc, T)" by (cases s)
      from j s have T: "T = S" and mv: "models v = models w" by (simp_all add: J_def)
      have rec: "priv_createFieldMask budget flt incl v proto fm (insert (f_scalar f) S) \<noteq> None"
        if "map_of (models v) (f_scalar f) = Some proto" "f_scalar f \<notin> S" for proto fm
      proof (rule Suc.IH)
        from that(1) have "f_scalar f \<in> fst ` set (models w)"
          using mv by (force dest: map_of_SomeD)
        with that(2) have "fst ` set (models w) - insert (f_scalar f) S
                           \<subset> fst ` set (models w) - S"
          by auto
        then have "card (fst ` set (models w) - insert (f_scalar f) S)
                     < card (fst ` set (models w) - S)"
          by (intro psubset_card_mono) auto
        with Suc.prems show "card (fst ` set (models v) - insert (f_scalar f) S) < budget"
          by (simp add: mv)
      qed
      show ?thesis
        unfolding PField s T property.case
        by (rule createFieldMask_field_total) (rule rec)
    qed
  qed
  then show ?case by (simp add: getFieldsB_def)
qed

text \<open>
  C2. \<^verbatim>\<open>$createFieldMask\<close> terminates for every model: a budget of nested calls
  greater than the number of models in the registry is never used up, whatever the
  field types refer to. The set of types being expanded is new for each call (it starts
  empty) and each \<^verbatim>\<open>__createFieldMask\<close> returns it as it received it: a type is added
  before the nested mask of a field is computed and removed afterwards. A field whose
  scalar type is in the set is skipped, so every field of the mask has a scalar type
  outside the set.
\<close>

theorem createFieldMask_terminates:
  "(length (models w) < budget \<longrightarrow>
      createFieldMask budget w this fieldsArg flt includeReferencedEntities \<noteq> None)
   \<and> (card (fst ` set (models w) - typeStack) < budget \<longrightarrow>
      priv_createFieldMask budget flt includeReferencedEntities w this root typeStack \<noteq> None)
   \<and> (\<forall>w' m typeStack'.
        priv_createFieldMask budget flt includeReferencedEntities w this root typeStack
          = Some (Inr (w', m, typeStack')) \<longrightarrow>
        typeStack' = typeStack \<and> same_view w w'
        \<and> (\<forall>n \<in> fst ` set m. \<exists>f. visible w this n = Some (PField f)
                                    \<and> f_scalar f \<notin> typeStack))
   \<and> (f_scalar field \<in> typeStack \<longrightarrow>
        createFieldMask_field nested root w name field (acc, typeStack)
          = Some (Inr (w, acc, typeStack)))
   \<and> (\<forall>fieldMask prototype w' m typeStack'.
        f_scalar field \<notin> typeStack
        \<and> (case root of MObj kv \<Rightarrow> map_of kv name | MBool b \<Rightarrow> Some (MBool b)) = Some fieldMask
        \<and> truthy (Some fieldMask)
        \<and> map_of (models w) (f_scalar field) = Some prototype
        \<and> nested w prototype fieldMask (insert (f_scalar field) typeStack)
             = Some (Inr (w', m, typeStack')) \<longrightarrow>
        createFieldMask_field nested root w name field (acc, typeStack)
          = Some (Inr (w', AList.update name (MObj m) acc, typeStack' - {f_scalar field})))"
proof -
  have b: "priv_createFieldMask budget flt includeReferencedEntities w this root S \<noteq> None"
    if "card (fst ` set (models w) - S) < budget" for root S
    using that by (rule priv_createFieldMask_total)
  have "card (fst ` set (models w) - {}) \<le> length (models w)"
    using card_image_le [of "set (models w)" fst] card_length [of "models w"] by simp
  then have a: "createFieldMask budget w this fieldsArg flt includeReferencedEntities \<noteq> None"
    if "length (models w) < budget"
    using that
      b [of "{}" "case fieldsArg of None \<Rightarrow> MBool True | Some m \<Rightarrow> m"]
    by (auto simp: createFieldMask_def split: option.splits sum.splits prod.splits)
  have c: "typeStack' = typeStack \<and> same_view w w'
        \<and> (\<forall>n \<in> fst ` set m. \<exists>f. visible w this n = Some (PField f)
                                    \<and> f_scalar f \<notin> typeStack)"
    if "priv_createFieldMask budget flt includeReferencedEntities w this root typeStack
          = Some (Inr (w', m, typeStack'))" for w' m typeStack'
    using priv_createFieldMask_partial [OF that] by simp
  have d: "createFieldMask_field nested root w name field (acc, typeStack)
          = Some (Inr (w, acc, typeStack))"
    if "f_scalar field \<in> typeStack"
    using that by (simp add: createFieldMask_field_def Let_def)
  have e: "createFieldMask_field nested root w name field (acc, typeStack)
          = Some (Inr (w', AList.update name (MObj m) acc, typeStack' - {f_scalar field}))"
    if "f_scalar field \<notin> typeStack"
       "(case root of MObj kv \<Rightarrow> map_of kv name | MBool b \<Rightarrow> Some (MBool b)) = Some fieldMask"
       "truthy (Some fieldMask)"
       "map_of (models w) (f_scalar field) = Some prototype"
       "nested w prototype fieldMask (insert (f_scalar field) typeStack)
             = Some (Inr (w', m, typeStack'))"
    for fieldMask prototype w' m typeStack'
    using that
    by (simp add: createFieldMask_field_def field_createFieldMask_def Let_def)
  show ?thesis
    by (intro conjI allI impI) (use a b c d e in \<open>simp_all\<close>)
qed

subsection \<open>Serialization\<close>

lemma fold_update_keys:
  "fst ` set (fold (\<lambda>n s. if C n then AList.update n (V n) s else s) ns s0)
     = fst ` set s0 \<union> {n \<in> set ns. C n}"
  by (induction ns arbitrary: s0) (auto simp: keys_update)

lemma fold_update_map_of:
  "distinct ns \<Longrightarrow>
   map_of (fold (\<lambda>n s. if C n then AList.update n (V n) s else s) ns s0) k
     = (if k \<in> set ns \<and> C k then Some (V k) else map_of s0 k)"
  by (induction ns arbitrary: s0) (auto simp: update_conv')

lemma fold_update_distinct:
  "distinct (map fst s0) \<Longrightarrow>
   distinct (map fst (fold (\<lambda>n s. if C n then AList.update n (V n) s else s) ns s0))"
  by (induction ns arbitrary: s0) (auto simp: distinct_update)

lemma spread_keys: "fst ` set (spread a b) = fst ` set a \<union> fst ` set b"
  unfolding spread_def
  by (induction b arbitrary: a) (simp_all add: keys_update split_beta)

lemma spread_map_of:
  "distinct (map fst b) \<Longrightarrow>
   map_of (spread a b) k = (case map_of b k of Some v \<Rightarrow> Some v | None \<Rightarrow> map_of a k)"
  unfolding spread_def
proof (induction b arbitrary: a)
  case Nil
  show ?case by simp
next
  case (Cons x b)
  obtain n v where x: "x = (n, v)" by (cases x)
  from Cons.prems have d: "distinct (map fst b)" and n: "map_of b n = None"
    by (auto simp: x map_of_eq_None_iff)
  show ?case
    using n by (auto simp: x Cons.IH [OF d] update_conv' split: option.splits)
qed

lemma createFieldMask_same_view:
  "createFieldMask budget w this fieldsArg flt incl = Some (Inr (w1, root)) \<Longrightarrow> same_view w w1"
  by (auto simp: createFieldMask_def split: option.splits sum.splits prod.splits
           dest: priv_createFieldMask_partial)

lemma same_view_sym_visible: "same_view w w' \<Longrightarrow> visible w b name = visible w' b name"
  by (simp add: same_view_def)

text \<open>The loop of \<^verbatim>\<open>$serialize\<close> over the active fields.\<close>

lemma serialize_loop:
  fixes serializeValue :: "string \<Rightarrow> field \<Rightarrow> string option \<Rightarrow> mask \<Rightarrow> val"
  defines "sel \<equiv> \<lambda>w this root target name.
      (\<exists>f. visible w this name = Some (PField f) \<and> isActive f
           \<and> truthy (Some (FieldMask_get root name))
           \<and> serializeValue name f target (FieldMask_get root name) \<noteq> VUndefined)"
  shows "\<exists>w2 sf. getActiveFields None
            (\<lambda>w name field serializedFields.
               let fieldMask = FieldMask_get root name in
               if \<not> truthy (Some fieldMask) then Inr (w, serializedFields)
               else
                 let v = serializeValue name field target fieldMask in
                 if v \<noteq> VUndefined
                 then Inr (w, AList.update name v serializedFields)
                 else Inr (w, serializedFields))
            w1 this [] = Inr (w2, sf)
        \<and> (\<forall>b m. visible w2 b m = visible w1 b m)
        \<and> distinct (map fst sf)
        \<and> (\<forall>name. name \<in> fst ` set sf \<longleftrightarrow> sel w1 this root target name)
        \<and> (\<forall>name f. visible w1 this name = Some (PField f) \<and> sel w1 this root target name \<longrightarrow>
              map_of sf name = Some (serializeValue name f target (FieldMask_get root name)))"
proof -
  define pass where "pass = fields_filter (Some (active_filter None))"
  define V where "V = (\<lambda>name. case visible w1 this name of
      Some (PField f) \<Rightarrow> serializeValue name f target (FieldMask_get root name)
    | _ \<Rightarrow> VUndefined)"
  define H where "H = (\<lambda>name p (s :: (string \<times> val) list). case p of
      PField f \<Rightarrow>
        (let fieldMask = FieldMask_get root name in
         if \<not> truthy (Some fieldMask) then s
         else
           let v = serializeValue name f target fieldMask in
           if v \<noteq> VUndefined then AList.update name v s else s)
    | PMethod m \<Rightarrow> s)"
  define body where "body = (\<lambda>w name property (s :: (string \<times> val) list).
      case property of
        PField f \<Rightarrow>
          (let fieldMask = FieldMask_get root name in
           if \<not> truthy (Some fieldMask) then Inr (w, s)
           else
             let v = serializeValue name f target fieldMask in
             if v \<noteq> VUndefined
             then Inr (w, AList.update name v s)
             else Inr (w, s))
      | PMethod m \<Rightarrow> (Inr (w, s) :: (string \<times> val) list outcome))"
  have passdef: "pass p \<longleftrightarrow> (\<exists>f. p = PField f \<and> isActive f)" for p
    by (cases p) (simp_all add: pass_def fields_filter_def active_filter_def)
  have stepeq: "(\<lambda>n s. case visible w1 this n of
                     Some p \<Rightarrow> if pass p then H n p s else s
                   | None \<Rightarrow> s)
        = (\<lambda>n s. if sel w1 this root target n then AList.update n (V n) s else s)"
    by (intro ext)
       (auto simp: sel_def V_def H_def passdef Let_def split: option.splits property.splits)
  show ?thesis
  proof (rule getProperties_local [where body = body and G = "\<lambda>n p. p" and H = H
        and pass = pass and flt = "Some pass" and this = this and w = w1 and s = "[]"],
      goal_cases)
    case (1 w n p s)
    then show ?case
      by (cases p) (simp_all add: body_def H_def props_set_triv Let_def)
  next
    case (2 p)
    show ?case by simp
  next
    case (3 w2)
    define sf where "sf = fold (\<lambda>n s. if sel w1 this root target n
                                       then AList.update n (V n) s else s)
                               (getPropertyNames w1 this) []"
    have r: "getProperties (Some pass) body w1 this [] = Inr (w2, sf)"
      using 3(1) unfolding stepeq sf_def .
    have vis: "visible w2 this m = visible w1 this m" for m
      using 3(2) [of m] by (simp split: option.splits)
    have keys: "name \<in> fst ` set sf \<longleftrightarrow> sel w1 this root target name" for name
    proof -
      have "sel w1 this root target name \<Longrightarrow> name \<in> set (getPropertyNames w1 this)"
        by (auto simp: sel_def getPropertyNames_visible)
      then show ?thesis
        unfolding sf_def fold_update_keys by auto
    qed
    have vals: "map_of sf name = Some (serializeValue name f target (FieldMask_get root name))"
      if "visible w1 this name = Some (PField f)" "sel w1 this root target name" for name f
    proof -
      from that(1) have "name \<in> set (getPropertyNames w1 this)"
        by (simp add: getPropertyNames_visible)
      with that show ?thesis
        unfolding sf_def by (simp add: fold_update_map_of V_def)
    qed
    have d: "distinct (map fst sf)"
      unfolding sf_def by (rule fold_update_distinct) simp
    have sv: "visible w2 b m = visible w1 b m" for b m
      by (rule visible_update_entity [where a = this]) (use 3(3) vis in auto)
    show ?case
      by (rule exI [of _ w2], rule exI [of _ sf], intro conjI allI impI)
         (use r sv d keys vals in \<open>simp_all add: getActiveFields_def getFields_def body_def pass_def\<close>)
  qed
qed

text \<open>
  C1. The root mask of \<^verbatim>\<open>$serialize\<close> is the mask of the exposed fields when
  \<open>target\<close> is supplied and is neither the id of the layer of the instance nor the id
  of the parent layer, and the full mask that was asked for otherwise. When the mask is
  computed, \<^verbatim>\<open>$serialize\<close> returns; a name that is not a key of the base
  representation (\<^verbatim>\<open>super.$serialize()\<close>) is a key of the output exactly if it names a
  field that is active, is selected by the root mask and has a serialized value other
  than \<^verbatim>\<open>undefined\<close>, and then the output holds that value.
\<close>

theorem serialize_root_mask_and_fields:
  "(targetIsLower target layerId parentLayerId
      \<longleftrightarrow> target \<noteq> None \<and> target \<noteq> layerId \<and> target \<noteq> parentLayerId)
   \<and> (\<forall>w1 root.
        (if target \<noteq> None \<and> target \<noteq> layerId \<and> target \<noteq> parentLayerId
         then createFieldMaskForExposedFields budget w this fieldsArg
         else createFieldMask budget w this fieldsArg None False) = Some (Inr (w1, root))
        \<longrightarrow>
        (\<exists>w' out.
           serialize serializeValue superSerialize layerId parentLayerId budget w this target
             fieldsArg = Some (Inr (w', out))
           \<and> (\<forall>name. name \<notin> fst ` set (superSerialize w' this) \<longrightarrow>
                 (name \<in> fst ` set out \<longleftrightarrow>
                    (\<exists>f. visible w this name = Some (PField f) \<and> isActive f
                       \<and> truthy (Some (FieldMask_get root name))
                       \<and> serializeValue name f target (FieldMask_get root name) \<noteq> VUndefined)))
           \<and> (\<forall>name f. visible w this name = Some (PField f) \<and> isActive f
                       \<and> truthy (Some (FieldMask_get root name))
                       \<and> serializeValue name f target (FieldMask_get root name) \<noteq> VUndefined
                 \<longrightarrow> map_of out name
                       = Some (serializeValue name f target (FieldMask_get root name)))
           \<and> (\<forall>b m. visible w' b m = visible w b m)))
   \<and> ((if target \<noteq> None \<and> target \<noteq> layerId \<and> target \<noteq> parentLayerId
         then createFieldMaskForExposedFields budget w this fieldsArg
         else createFieldMask budget w this fieldsArg None False) = None
        \<longrightarrow> serialize serializeValue superSerialize layerId parentLayerId budget w this target
              fieldsArg = None)
   \<and> (\<forall>e. (if target \<noteq> None \<and> target \<noteq> layerId \<and> target \<noteq> parentLayerId
         then createFieldMaskForExposedFields budget w this fieldsArg
         else createFieldMask budget w this fieldsArg None False) = Some (Inl e)
        \<longrightarrow> serialize serializeValue superSerialize layerId parentLayerId budget w this target
              fieldsArg = Some (Inl e))"
proof -
  define maskcall where "maskcall =
        (if target \<noteq> None \<and> target \<noteq> layerId \<and> target \<noteq> parentLayerId
         then createFieldMaskForExposedFields budget w this fieldsArg
         else createFieldMask budget w this fieldsArg None False)"
  have til: "targetIsLower target layerId parentLayerId
      \<longleftrightarrow> target \<noteq> None \<and> target \<noteq> layerId \<and> target \<noteq> parentLayerId"
    by (auto simp: targetIsLower_def)
  have unf: "serialize serializeValue superSerialize layerId parentLayerId budget w this target
               fieldsArg =
     (case maskcall of
        None \<Rightarrow> None
      | Some (Inl e) \<Rightarrow> Some (Inl e)
      | Some (Inr (w1, rootFieldMask)) \<Rightarrow>
          (case getActiveFields None
                  (\<lambda>w name field serializedFields.
                     let fieldMask = FieldMask_get rootFieldMask name in
                     if \<not> truthy (Some fieldMask) then Inr (w, serializedFields)
                     else
                       let v = serializeValue name field target fieldMask in
                       if v \<noteq> VUndefined
                       then Inr (w, AList.update name v serializedFields)
                       else Inr (w, serializedFields))
                  w1 this [] of
             Inl e \<Rightarrow> Some (Inl e)
           | Inr (w2, serializedFields) \<Rightarrow>
               Some (Inr (w2, spread (superSerialize w2 this) serializedFields))))"
    unfolding serialize_def maskcall_def til by (rule refl)
  have ok: "\<exists>w' out.
           serialize serializeValue superSerialize layerId parentLayerId budget w this target
             fieldsArg = Some (Inr (w', out))
           \<and> (\<forall>name. name \<notin> fst ` set (superSerialize w' this) \<longrightarrow>
                 (name \<in> fst ` set out \<longleftrightarrow>
                    (\<exists>f. visible w this name = Some (PField f) \<and> isActive f
                       \<and> truthy (Some (FieldMask_get root name))
                       \<and> serializeValue name f target (FieldMask_get root name) \<noteq> VUndefined)))
           \<and> (\<forall>name f. visible w this name = Some (PField f) \<and> isActive f
                       \<and> truthy (Some (FieldMask_get root name))
                       \<and> serializeValue name f target (FieldMask_get root name) \<noteq> VUndefined
                 \<longrightarrow> map_of out name
                       = Some (serializeValue name f target (FieldMask_get root name)))
           \<and> (\<forall>b m. visible w' b m = visible w b m)"
    if mc: "maskcall = Some (Inr (w1, root))" for w1 root
  proof -
    have sv1: "same_view w w1"
      using mc unfolding maskcall_def createFieldMaskForExposedFields_def
      by (auto split: if_splits dest: createFieldMask_same_view)
    have v1: "visible w1 b m = visible w b m" for b m
      using sv1 by (simp add: same_view_visible)
    from serialize_loop [of root serializeValue target w1 this] obtain w2 sf where
      r0: "getActiveFields None
            (\<lambda>w name field serializedFields.
               let fieldMask = FieldMask_get root name in
               if \<not> truthy (Some fieldMask) then Inr (w, serializedFields)
               else
                 let v = serializeValue name field target fieldMask in
                 if v \<noteq> VUndefined
                 then Inr (w, AList.update name v serializedFields)
                 else Inr (w, serializedFields))
            w1 this [] = Inr (w2, sf)
        \<and> (\<forall>b m. visible w2 b m = visible w1 b m)
        \<and> distinct (map fst sf)
        \<and> (\<forall>name. name \<in> fst ` set sf \<longleftrightarrow>
           (\<exists>f. visible w1 this name = Some (PField f) \<and> isActive f
              \<and> truthy (Some (FieldMask_get root name))
              \<and> serializeValue name f target (FieldMask_get root name) \<noteq> VUndefined))
        \<and> (\<forall>name f. visible w1 this name = Some (PField f)
           \<and> (\<exists>f. visible w1 this name = Some (PField f) \<and> isActive f
                \<and> truthy (Some (FieldMask_get root name))
                \<and> serializeValue name f target (FieldMask_get root name) \<noteq> VUndefined)
           \<longrightarrow> map_of sf name = Some (serializeValue name f target (FieldMask_get root name)))"
      by (elim exE)
    note l1 = r0 [THEN conjunct1]
    note l2 = r0 [THEN conjunct2, THEN conjunct1]
    note l3 = r0 [THEN conjunct2, THEN conjunct2, THEN conjunct1]
    note l4 = r0 [THEN conjunct2, THEN conjunct2, THEN conjunct2, THEN conjunct1]
    note l5 = r0 [THEN conjunct2, THEN conjunct2, THEN conjunct2, THEN conjunct2]
    define out where "out = spread (superSerialize w2 this) sf"
    have r: "serialize serializeValue superSerialize layerId parentLayerId budget w this target
             fieldsArg = Some (Inr (w2, out))"
      unfolding unf mc out_def using l1 by simp
    have keys: "name \<in> fst ` set out \<longleftrightarrow>
                    (\<exists>f. visible w this name = Some (PField f) \<and> isActive f
                       \<and> truthy (Some (FieldMask_get root name))
                       \<and> serializeValue name f target (FieldMask_get root name) \<noteq> VUndefined)"
      if "name \<notin> fst ` set (superSerialize w2 this)" for name
      using that l4 [rule_format, of name] unfolding out_def spread_keys v1 by simp
    have vals: "map_of out name = Some (serializeValue name f target (FieldMask_get root name))"
      if "visible w this name = Some (PField f)" "isActive f"
         "truthy (Some (FieldMask_get root name))"
         "serializeValue name f target (FieldMask_get root name) \<noteq> VUndefined" for name f
    proof -
      have "map_of sf name = Some (serializeValue name f target (FieldMask_get root name))"
        using l5 [rule_format, of name f] that unfolding v1 by blast
      then show ?thesis
        unfolding out_def by (simp add: spread_map_of [OF l3])
    qed
    have vis: "visible w2 b m = visible w b m" for b m
      using l2 v1 by simp
    show ?thesis
      by (rule exI [of _ w2], rule exI [of _ out], intro conjI allI impI)
         (use r keys vals vis in \<open>simp_all\<close>)
  qed
  have none: "serialize serializeValue superSerialize layerId parentLayerId budget w this target
              fieldsArg = None" if "maskcall = None"
    unfolding unf that by simp
  have err: "serialize serializeValue superSerialize layerId parentLayerId budget w this target
              fieldsArg = Some (Inl e)" if "maskcall = Some (Inl e)" for e
    unfolding unf that by simp
  show ?thesis
    unfolding maskcall_def [symmetric]
  proof (intro conjI allI impI, goal_cases)
    case 1
    show ?case by (rule til)
  next
    case (2 w1 root)
    then show ?case by (rule ok)
  next
    case 3
    then show ?case by (rule none)
  next
    case (4 e)
    then show ?case by (rule err)
  qed
qed

subsection \<open>Deserialization\<close>

lemma fold_missing:
  fixes M :: "string \<Rightarrow> mask option"
  defines "F \<equiv> \<lambda>n s. case M n of
                None \<Rightarrow> s
              | Some m \<Rightarrow> Some (FieldMask_set (case s of None \<Rightarrow> MObj [] | Some x \<Rightarrow> x) n m)"
  shows "s0 = None \<or> (\<exists>kv. s0 = Some (MObj kv)) \<Longrightarrow> distinct ns \<Longrightarrow>
     (fold F ns s0 = None \<or> (\<exists>kv. fold F ns s0 = Some (MObj kv)))
     \<and> map_of (missing_entries (fold F ns s0)) k
         = (if k \<in> set ns \<and> M k \<noteq> None then M k else map_of (missing_entries s0) k)"
proof (induction ns arbitrary: s0)
  case Nil
  then show ?case by simp
next
  case (Cons n ns)
  have wf1: "F n s0 = None \<or> (\<exists>kv. F n s0 = Some (MObj kv))"
    using Cons.prems(1) by (auto simp: F_def split: option.splits)
  have e1: "map_of (missing_entries (F n s0)) k
         = (if k = n \<and> M n \<noteq> None then M n else map_of (missing_entries s0) k)"
    using Cons.prems(1)
    by (auto simp: F_def missing_entries_def update_conv' split: option.splits)
  from Cons.prems(2) have d: "distinct ns" and n: "n \<notin> set ns" by simp_all
  from Cons.IH [OF wf1 d] e1 n show ?case by auto
qed


lemma getField_owned:
  assumes "props_hasOwn w a name" and "visible w a name = Some (PField f)"
  shows "getField w a name thr = Inr (w, Some f)"
proof -
  from getField_field [OF assms(2), of thr] obtain w1 where
    "getField w a name thr = Inr (w1, Some f)" "props_hasOwn w a name \<Longrightarrow> w1 = w"
    by blast
  with assms(1) show ?thesis by simp
qed

lemma deserialize_loop:
  fixes deserializeValue :: "string \<Rightarrow> field \<Rightarrow> val \<Rightarrow> 'src \<Rightarrow> mask \<Rightarrow> val \<times> mask option"
  shows "\<exists>w' missing.
     getFieldNames
       (\<lambda>w name rootMissingFields.
                     let fieldMask = FieldMask_get root name in
                     if \<not> truthy (Some fieldMask) then Inr (w, rootMissingFields)
                     else if hasOwnProperty object name then
                       (case getField w this name True of
                          Inl e \<Rightarrow> Inl e
                        | Inr (w', None) \<Rightarrow> Inl (JsTypeError, w')
                        | Inr (w', Some field) \<Rightarrow>
                            let (v, missingFields) =
                                  deserializeValue name field (js_get object name) source fieldMask;
                                w'' = props_set w' this name (PField (setValue field v))
                            in (case missingFields of
                                  None \<Rightarrow> Inr (w'', rootMissingFields)
                                | Some missing \<Rightarrow>
                                    if truthy (Some missing)
                                    then Inr (w'', Some (FieldMask_set
                                               (case rootMissingFields of
                                                  None \<Rightarrow> MObj [] | Some m \<Rightarrow> m)
                                               name missing))
                                    else Inr (w'', rootMissingFields)))
                     else if isNew then
                       (case getField w this name True of
                          Inl e \<Rightarrow> Inl e
                        | Inr (w', None) \<Rightarrow> Inl (JsTypeError, w')
                        | Inr (w', Some field) \<Rightarrow>
                            Inr (props_set w' this name
                                   (PField (setValue field (getDefaultValue field))),
                                 rootMissingFields))
                     else
                       Inr (w, Some (FieldMask_set
                                  (case rootMissingFields of None \<Rightarrow> MObj [] | Some m \<Rightarrow> m)
                                  name fieldMask)))
       w1 this None = Inr (w', missing)
     \<and> (\<forall>name. visible w' this name =
           (case visible w1 this name of
              Some (PField f) \<Rightarrow>
                Some (PField
                  (if \<not> truthy (Some (FieldMask_get root name)) then f
                   else if hasOwnProperty object name
                   then setValue f (fst (deserializeValue name f (js_get object name) source
                                       (FieldMask_get root name)))
                   else if isNew then setValue f (getDefaultValue f)
                   else f))
            | other \<Rightarrow> other))
     \<and> (\<forall>name. map_of (missing_entries missing) name =
           (case visible w1 this name of
              Some (PField f) \<Rightarrow>
                (if \<not> truthy (Some (FieldMask_get root name)) then None
                 else if hasOwnProperty object name
                 then (case snd (deserializeValue name f (js_get object name) source
                                   (FieldMask_get root name)) of
                         None \<Rightarrow> None
                       | Some m \<Rightarrow> if truthy (Some m) then Some m else None)
                 else if isNew then None
                 else Some (FieldMask_get root name))
            | other \<Rightarrow> None))
     \<and> (\<forall>b. b \<noteq> this \<longrightarrow> ents w' b = ents w1 b)
     \<and> (\<forall>b. e_isNew (ents w' b) = e_isNew (ents w1 b))
     \<and> models w' = models w1"
proof -
  define pass where "pass = fields_filter None"
  define G where "G = (\<lambda>name p. case p of
      PField f \<Rightarrow>
        PField
          (if \<not> truthy (Some (FieldMask_get root name)) then f
           else if hasOwnProperty object name
           then setValue f (fst (deserializeValue name f (js_get object name) source
                               (FieldMask_get root name)))
           else if isNew then setValue f (getDefaultValue f)
           else f)
    | PMethod m \<Rightarrow> p)"
  define M where "M = (\<lambda>name p. case p of
      PField f \<Rightarrow>
        (if \<not> truthy (Some (FieldMask_get root name)) then None
         else if hasOwnProperty object name
         then (case snd (deserializeValue name f (js_get object name) source
                           (FieldMask_get root name)) of
                 None \<Rightarrow> None
               | Some m \<Rightarrow> if truthy (Some m) then Some m else None)
         else if isNew then None
         else Some (FieldMask_get root name))
    | PMethod m \<Rightarrow> None)"
  define H where "H = (\<lambda>name p (s :: mask option). case M name p of
      None \<Rightarrow> s
    | Some m \<Rightarrow> Some (FieldMask_set (case s of None \<Rightarrow> MObj [] | Some x \<Rightarrow> x) name m))"
  define M1 where "M1 = (\<lambda>name. case visible w1 this name of
      Some p \<Rightarrow> M name p | None \<Rightarrow> None)"
  define body where "body = (\<lambda>w name property (s :: mask option).
      case property of
        PField f \<Rightarrow>
          (\<lambda>w name rootMissingFields.
                     let fieldMask = FieldMask_get root name in
                     if \<not> truthy (Some fieldMask) then Inr (w, rootMissingFields)
                     else if hasOwnProperty object name then
                       (case getField w this name True of
                          Inl e \<Rightarrow> Inl e
                        | Inr (w', None) \<Rightarrow> Inl (JsTypeError, w')
                        | Inr (w', Some field) \<Rightarrow>
                            let (v, missingFields) =
                                  deserializeValue name field (js_get object name) source fieldMask;
                                w'' = props_set w' this name (PField (setValue field v))
                            in (case missingFields of
                                  None \<Rightarrow> Inr (w'', rootMissingFields)
                                | Some missing \<Rightarrow>
                                    if truthy (Some missing)
                                    then Inr (w'', Some (FieldMask_set
                                               (case rootMissingFields of
                                                  None \<Rightarrow> MObj [] | Some m \<Rightarrow> m)
                                               name missing))
                                    else Inr (w'', rootMissingFields)))
                     else if isNew then
                       (case getField w this name True of
                          Inl e \<Rightarrow> Inl e
                        | Inr (w', None) \<Rightarrow> Inl (JsTypeError, w')
                        | Inr (w', Some field) \<Rightarrow>
                            Inr (props_set w' this name
                                   (PField (setValue field (getDefaultValue field))),
                                 rootMissingFields))
                     else
                       Inr (w, Some (FieldMask_set
                                  (case rootMissingFields of None \<Rightarrow> MObj [] | Some m \<Rightarrow> m)
                                  name fieldMask))) w name s
      | PMethod m \<Rightarrow> Inr (w, s))"
  have unf: "getFieldNames
       (\<lambda>w name rootMissingFields.
                     let fieldMask = FieldMask_get root name in
                     if \<not> truthy (Some fieldMask) then Inr (w, rootMissingFields)
                     else if hasOwnProperty object name then
                       (case getField w this name True of
                          Inl e \<Rightarrow> Inl e
                        | Inr (w', None) \<Rightarrow> Inl (JsTypeError, w')
                        | Inr (w', Some field) \<Rightarrow>
                            let (v, missingFields) =
                                  deserializeValue name field (js_get object name) source fieldMask;
                                w'' = props_set w' this name (PField (setValue field v))
                            in (case missingFields of
                                  None \<Rightarrow> Inr (w'', rootMissingFields)
                                | Some missing \<Rightarrow>
                                    if truthy (Some missing)
                                    then Inr (w'', Some (FieldMask_set
                                               (case rootMissingFields of
                                                  None \<Rightarrow> MObj [] | Some m \<Rightarrow> m)
                                               name missing))
                                    else Inr (w'', rootMissingFields)))
                     else if isNew then
                       (case getField w this name True of
                          Inl e \<Rightarrow> Inl e
                        | Inr (w', None) \<Rightarrow> Inl (JsTypeError, w')
                        | Inr (w', Some field) \<Rightarrow>
                            Inr (props_set w' this name
                                   (PField (setValue field (getDefaultValue field))),
                                 rootMissingFields))
                     else
                       Inr (w, Some (FieldMask_set
                                  (case rootMissingFields of None \<Rightarrow> MObj [] | Some m \<Rightarrow> m)
                                  name fieldMask)))
       w1 this None = getProperties (Some pass) body w1 this None"
    unfolding getFieldNames_def getFields_def body_def pass_def by (rule refl)
  have passE: "\<exists>f. p = PField f" if "pass p" for p
    using that by (cases p) (simp_all add: pass_def fields_filter_def)
  have b: "body w n p s = Inr (props_set w this n (G n p), H n p s)"
    if own: "props_hasOwn w this n" and vis: "visible w this n = Some p" and "pass p"
    for w n p s
  proof -
    from passE [OF that(3)] obtain f where p: "p = PField f" ..
    have triv: "props_set w this n (PField f) = w"
      using own vis unfolding p by (rule props_set_triv)
    have gf: "getField w this n True = Inr (w, Some f)"
      using own vis unfolding p by (rule getField_owned)
    show ?thesis
      unfolding body_def p G_def H_def M_def
      by (simp add: Let_def split_beta gf triv split: option.splits)
  qed
  have ps: "pass p \<longleftrightarrow> (case Some pass of Some f \<Rightarrow> f p | None \<Rightarrow> True)" for p
    by simp
  from getProperties_local [where body = body and G = G and H = H and pass = pass
      and flt = "Some pass" and this = this and w = w1 and s = None, OF b ps]
  obtain w' where
    r: "getProperties (Some pass) body w1 this None =
            Inr (w', fold (\<lambda>n s. case visible w1 this n of
                                   Some p \<Rightarrow> if pass p then H n p s else s
                                 | None \<Rightarrow> s) (getPropertyNames w1 this) None)"
    and v: "\<And>m. visible w' this m =
              (case visible w1 this m of
                 Some p \<Rightarrow> Some (if pass p then G m p else p)
               | None \<Rightarrow> None)"
    and o: "\<And>b. b \<noteq> this \<Longrightarrow> ents w' b = ents w1 b"
    and n: "\<And>b. e_isNew (ents w' b) = e_isNew (ents w1 b)"
    and md: "models w' = models w1"
    by blast
  have feq: "(\<lambda>n s. case visible w1 this n of
                        Some p \<Rightarrow> if pass p then H n p s else s
                      | None \<Rightarrow> s)
           = (\<lambda>n s. case M1 n of
                None \<Rightarrow> s
              | Some m \<Rightarrow> Some (FieldMask_set (case s of None \<Rightarrow> MObj [] | Some x \<Rightarrow> x) n m))"
    by (auto simp: fun_eq_iff M1_def H_def M_def pass_def fields_filter_def
             split: option.splits property.splits)
  define missing where "missing = fold (\<lambda>n s. case M1 n of
                None \<Rightarrow> s
              | Some m \<Rightarrow> Some (FieldMask_set (case s of None \<Rightarrow> MObj [] | Some x \<Rightarrow> x) n m))
            (getPropertyNames w1 this) None"
  have res: "getFieldNames
       (\<lambda>w name rootMissingFields.
                     let fieldMask = FieldMask_get root name in
                     if \<not> truthy (Some fieldMask) then Inr (w, rootMissingFields)
                     else if hasOwnProperty object name then
                       (case getField w this name True of
                          Inl e \<Rightarrow> Inl e
                        | Inr (w', None) \<Rightarrow> Inl (JsTypeError, w')
                        | Inr (w', Some field) \<Rightarrow>
                            let (v, missingFields) =
                                  deserializeValue name field (js_get object name) source fieldMask;
                                w'' = props_set w' this name (PField (setValue field v))
                            in (case missingFields of
                                  None \<Rightarrow> Inr (w'', rootMissingFields)
                                | Some missing \<Rightarrow>
                                    if truthy (Some missing)
                                    then Inr (w'', Some (FieldMask_set
                                               (case rootMissingFields of
                                                  None \<Rightarrow> MObj [] | Some m \<Rightarrow> m)
                                               name missing))
                                    else Inr (w'', rootMissingFields)))
                     else if isNew then
                       (case getField w this name True of
                          Inl e \<Rightarrow> Inl e
                        | Inr (w', None) \<Rightarrow> Inl (JsTypeError, w')
                        | Inr (w', Some field) \<Rightarrow>
                            Inr (props_set w' this name
                                   (PField (setValue field (getDefaultValue field))),
                                 rootMissingFields))
                     else
                       Inr (w, Some (FieldMask_set
                                  (case rootMissingFields of None \<Rightarrow> MObj [] | Some m \<Rightarrow> m)
                                  name fieldMask)))
       w1 this None = Inr (w', missing)"
    unfolding unf r feq missing_def by (rule refl)
  have me: "map_of (missing_entries missing) k = M1 k" for k
  proof -
    have "map_of (missing_entries missing) k
         = (if k \<in> set (getPropertyNames w1 this) \<and> M1 k \<noteq> None then M1 k
            else map_of (missing_entries None) k)"
      unfolding missing_def
      by (rule fold_missing [where M = M1 and ?s0.0 = None, THEN conjunct2]) simp_all
    moreover have "M1 k = None" if "k \<notin> set (getPropertyNames w1 this)"
      using that by (simp add: M1_def getPropertyNames_visible)
    ultimately show ?thesis
      by (auto simp: missing_entries_def)
  qed
  have vis': "visible w' this name =
           (case visible w1 this name of
              Some (PField f) \<Rightarrow>
                Some (PField
                  (if \<not> truthy (Some (FieldMask_get root name)) then f
                   else if hasOwnProperty object name
                   then setValue f (fst (deserializeValue name f (js_get object name) source
                                       (FieldMask_get root name)))
                   else if isNew then setValue f (getDefaultValue f)
                   else f))
            | other \<Rightarrow> other)" for name
    unfolding v [of name]
    by (simp add: G_def pass_def fields_filter_def split: option.splits property.splits)
  have me': "map_of (missing_entries missing) name =
           (case visible w1 this name of
              Some (PField f) \<Rightarrow>
                (if \<not> truthy (Some (FieldMask_get root name)) then None
                 else if hasOwnProperty object name
                 then (case snd (deserializeValue name f (js_get object name) source
                                   (FieldMask_get root name)) of
                         None \<Rightarrow> None
                       | Some m \<Rightarrow> if truthy (Some m) then Some m else None)
                 else if isNew then None
                 else Some (FieldMask_get root name))
            | other \<Rightarrow> None)" for name
    unfolding me [of name]
    by (simp add: M1_def M_def split: option.splits property.splits)
  show ?thesis
    by (rule exI [of _ w'], rule exI [of _ missing], intro conjI allI impI)
       (use res vis' me' o n md in \<open>simp_all\<close>)
qed

text \<open>
  C3. \<^verbatim>\<open>$deserialize(object, {source, fields})\<close>, once \<^verbatim>\<open>super.$deserialize\<close> has
  returned and the root mask is computed, returns, and for every declared field that the
  root mask selects: if \<open>object\<close> has the key, the field holds the deserialized value and
  the returned tree has under the name of the field what that deserialization reported
  missing (nothing when it reported nothing); otherwise, if the instance is new, the
  field holds its default and is not in the tree; otherwise the field is unchanged and
  the tree has its nested mask under its name. A field that the mask does not select is
  unchanged and is not in the tree.
\<close>

theorem deserialize_per_field:
  fixes deserializeValue :: "string \<Rightarrow> field \<Rightarrow> val \<Rightarrow> 'src \<Rightarrow> mask \<Rightarrow> val \<times> mask option"
  assumes sup: "superDeserialize w this object = Inr (w0, u)"
    and mask: "createFieldMask budget w0 this fieldsArg None False = Some (Inr (w1, root))"
  shows "\<exists>w' missing.
     deserialize superDeserialize deserializeValue budget w this object source fieldsArg
       = Some (Inr (w', missing))
     \<and> (\<forall>name f. visible w0 this name = Some (PField f)
            \<and> truthy (Some (FieldMask_get root name)) \<longrightarrow>
          (if hasOwnProperty object name
           then visible w' this name
                  = Some (PField (setValue f
                      (fst (deserializeValue name f (js_get object name) source
                              (FieldMask_get root name)))))
              \<and> map_of (missing_entries missing) name
                  = (case snd (deserializeValue name f (js_get object name) source
                                 (FieldMask_get root name)) of
                       None \<Rightarrow> None
                     | Some m \<Rightarrow> if truthy (Some m) then Some m else None)
           else if e_isNew (ents w0 this)
           then visible w' this name = Some (PField (setValue f (getDefaultValue f)))
              \<and> map_of (missing_entries missing) name = None
           else visible w' this name = Some (PField f)
              \<and> map_of (missing_entries missing) name = Some (FieldMask_get root name)))
     \<and> (\<forall>name f. visible w0 this name = Some (PField f)
            \<and> \<not> truthy (Some (FieldMask_get root name)) \<longrightarrow>
          visible w' this name = Some (PField f)
          \<and> map_of (missing_entries missing) name = None)
     \<and> (\<forall>name. (\<forall>f. visible w0 this name \<noteq> Some (PField f)) \<longrightarrow>
          visible w' this name = visible w0 this name
          \<and> map_of (missing_entries missing) name = None)
     \<and> (\<forall>b. e_isNew (ents w' b) = e_isNew (ents w0 b))"
proof -
  have sv1: "same_view w0 w1"
    using mask by (rule createFieldMask_same_view)
  have v1: "visible w1 b m = visible w0 b m" for b m
    using sv1 by (simp add: same_view_visible)
  have n1: "e_isNew (ents w1 b) = e_isNew (ents w0 b)" for b
    using sv1 by (simp add: same_view_def)
  from deserialize_loop [where root = root and object = object and this = this
      and deserializeValue = deserializeValue and source = source and isNew = "e_isNew (ents w1 this)" and ?w1.0 = w1]
  obtain w' missing where
    r: "getFieldNames
       (\<lambda>w name rootMissingFields.
                     let fieldMask = FieldMask_get root name in
                     if \<not> truthy (Some fieldMask) then Inr (w, rootMissingFields)
                     else if hasOwnProperty object name then
                       (case getField w this name True of
                          Inl e \<Rightarrow> Inl e
                        | Inr (w', None) \<Rightarrow> Inl (JsTypeError, w')
                        | Inr (w', Some field) \<Rightarrow>
                            let (v, missingFields) =
                                  deserializeValue name field (js_get object name) source fieldMask;
                                w'' = props_set w' this name (PField (setValue field v))
                            in (case missingFields of
                                  None \<Rightarrow> Inr (w'', rootMissingFields)
                                | Some missing \<Rightarrow>
                                    if truthy (Some missing)
                                    then Inr (w'', Some (FieldMask_set
                                               (case rootMissingFields of
                                                  None \<Rightarrow> MObj [] | Some m \<Rightarrow> m)
                                               name missing))
                                    else Inr (w'', rootMissingFields)))
                     else if e_isNew (ents w1 this) then
                       (case getField w this name True of
                          Inl e \<Rightarrow> Inl e
                        | Inr (w', None) \<Rightarrow> Inl (JsTypeError, w')
                        | Inr (w', Some field) \<Rightarrow>
                            Inr (props_set w' this name
                                   (PField (setValue field (getDefaultValue field))),
                                 rootMissingFields))
                     else
                       Inr (w, Some (FieldMask_set
                                  (case rootMissingFields of None \<Rightarrow> MObj [] | Some m \<Rightarrow> m)
                                  name fieldMask)))
       w1 this None = Inr (w', missing)
     \<and> (\<forall>name. visible w' this name =
           (case visible w1 this name of
              Some (PField f) \<Rightarrow>
                Some (PField
                  (if \<not> truthy (Some (FieldMask_get root name)) then f
                   else if hasOwnProperty object name
                   then setValue f (fst (deserializeValue name f (js_get object name) source
                                       (FieldMask_get root name)))
                   else if e_isNew (ents w1 this) then setValue f (getDefaultValue f)
                   else f))
            | other \<Rightarrow> other))
     \<and> (\<forall>name. map_of (missing_entries missing) name =
           (case visible w1 this name of
              Some (PField f) \<Rightarrow>
                (if \<not> truthy (Some (FieldMask_get root name)) then None
                 else if hasOwnProperty object name
                 then (case snd (deserializeValue name f (js_get object name) source
                                   (FieldMask_get root name)) of
                         None \<Rightarrow> None
                       | Some m \<Rightarrow> if truthy (Some m) then Some m else None)
                 else if e_isNew (ents w1 this) then None
                 else Some (FieldMask_get root name))
            | other \<Rightarrow> None))
     \<and> (\<forall>b. b \<noteq> this \<longrightarrow> ents w' b = ents w1 b)
     \<and> (\<forall>b. e_isNew (ents w' b) = e_isNew (ents w1 b))
     \<and> models w' = models w1"
    by (elim exE)
  note r1 = r [THEN conjunct1]
  note r2 = r [THEN conjunct2, THEN conjunct1, rule_format, unfolded v1 n1]
  note r3 = r [THEN conjunct2, THEN conjunct2, THEN conjunct1, rule_format, unfolded v1 n1]
  note r5 = r [THEN conjunct2, THEN conjunct2, THEN conjunct2, THEN conjunct2, THEN conjunct1,
               rule_format, unfolded n1]
  have res: "deserialize superDeserialize deserializeValue budget w this object source fieldsArg
       = Some (Inr (w', missing))"
  proof -
    have "deserialize superDeserialize deserializeValue budget w this object source fieldsArg
       = Some (getFieldNames
       (\<lambda>w name rootMissingFields.
                     let fieldMask = FieldMask_get root name in
                     if \<not> truthy (Some fieldMask) then Inr (w, rootMissingFields)
                     else if hasOwnProperty object name then
                       (case getField w this name True of
                          Inl e \<Rightarrow> Inl e
                        | Inr (w', None) \<Rightarrow> Inl (JsTypeError, w')
                        | Inr (w', Some field) \<Rightarrow>
                            let (v, missingFields) =
                                  deserializeValue name field (js_get object name) source fieldMask;
                                w'' = props_set w' this name (PField (setValue field v))
                            in (case missingFields of
                                  None \<Rightarrow> Inr (w'', rootMissingFields)
                                | Some missing \<Rightarrow>
                                    if truthy (Some missing)
                                    then Inr (w'', Some (FieldMask_set
                                               (case rootMissingFields of
                                                  None \<Rightarrow> MObj [] | Some m \<Rightarrow> m)
                                               name missing))
                                    else Inr (w'', rootMissingFields)))
                     else if e_isNew (ents w1 this) then
                       (case getField w this name True of
                          Inl e \<Rightarrow> Inl e
                        | Inr (w', None) \<Rightarrow> Inl (JsTypeError, w')
                        | Inr (w', Some field) \<Rightarrow>
                            Inr (props_set w' this name
                                   (PField (setValue field (getDefaultValue field))),
                                 rootMissingFields))
                     else
                       Inr (w, Some (FieldMask_set
                                  (case rootMissingFields of None \<Rightarrow> MObj [] | Some m \<Rightarrow> m)
                                  name fieldMask)))
       w1 this None)"
      by (simp add: deserialize_def sup mask)
    then show ?thesis unfolding r1 .
  qed
  have sel: "(if hasOwnProperty object name
           then visible w' this name
                  = Some (PField (setValue f
                      (fst (deserializeValue name f (js_get object name) source
                              (FieldMask_get root name)))))
              \<and> map_of (missing_entries missing) name
                  = (case snd (deserializeValue name f (js_get object name) source
                                 (FieldMask_get root name)) of
                       None \<Rightarrow> None
                     | Some m \<Rightarrow> if truthy (Some m) then Some m else None)
           else if e_isNew (ents w0 this)
           then visible w' this name = Some (PField (setValue f (getDefaultValue f)))
              \<and> map_of (missing_entries missing) name = None
           else visible w' this name = Some (PField f)
              \<and> map_of (missing_entries missing) name = Some (FieldMask_get root name))"
    if "visible w0 this name = Some (PField f)" "truthy (Some (FieldMask_get root name))"
    for name f
    using that r2 [of name] r3 [of name] by simp
  have unsel: "visible w' this name = Some (PField f)
          \<and> map_of (missing_entries missing) name = None"
    if "visible w0 this name = Some (PField f)" "\<not> truthy (Some (FieldMask_get root name))"
    for name f
    using that r2 [of name] r3 [of name] by simp
  have other: "visible w' this name = visible w0 this name
          \<and> map_of (missing_entries missing) name = None"
    if "\<forall>f. visible w0 this name \<noteq> Some (PField f)" for name
    using that r2 [of name] r3 [of name]
    by (simp split: option.splits property.splits)
  show ?thesis
  proof (rule exI [of _ w'], rule exI [of _ missing], intro conjI allI impI, goal_cases)
    case 1
    show ?case by (rule res)
  next
    case (2 name f)
    then show ?case using sel [of name f] by blast
  next
    case (3 name f)
    then show ?case using unsel [of name f] by blast
  next
    case (4 name f)
    then show ?case using unsel [of name f] by blast
  next
    case (5 name)
    then show ?case using other [of name] by blast
  next
    case (6 name)
    then show ?case using other [of name] by blast
  next
    case (7 b)
    show ?case by (rule r5)
  qed
qed

subsection \<open>The claims at the example models\<close>

lemma mw0_visible_2:
  "visible mw0 2 ''title'' = Some (PField title_field)"
  "visible mw0 2 ''sequel'' = Some (PField sequel_field)"
  "visible mw0 2 ''load'' = Some (PMethod load_method)"
  by (simp_all add: visible.simps mw0_def blank_entity_def movie_props_def)

theorem setField_type_redeclaration_witness:
  "visible mw0 2 ''title'' = Some (PField title_field)
   \<and> js_get [(''type'', VStr ''number'')] ''type'' \<noteq> VUndefined
   \<and> js_get [(''type'', VStr ''number'')] ''type'' \<noteq> VStr (getType title_field)
   \<and> (\<exists>w'. setField sample_construct sample_getOptions mw0 2 ''title''
               [(''type'', VStr ''number'')] = Inl (CannotChangeFieldType ''title'', w')
           \<and> visible w' 2 ''title'' = Some (PField title_field)
           \<and> same_view mw0 w'
           \<and> ents w' 0 = ents mw0 0)"
proof -
  have h1: "visible mw0 2 ''title'' = Some (PField title_field)"
    by (rule mw0_visible_2)
  have h2: "js_get [(''type'', VStr ''number'')] ''type'' \<noteq> VUndefined"
    by (simp add: js_get_def)
  have h3: "js_get [(''type'', VStr ''number'')] ''type'' \<noteq> VStr (getType title_field)"
    by (simp add: js_get_def getType_def title_field_def)
  from setField_type_redeclaration [OF h1 h2 h3, of sample_construct sample_getOptions]
  obtain w' where
    r: "setField sample_construct sample_getOptions mw0 2 ''title''
               [(''type'', VStr ''number'')] = Inl (CannotChangeFieldType ''title'', w')
              \<and> visible w' 2 ''title'' = Some (PField title_field)
              \<and> same_view mw0 w'
              \<and> (\<forall>b. b \<noteq> 2 \<longrightarrow> ents w' b = ents mw0 b)
              \<and> (props_hasOwn mw0 2 ''title'' \<longrightarrow> w' = mw0)" ..
  then have "ents w' 0 = ents mw0 0" by simp
  with r h1 h2 h3 show ?thesis by blast
qed

theorem Model_constructor_fills_every_field_witness:
  "\<exists>w'. Model_constructor plain_create mw0 2 [(''title'', VStr ''Inception'')] False
           = Inr (w', ())
       \<and> visible w' 2 ''title''
           = Some (PField (title_field\<lparr>f_content := Some (VStr ''Inception'')\<rparr>))
       \<and> visible w' 2 ''sequel''
           = Some (PField (sequel_field\<lparr>f_content := Some VUndefined\<rparr>))
       \<and> visible w' 2 ''load'' = Some (PMethod load_method)
       \<and> ents w' 0 = ents mw0 0"
proof -
  from Model_constructor_fills_every_field
    [of plain_create mw0 2 "[(''title'', VStr ''Inception'')]", THEN conjunct2]
  obtain w' where
    r: "Model_constructor plain_create mw0 2 [(''title'', VStr ''Inception'')] False
          = Inr (w', ())
        \<and> (\<forall>name f. visible mw0 2 name = Some (PField f) \<longrightarrow>
              visible w' 2 name =
                Some (PField (if hasOwnProperty [(''title'', VStr ''Inception'')] name
                              then createValue plain_create f
                                     (js_get [(''title'', VStr ''Inception'')] name)
                              else setValue f (getDefaultValue f)))
              \<and> (\<exists>f'. visible w' 2 name = Some (PField f') \<and> isActive f'))
        \<and> (\<forall>name m. visible mw0 2 name = Some (PMethod m) \<longrightarrow>
              visible w' 2 name = Some (PMethod m))
        \<and> (\<forall>name. visible mw0 2 name = None \<longrightarrow> visible w' 2 name = None)
        \<and> (\<forall>b. b \<noteq> 2 \<longrightarrow> ents w' b = ents mw0 b)" ..
  note r1 = r [THEN conjunct1]
  note r2 = r [THEN conjunct2, THEN conjunct1, rule_format, THEN conjunct1]
  note r3 = r [THEN conjunct2, THEN conjunct2, THEN conjunct1, rule_format]
  note r5 = r [THEN conjunct2, THEN conjunct2, THEN conjunct2, THEN conjunct2, rule_format]
  have a: "visible w' 2 ''title''
           = Some (PField (title_field\<lparr>f_content := Some (VStr ''Inception'')\<rparr>))"
    using r2 [OF mw0_visible_2(1)]
    by (simp add: hasOwnProperty_def createValue_def plain_create_def js_get_def)
  have b: "visible w' 2 ''sequel''
           = Some (PField (sequel_field\<lparr>f_content := Some VUndefined\<rparr>))"
    using r2 [OF mw0_visible_2(2)]
    by (simp add: hasOwnProperty_def setValue_def getDefaultValue_def sequel_field_def)
  have c: "visible w' 2 ''load'' = Some (PMethod load_method)"
    using r3 [OF mw0_visible_2(3)] .
  have d: "ents w' 0 = ents mw0 0"
    using r5 [of 0] by simp
  show ?thesis
    by (rule exI [of _ w'], intro conjI) (rule r1 a b c d)+
qed

theorem assign_claim_counterexample:
  "assign plain_create mw0 2 VUndefined = Inr (mw0, ())
   \<and> thrown (assign plain_create mw0 2 (VObj [(''load'', VNum 1)])) = Some (NotAField ''load'')"
proof -
  have 1: "assign plain_create mw0 2 VUndefined = Inr (mw0, ())"
    by (simp add: assign_def)
  have "visible mw0 2 ''load'' = Some (PMethod load_method)"
    by (rule mw0_visible_2)
  from assignObject_loop_method [OF this, of plain_create "VNum 1" "[]"] obtain w' where
    "assignObject_loop plain_create 2 [(''load'', VNum 1)] mw0 = Inl (NotAField ''load'', w')"
    by blast
  then have "thrown (assign plain_create mw0 2 (VObj [(''load'', VNum 1)]))
               = Some (NotAField ''load'')"
    by (simp add: assign_def isModel_def priv_assignObject_def thrown_def)
  with 1 show ?thesis ..
qed

theorem assign_plain_object_and_mismatch_witness:
  "distinct (map fst [(''title'', VStr ''Inception''), (''year'', VNum 2010)])
   \<and> visible mw0 2 ''title'' = Some (PField title_field)
   \<and> visible mw0 2 ''year'' = None
   \<and> (\<exists>w'. assign plain_create mw0 2
               (VObj [(''title'', VStr ''Inception''), (''year'', VNum 2010)]) = Inr (w', ())
          \<and> visible w' 2 ''title''
               = Some (PField (title_field\<lparr>f_content := Some (VStr ''Inception'')\<rparr>))
          \<and> visible w' 2 ''sequel'' = Some (PField sequel_field)
          \<and> visible w' 2 ''year'' = None)
   \<and> (\<exists>w'. assign plain_create mw0 2 (VObj [(''title'', VStr ''Up''), (''load'', VNum 1)])
              = Inl (NotAField ''load'', w'))
   \<and> assign plain_create mw0 2 (VStr ''x'') = Inl (TypeMismatch ''string'', mw0)"
proof -
  note main = assign_plain_object_and_mismatch
  let ?kv = "[(''title'', VStr ''Inception''), (''year'', VNum 2010)]"
  have year: "visible mw0 2 ''year'' = None"
    by (simp add: visible.simps mw0_def blank_entity_def movie_props_def)
  have vis: "visible mw0 2 n \<noteq> Some (PMethod m)" if "n = ''title'' \<or> n = ''year''" for n m
    using that mw0_visible_2(1) year by auto
  have h1: "distinct (map fst ?kv)" by simp
  have h2: "\<forall>n m. hasOwnProperty ?kv n \<longrightarrow> visible mw0 2 n \<noteq> Some (PMethod m)"
    using vis by (auto simp: hasOwnProperty_def split: if_splits)
  from main [where kv = ?kv and w = mw0 and this = 2 and create = plain_create,
      THEN conjunct1] h1 h2
  obtain w' where
    r: "assign plain_create mw0 2 (VObj ?kv) = Inr (w', ())
         \<and> (\<forall>name. visible w' 2 name =
               (case visible mw0 2 name of
                  Some (PField f) \<Rightarrow>
                    if hasOwnProperty ?kv name
                    then Some (PField (createValue plain_create f (js_get ?kv name)))
                    else Some (PField f)
                | other \<Rightarrow> other))
         \<and> (\<forall>b. b \<noteq> 2 \<longrightarrow> ents w' b = ents mw0 b)"
    by blast
  note r1 = r [THEN conjunct1]
  note r2 = r [THEN conjunct2, THEN conjunct1, rule_format]
  have a: "visible w' 2 ''title''
             = Some (PField (title_field\<lparr>f_content := Some (VStr ''Inception'')\<rparr>))"
    using r2 [of "''title''"]
    by (simp add: mw0_visible_2 hasOwnProperty_def js_get_def createValue_def plain_create_def)
  have b: "visible w' 2 ''sequel'' = Some (PField sequel_field)"
    using r2 [of "''sequel''"] by (simp add: mw0_visible_2 hasOwnProperty_def)
  have c: "visible w' 2 ''year'' = None"
    using r2 [of "''year''"] by (simp add: year)
  have ex1: "\<exists>w'. assign plain_create mw0 2 (VObj ?kv) = Inr (w', ())
          \<and> visible w' 2 ''title''
               = Some (PField (title_field\<lparr>f_content := Some (VStr ''Inception'')\<rparr>))
          \<and> visible w' 2 ''sequel'' = Some (PField sequel_field)
          \<and> visible w' 2 ''year'' = None"
    by (rule exI [of _ w'], intro conjI) (rule r1 a b c)+
  have g1: "distinct (map fst ([(''title'', VStr ''Up'')] @ (''load'', VNum 1) # []))" by simp
  have g2: "\<forall>k m. hasOwnProperty [(''title'', VStr ''Up'')] k \<longrightarrow>
              visible mw0 2 k \<noteq> Some (PMethod m)"
    using mw0_visible_2(1) by (auto simp: hasOwnProperty_def split: if_splits)
  from main [where w = mw0 and this = 2 and create = plain_create
      and before = "[(''title'', VStr ''Up'')]" and n = "''load''" and v = "VNum 1"
      and after = "[]" and m = load_method, THEN conjunct2, THEN conjunct1]
    g1 g2 mw0_visible_2(3)
  have ex2: "\<exists>w'. assign plain_create mw0 2 (VObj [(''title'', VStr ''Up''), (''load'', VNum 1)])
              = Inl (NotAField ''load'', w')"
    by simp
  have mm: "assign plain_create mw0 2 (VStr ''x'') = Inl (TypeMismatch ''string'', mw0)"
    using main [where w = mw0 and this = 2 and create = plain_create
        and object = "VStr ''x''", THEN conjunct2, THEN conjunct2, THEN conjunct1]
    by (simp add: isModel_def)
  show ?thesis using h1 mw0_visible_2(1) year ex1 ex2 mm by blast
qed


lemma mw0_createFieldMask:
  "map_option returned (createFieldMask 2 mw0 2 None None False)
     = Some (Some (MObj [(''title'', MBool True),
                         (''sequel'', MObj [(''title'', MBool True)])]))"
  by code_simp

theorem createFieldMask_terminates_witness:
  "length (models mw0) < 2
   \<and> createFieldMask 2 mw0 2 None None False \<noteq> None
   \<and> map_option returned (createFieldMask 2 mw0 2 None None False)
        = Some (Some (MObj [(''title'', MBool True),
                            (''sequel'', MObj [(''title'', MBool True)])]))
   \<and> f_scalar sequel_field \<in> {''Movie''}
   \<and> createFieldMask_field (\<lambda>w p m s. None) (MBool True) mw0 ''sequel'' sequel_field
        ([], {''Movie''}) = Some (Inr (mw0, [], {''Movie''}))"
proof -
  have h: "length (models mw0) < 2" by (simp add: mw0_def)
  have s: "f_scalar sequel_field \<in> {''Movie''}" by (simp add: sequel_field_def)
  note main = createFieldMask_terminates
    [where w = mw0 and budget = 2 and this = 2 and fieldsArg = None and flt = None
       and includeReferencedEntities = False and field = sequel_field
       and typeStack = "{''Movie''}" and nested = "\<lambda>w p m s. None" and root = "MBool True"
       and name = "''sequel''" and acc = "[]"]
  from main [THEN conjunct1] h
  have a: "createFieldMask 2 mw0 2 None None False \<noteq> None" by simp
  from main [THEN conjunct2, THEN conjunct2, THEN conjunct2, THEN conjunct1] s
  have d: "createFieldMask_field (\<lambda>w p m s. None) (MBool True) mw0 ''sequel'' sequel_field
        ([], {''Movie''}) = Some (Inr (mw0, [], {''Movie''}))" by simp
  show ?thesis
    by (intro conjI) (rule h a mw0_createFieldMask s d)+
qed

lemma returned_Some:
  "map_option returned r = Some (Some x) \<Longrightarrow> \<exists>w1. r = Some (Inr (w1, x))"
  by (cases r) (auto simp: returned_def split: sum.splits)

lemma mw0_visible_3:
  "visible mw0 3 ''title''
     = Some (PField (title_field\<lparr>f_content := Some (VStr ''Inception'')\<rparr>))"
  "visible mw0 3 ''sequel'' = Some (PField (sequel_field\<lparr>f_content := Some VNull\<rparr>))"
  by (simp_all add: visible.simps mw0_def blank_entity_def movie_props_def)

lemma mw0_exposed_mask:
  "map_option returned (createFieldMaskForExposedFields 2 mw0 3 None)
     = Some (Some (MObj [(''title'', MBool True)]))"
  by code_simp

theorem serialize_root_mask_and_fields_witness:
  "map_option returned (createFieldMaskForExposedFields 2 mw0 3 None)
     = Some (Some (MObj [(''title'', MBool True)]))
   \<and> (\<exists>w' out.
         serialize sample_serializeValue sample_superSerialize (Some ''backend'') None 2 mw0 3
           (Some ''frontend'') None = Some (Inr (w', out))
       \<and> ''title'' \<in> fst ` set out
       \<and> map_of out ''title'' = Some (VStr ''Inception'')
       \<and> ''sequel'' \<notin> fst ` set out)"
proof -
  from returned_Some [OF mw0_exposed_mask] obtain w1 where
    m: "createFieldMaskForExposedFields 2 mw0 3 None
          = Some (Inr (w1, MObj [(''title'', MBool True)]))" ..
  note main = serialize_root_mask_and_fields
    [where target = "Some ''frontend''" and layerId = "Some ''backend''"
       and parentLayerId = None and budget = 2 and w = mw0 and this = 3 and fieldsArg = None
       and serializeValue = sample_serializeValue and superSerialize = sample_superSerialize,
     THEN conjunct2, THEN conjunct1, rule_format, of w1 "MObj [(''title'', MBool True)]"]
  have "\<exists>w' out.
           serialize sample_serializeValue sample_superSerialize (Some ''backend'') None 2 mw0 3
             (Some ''frontend'') None = Some (Inr (w', out))
           \<and> (\<forall>name. name \<notin> fst ` set (sample_superSerialize w' 3) \<longrightarrow>
                 (name \<in> fst ` set out \<longleftrightarrow>
                    (\<exists>f. visible mw0 3 name = Some (PField f) \<and> isActive f
                       \<and> truthy (Some (FieldMask_get (MObj [(''title'', MBool True)]) name))
                       \<and> sample_serializeValue name f (Some ''frontend'')
                            (FieldMask_get (MObj [(''title'', MBool True)]) name) \<noteq> VUndefined)))
           \<and> (\<forall>name f. visible mw0 3 name = Some (PField f) \<and> isActive f
                       \<and> truthy (Some (FieldMask_get (MObj [(''title'', MBool True)]) name))
                       \<and> sample_serializeValue name f (Some ''frontend'')
                            (FieldMask_get (MObj [(''title'', MBool True)]) name) \<noteq> VUndefined
                 \<longrightarrow> map_of out name
                       = Some (sample_serializeValue name f (Some ''frontend'')
                            (FieldMask_get (MObj [(''title'', MBool True)]) name)))
           \<and> (\<forall>b m. visible w' b m = visible mw0 b m)"
    using main m by simp
  then obtain w' out where
    r: "serialize sample_serializeValue sample_superSerialize (Some ''backend'') None 2 mw0 3
             (Some ''frontend'') None = Some (Inr (w', out))
           \<and> (\<forall>name. name \<notin> fst ` set (sample_superSerialize w' 3) \<longrightarrow>
                 (name \<in> fst ` set out \<longleftrightarrow>
                    (\<exists>f. visible mw0 3 name = Some (PField f) \<and> isActive f
                       \<and> truthy (Some (FieldMask_get (MObj [(''title'', MBool True)]) name))
                       \<and> sample_serializeValue name f (Some ''frontend'')
                            (FieldMask_get (MObj [(''title'', MBool True)]) name) \<noteq> VUndefined)))
           \<and> (\<forall>name f. visible mw0 3 name = Some (PField f) \<and> isActive f
                       \<and> truthy (Some (FieldMask_get (MObj [(''title'', MBool True)]) name))
                       \<and> sample_serializeValue name f (Some ''frontend'')
                            (FieldMask_get (MObj [(''title'', MBool True)]) name) \<noteq> VUndefined
                 \<longrightarrow> map_of out name
                       = Some (sample_serializeValue name f (Some ''frontend'')
                            (FieldMask_get (MObj [(''title'', MBool True)]) name)))
           \<and> (\<forall>b m. visible w' b m = visible mw0 b m)"
    by (elim exE)
  note r1 = r [THEN conjunct1]
  note r2 = r [THEN conjunct2, THEN conjunct1, rule_format]
  note r3 = r [THEN conjunct2, THEN conjunct2, THEN conjunct1, rule_format]
  have t: "''title'' \<in> fst ` set out"
    using r2 [of "''title''"]
    by (simp add: sample_superSerialize_def mw0_visible_3 isActive_def title_field_def
        sample_serializeValue_def getValue_def js_get_def
        split: option.splits)
  have v: "map_of out ''title'' = Some (VStr ''Inception'')"
    using r3 [of "''title''" "title_field\<lparr>f_content := Some (VStr ''Inception'')\<rparr>"]
    by (simp add: mw0_visible_3 isActive_def title_field_def
        sample_serializeValue_def getValue_def js_get_def
        split: option.splits)
  have s: "''sequel'' \<notin> fst ` set out"
    using r2 [of "''sequel''"]
    by (simp add: sample_superSerialize_def mw0_visible_3 isActive_def sequel_field_def
        sample_serializeValue_def getValue_def js_get_def
        split: option.splits)
  show ?thesis
    by (rule conjI [OF mw0_exposed_mask], rule exI [of _ w'], rule exI [of _ out])
       (intro conjI; rule r1 t v s)
qed

lemma mw0_full_mask_3:
  "map_option returned (createFieldMask 2 mw0 3 None None False)
     = Some (Some (MObj [(''title'', MBool True),
                         (''sequel'', MObj [(''title'', MBool True)])]))"
  by code_simp

theorem deserialize_per_field_witness:
  "sample_superDeserialize mw0 3 [(''title'', VStr ''Tenet'')] = Inr (mw0, ())
   \<and> map_option returned (createFieldMask 2 mw0 3 None None False)
        = Some (Some (MObj [(''title'', MBool True),
                            (''sequel'', MObj [(''title'', MBool True)])]))
   \<and> (\<exists>w' missing.
         deserialize sample_superDeserialize sample_deserializeValue 2 mw0 3
           [(''title'', VStr ''Tenet'')] () None = Some (Inr (w', missing))
       \<and> visible w' 3 ''title'' = Some (PField (title_field\<lparr>f_content := Some (VStr ''Tenet'')\<rparr>))
       \<and> map_of (missing_entries missing) ''title'' = None
       \<and> visible w' 3 ''sequel'' = Some (PField (sequel_field\<lparr>f_content := Some VNull\<rparr>))
       \<and> map_of (missing_entries missing) ''sequel'' = Some (MObj [(''title'', MBool True)]))"
proof -
  have sup: "sample_superDeserialize mw0 3 [(''title'', VStr ''Tenet'')] = Inr (mw0, ())"
    by (simp add: sample_superDeserialize_def)
  from returned_Some [OF mw0_full_mask_3] obtain w1 where
    m: "createFieldMask 2 mw0 3 None None False
          = Some (Inr (w1, MObj [(''title'', MBool True),
                                 (''sequel'', MObj [(''title'', MBool True)])]))" ..
  note main = deserialize_per_field
    [where superDeserialize = sample_superDeserialize and w = mw0 and this = 3
       and object = "[(''title'', VStr ''Tenet'')]" and ?w0.0 = mw0 and u = "()"
       and budget = 2 and fieldsArg = None and ?w1.0 = w1
       and root = "MObj [(''title'', MBool True), (''sequel'', MObj [(''title'', MBool True)])]"
       and deserializeValue = sample_deserializeValue and source = "()"]
  from main [OF sup m]
  obtain w' missing where
    r: "deserialize sample_superDeserialize sample_deserializeValue 2 mw0 3
           [(''title'', VStr ''Tenet'')] () None = Some (Inr (w', missing))
     \<and> (\<forall>name f. visible mw0 3 name = Some (PField f)
            \<and> truthy (Some (FieldMask_get (MObj [(''title'', MBool True),
                                 (''sequel'', MObj [(''title'', MBool True)])]) name)) \<longrightarrow>
          (if hasOwnProperty [(''title'', VStr ''Tenet'')] name
           then visible w' 3 name
                  = Some (PField (setValue f
                      (fst (sample_deserializeValue name f (js_get [(''title'', VStr ''Tenet'')] name) ()
                              (FieldMask_get (MObj [(''title'', MBool True),
                                 (''sequel'', MObj [(''title'', MBool True)])]) name)))))
              \<and> map_of (missing_entries missing) name
                  = (case snd (sample_deserializeValue name f (js_get [(''title'', VStr ''Tenet'')] name) ()
                                 (FieldMask_get (MObj [(''title'', MBool True),
                                 (''sequel'', MObj [(''title'', MBool True)])]) name)) of
                       None \<Rightarrow> None
                     | Some m \<Rightarrow> if truthy (Some m) then Some m else None)
           else if e_isNew (ents mw0 3)
           then visible w' 3 name = Some (PField (setValue f (getDefaultValue f)))
              \<and> map_of (missing_entries missing) name = None
           else visible w' 3 name = Some (PField f)
              \<and> map_of (missing_entries missing) name = Some (FieldMask_get (MObj [(''title'', MBool True),
                                 (''sequel'', MObj [(''title'', MBool True)])]) name)))
     \<and> (\<forall>name f. visible mw0 3 name = Some (PField f)
            \<and> \<not> truthy (Some (FieldMask_get (MObj [(''title'', MBool True),
                                 (''sequel'', MObj [(''title'', MBool True)])]) name)) \<longrightarrow>
          visible w' 3 name = Some (PField f)
          \<and> map_of (missing_entries missing) name = None)
     \<and> (\<forall>name. (\<forall>f. visible mw0 3 name \<noteq> Some (PField f)) \<longrightarrow>
          visible w' 3 name = visible mw0 3 name
          \<and> map_of (missing_entries missing) name = None)
     \<and> (\<forall>b. e_isNew (ents w' b) = e_isNew (ents mw0 b))"
    by (elim exE)
  note r1 = r [THEN conjunct1]
  note r2 = r [THEN conjunct2, THEN conjunct1, rule_format]
  have nn: "\<not> e_isNew (ents mw0 3)"
    by (simp add: mw0_def blank_entity_def)
  have t: "visible w' 3 ''title'' = Some (PField (title_field\<lparr>f_content := Some (VStr ''Tenet'')\<rparr>))
       \<and> map_of (missing_entries missing) ''title'' = None"
    using r2 [of "''title''" "title_field\<lparr>f_content := Some (VStr ''Inception'')\<rparr>"]
    by (simp add: mw0_visible_3 hasOwnProperty_def js_get_def sample_deserializeValue_def
          setValue_def)
  have s: "visible w' 3 ''sequel'' = Some (PField (sequel_field\<lparr>f_content := Some VNull\<rparr>))
       \<and> map_of (missing_entries missing) ''sequel'' = Some (MObj [(''title'', MBool True)])"
    using r2 [of "''sequel''" "sequel_field\<lparr>f_content := Some VNull\<rparr>"] nn
    by (simp add: mw0_visible_3 hasOwnProperty_def)
  show ?thesis
    by (rule conjI [OF sup], rule conjI [OF mw0_full_mask_3], rule exI [of _ w'],
        rule exI [of _ missing])
       (use r1 t s in simp)
qed

end
